theory Spec2Isabelle
  imports Complex_Main "HOL-Library.Word" "HOL-Library.Multiset"
begin

unbundle bit_operations_syntax

section \<open>The vector tile plugin: \<^verbatim>\<open>src/engine/plugins/tile.cpp\<close>\<close>

text \<open>
  \<^verbatim>\<open>TilePlugin::HandleRequest\<close> turns the edges of a bounding box into a vector tile with
  two layers. The embedding follows the source function by function. The graph facade, the
  routing base, the projection utilities, the clipping library and the floating point
  operations are not part of the file: they are the fields of two records of functions
  that every definition takes as a parameter.
\<close>

subsection \<open>Data\<close>

type_synonym NodeID = nat
type_synonym EdgeID = nat

text \<open>\<^verbatim>\<open>EdgeWeight\<close> is the C++ \<^verbatim>\<open>int\<close>: a 32-bit word, read as two's complement by \<open>sint\<close>.\<close>

type_synonym EdgeWeight = "32 word"

text \<open>\<^verbatim>\<open>util::Coordinate\<close>: fixed point longitude and latitude.\<close>

type_synonym Coordinate = "int \<times> int"

text \<open>\<^verbatim>\<open>detail::FixedPoint\<close> is \<^verbatim>\<open>Point<std::int32_t>\<close>, a \<^verbatim>\<open>FixedLine\<close> a vector of them.\<close>

type_synonym FixedPoint = "32 word \<times> 32 word"
type_synonym FixedLine = "FixedPoint list"

text \<open>\<^verbatim>\<open>SPECIAL_EDGEID\<close> (\<^verbatim>\<open>util/typedefs.hpp\<close>) is the largest \<^verbatim>\<open>unsigned\<close>.\<close>

definition SPECIAL_EDGEID :: nat where
  "SPECIAL_EDGEID = 4294967295"

record 'd BBox =
  minx :: 'd
  miny :: 'd
  maxx :: 'd
  maxy :: 'd

record TurnData =
  in_angle_offset :: nat
  out_angle_offset :: nat
  weight_offset :: nat

record SegmentID =
  seg_id :: nat
  enabled :: bool

text \<open>
  The fields of \<^verbatim>\<open>EdgeBasedNode\<close> that the plugin reads. \<^verbatim>\<open>edge_u\<close> and \<^verbatim>\<open>edge_v\<close> are the
  source's \<^verbatim>\<open>u\<close> and \<^verbatim>\<open>v\<close>, \<^verbatim>\<open>is_tiny\<close> is \<^verbatim>\<open>component.is_tiny\<close>. The segment position is an
  unsigned integer narrower than \<^verbatim>\<open>std::size_t\<close>.
\<close>

record Edge =
  forward_segment_id :: SegmentID
  reverse_segment_id :: SegmentID
  edge_u :: NodeID
  edge_v :: NodeID
  forward_packed_geometry_id :: nat
  reverse_packed_geometry_id :: nat
  fwd_segment_position :: "16 word"
  is_tiny :: bool

text \<open>The fields of \<^verbatim>\<open>contractor::QueryEdge::EdgeData\<close> that the plugin reads.\<close>

record EdgeData =
  edge_id :: nat
  distance :: EdgeWeight
  forward :: bool

record TileParameters =
  tile_x :: nat
  tile_y :: nat
  tile_z :: nat

text \<open>
  The data facade, with \<^verbatim>\<open>routing_base.UnpackEdgeToEdges\<close> as its last field. A call that
  fills a vector passed by reference returns that vector.
\<close>

record facade =
  GetEdgesInBox :: "Coordinate \<Rightarrow> Coordinate \<Rightarrow> Edge list"
  GetUncompressedWeights :: "nat \<Rightarrow> EdgeWeight list"
  GetUncompressedDatasources :: "nat \<Rightarrow> 8 word list"
  GetUncompressedGeometry :: "nat \<Rightarrow> NodeID list"
  GetCoordinateOfNode :: "NodeID \<Rightarrow> Coordinate"
  GetAdjacentEdgeRange :: "nat \<Rightarrow> EdgeID list"
  GetEdgeData :: "EdgeID \<Rightarrow> EdgeData"
  GetTarget :: "EdgeID \<Rightarrow> NodeID"
  GetGeometryIndexForEdgeID :: "nat \<Rightarrow> nat"
  GetDatasourceName :: "nat \<Rightarrow> string"
  UnpackEdgeToEdges :: "nat \<Rightarrow> NodeID \<Rightarrow> EdgeData list"

text \<open>
  Everything numeric that the file takes from elsewhere, over a type \<open>'d\<close> of doubles
  that is left open:
  \<^item> \<^verbatim>\<open>xyzToWGS84\<close> with the two \<^verbatim>\<open>Coordinate\<close> constructions that follow it, and
    \<^verbatim>\<open>xyzToMercator\<close> with the construction of the tile box;
  \<^item> \<^verbatim>\<open>bearing\<close> with its cast to \<^verbatim>\<open>uint64_t\<close>, and \<^verbatim>\<open>haversineDistance\<close>;
  \<^item> \<open>clip_projected\<close>: the projection of both end points to tile coordinates and
    \<^verbatim>\<open>boost::geometry::intersection\<close> with the clip box (the body of
    \<^verbatim>\<open>coordinatesToTileLine\<close> down to \<^verbatim>\<open>clipped_line\<close>);
  \<^item> \<open>project_point\<close>: the arithmetic of \<^verbatim>\<open>coordinatesToTilePoint\<close>;
  \<^item> the operations on doubles that the plugin itself applies: conversion from \<^verbatim>\<open>int\<close>,
    division, multiplication, \<^verbatim>\<open>round\<close>, the literal 3.6, and the conversions to
    \<^verbatim>\<open>std::int32_t\<close> and \<^verbatim>\<open>std::uint32_t\<close>;
  \<^item> \<^verbatim>\<open>util::vector_tile::BUFFER\<close>, the margin of the clip box;
  \<^item> \<open>bucket_rank\<close>: the order in which the standard library's hash table hands out the
    entries of \<^verbatim>\<open>c_nodes\<close>. C++ leaves that order open and it may depend on the whole
    table, so the rank of a key is a function of the table's content.
\<close>

record 'd util =
  xyzToWGS84 :: "nat \<Rightarrow> nat \<Rightarrow> nat \<Rightarrow> Coordinate \<times> Coordinate"
  xyzToMercator :: "nat \<Rightarrow> nat \<Rightarrow> nat \<Rightarrow> 'd BBox"
  bearing :: "Coordinate \<Rightarrow> Coordinate \<Rightarrow> 64 word"
  haversineDistance :: "Coordinate \<Rightarrow> Coordinate \<Rightarrow> 'd"
  clip_projected :: "Coordinate \<Rightarrow> Coordinate \<Rightarrow> 'd BBox \<Rightarrow> ('d \<times> 'd) list list"
  project_point :: "Coordinate \<Rightarrow> 'd BBox \<Rightarrow> FixedPoint"
  d_of_int :: "32 word \<Rightarrow> 'd"
  d_div :: "'d \<Rightarrow> 'd \<Rightarrow> 'd"
  d_mul :: "'d \<Rightarrow> 'd \<Rightarrow> 'd"
  d_round :: "'d \<Rightarrow> 'd"
  d_3_6 :: 'd
  d_to_int32 :: "'d \<Rightarrow> 32 word"
  d_to_uint32 :: "'d \<Rightarrow> 32 word"
  BUFFER :: int
  bucket_rank :: "(NodeID \<times> EdgeWeight) list \<Rightarrow> NodeID \<Rightarrow> nat"

text \<open>
  How a request ends without a status. A failed \<^verbatim>\<open>BOOST_ASSERT\<close> stops the process when
  assertions are compiled in, and is no code at all when they are not. A read of a
  \<^verbatim>\<open>std::vector\<close> out of range, or \<^verbatim>\<open>front()\<close> of an empty one, is not checked by the
  source and its behaviour is undefined: what happens depends on the memory behind the
  array. That memory is data of the model: for an array and an index at or after its end
  it gives the value that the read finds there, with which the run goes on, or nothing
  where the read ends the process (\<open>OutOfBounds\<close>).
\<close>

datatype fault = AssertionFailure | OutOfBounds

text \<open>\<^verbatim>\<open>engine::Status\<close>.\<close>

datatype Status = Ok | Error

record memory =
  weight_past_end :: "EdgeWeight list \<Rightarrow> nat \<Rightarrow> EdgeWeight option"
  datasource_past_end :: "8 word list \<Rightarrow> nat \<Rightarrow> 8 word option"
  node_past_end :: "NodeID list \<Rightarrow> nat \<Rightarrow> NodeID option"
  turn_data_past_end :: "TurnData list list \<Rightarrow> nat \<Rightarrow> TurnData list option"

text \<open>The unchecked \<^verbatim>\<open>operator[]\<close> of \<^verbatim>\<open>std::vector\<close>.\<close>

definition vec_at :: "('a list \<Rightarrow> nat \<Rightarrow> 'a option) \<Rightarrow> 'a list \<Rightarrow> nat \<Rightarrow> fault + 'a" where
  "vec_at past_end xs i =
     (if i < length xs then Inr (xs ! i)
      else case past_end xs i of None \<Rightarrow> Inl OutOfBounds | Some stray \<Rightarrow> Inr stray)"

text \<open>Subtraction of \<^verbatim>\<open>std::size_t\<close> values (64 bits) wraps around.\<close>

definition size_t_sub :: "nat \<Rightarrow> nat \<Rightarrow> nat" where
  "size_t_sub a b = nat ((int a - int b) mod 2 ^ 64)"

subsection \<open>The interning tables\<close>

text \<open>
  The variables of \<^verbatim>\<open>HandleRequest\<close> that the tally pass fills: the two tables, each a
  vector with a hash map from value to offset, the largest datasource id, and one list
  of turn records for each edge.
\<close>

record tally_state =
  used_line_ints :: "EdgeWeight list"
  line_int_offsets :: "EdgeWeight \<rightharpoonup> nat"
  max_datasource_id :: "8 word"
  used_point_ints :: "EdgeWeight list"
  point_int_offsets :: "EdgeWeight \<rightharpoonup> nat"
  all_turn_data :: "TurnData list list"

definition initial_state :: tally_state where
  "initial_state = \<lparr>used_line_ints = [], line_int_offsets = Map.empty, max_datasource_id = 0,
     used_point_ints = [], point_int_offsets = Map.empty, all_turn_data = []\<rparr>"

text \<open>The lambda \<^verbatim>\<open>use_line_value\<close> returns nothing; the offset is read from the map later.\<close>

definition use_line_value :: "EdgeWeight \<Rightarrow> tally_state \<Rightarrow> tally_state" where
  "use_line_value val st =
     (case line_int_offsets st val of
        None \<Rightarrow>
          (let ints = used_line_ints st @ [val]
           in st\<lparr>used_line_ints := ints,
                 line_int_offsets := (line_int_offsets st)(val \<mapsto> length ints - 1)\<rparr>)
      | Some found \<Rightarrow> st)"

definition use_point_value :: "EdgeWeight \<Rightarrow> tally_state \<Rightarrow> nat \<times> tally_state" where
  "use_point_value val st =
     (case point_int_offsets st val of
        None \<Rightarrow>
          (let ints = used_point_ints st @ [val];
               offset = length ints - 1
           in (offset, st\<lparr>used_point_ints := ints,
                          point_int_offsets := (point_int_offsets st)(val \<mapsto> offset)\<rparr>))
      | Some found \<Rightarrow> (found, st))"

text \<open>Reading \<^verbatim>\<open>line_int_offsets[value]\<close>: a missing key is inserted with offset 0.\<close>

definition line_offset_lookup :: "EdgeWeight \<Rightarrow> tally_state \<Rightarrow> nat \<times> tally_state" where
  "line_offset_lookup val st =
     (case line_int_offsets st val of
        None \<Rightarrow> (0, st\<lparr>line_int_offsets := (line_int_offsets st)(val \<mapsto> 0)\<rparr>)
      | Some found \<Rightarrow> (found, st))"


subsection \<open>Geometry\<close>

text \<open>
  \<^verbatim>\<open>protozero::encode_zigzag32\<close>: \<^verbatim>\<open>(v << 1) ^ (v >> 31)\<close>, the right shift an arithmetic one.
\<close>

definition encode_zigzag32 :: "32 word \<Rightarrow> 32 word" where
  "encode_zigzag32 x = push_bit 1 x XOR signed_drop_bit 31 x"

definition encode_length :: "32 word \<Rightarrow> 32 word" where
  "encode_length len = push_bit 3 len OR 2"

text \<open>The loop of \<^verbatim>\<open>encodeLinestring\<close> over the points after the first.\<close>

fun encode_line_to :: "FixedLine \<Rightarrow> 32 word \<Rightarrow> 32 word \<Rightarrow> 32 word list \<times> 32 word \<times> 32 word" where
  "encode_line_to [] start_x start_y = ([], start_x, start_y)"
| "encode_line_to (pt # pts) start_x start_y =
     (let dx = fst pt - start_x;
          dy = snd pt - start_y;
          (geometry, end_x, end_y) = encode_line_to pts (fst pt) (snd pt)
      in (encode_zigzag32 dx # encode_zigzag32 dy # geometry, end_x, end_y))"

text \<open>
  \<^verbatim>\<open>encodeLinestring\<close> returns its result, the elements added to the packed field, and
  the two cursor coordinates.
\<close>

definition encodeLinestring ::
  "FixedLine \<Rightarrow> 32 word \<Rightarrow> 32 word \<Rightarrow> bool \<times> 32 word list \<times> 32 word \<times> 32 word" where
  "encodeLinestring line start_x start_y =
     (case line of
        [] \<Rightarrow> (False, [], start_x, start_y)
      | pt # pts \<Rightarrow>
          if length line < 2 then (False, [], start_x, start_y)
          else
            (let line_to_length = word_of_nat (length line) - 1;
                 (geometry, end_x, end_y) = encode_line_to pts (fst pt) (snd pt)
             in (True,
                 [9, encode_zigzag32 (fst pt - start_x), encode_zigzag32 (snd pt - start_y),
                  encode_length line_to_length] @ geometry,
                 end_x, end_y)))"

definition encodePoint :: "FixedPoint \<Rightarrow> 32 word list" where
  "encodePoint pt = [9, encode_zigzag32 (fst pt), encode_zigzag32 (snd pt)]"

definition coordinatesToTileLine ::
  "'d util \<Rightarrow> Coordinate \<Rightarrow> Coordinate \<Rightarrow> 'd BBox \<Rightarrow> FixedLine" where
  "coordinatesToTileLine ut start target tile_bbox =
     (case clip_projected ut start target tile_bbox of
        [] \<Rightarrow> []
      | first_part # other_parts \<Rightarrow>
          if length first_part = 2
          then map (\<lambda>p. (d_to_int32 ut (fst p), d_to_int32 ut (snd p))) first_part
          else [])"

definition coordinatesToTilePoint :: "'d util \<Rightarrow> Coordinate \<Rightarrow> 'd BBox \<Rightarrow> FixedPoint" where
  "coordinatesToTilePoint ut point tile_bbox = project_point ut point tile_bbox"

text \<open>
  Modelled from the spec: \<^verbatim>\<open>util::vector_tile::EXTENT\<close> is 4096, and the test
  \<^verbatim>\<open>boost::geometry::within\<close> of a point against \<^verbatim>\<open>clip_box\<close> is strict membership in
  the box from \<open>- BUFFER\<close> to \<open>EXTENT + BUFFER\<close> on both axes.
\<close>

definition EXTENT :: nat where
  "EXTENT = 4096"

definition within_clip_box :: "'d util \<Rightarrow> FixedPoint \<Rightarrow> bool" where
  "within_clip_box ut p \<longleftrightarrow>
     - BUFFER ut < sint (fst p) \<and> sint (fst p) < int EXTENT + BUFFER ut \<and>
     - BUFFER ut < sint (snd p) \<and> sint (snd p) < int EXTENT + BUFFER ut"

subsection \<open>The written tile\<close>

text \<open>
  What the \<^verbatim>\<open>protozero\<close> writers put into the buffer, as the tree of fields that the
  bytes encode: every field with its tag, a nested writer as a message holding the
  fields written through it.
\<close>

datatype 'd pbf =
    PUInt32 nat "32 word"
  | PUInt64 nat "64 word"
  | PEnum nat nat
  | PBool nat bool
  | PString nat string
  | PDouble nat 'd
  | PPacked nat "32 word list"
  | PMsg nat "'d pbf list"

text \<open>A packed field to which no element was added is rolled back: nothing is written.\<close>

definition packed_field :: "nat \<Rightarrow> 32 word list \<Rightarrow> 'd pbf list" where
  "packed_field tag elements = (if elements = [] then [] else [PPacked tag elements])"

text \<open>
  Modelled from the spec: the tag numbers of \<^verbatim>\<open>util/vector_tile.hpp\<close>, which follow the
  vector tile schema 2.1 (layer 3 in a tile; in a layer name 1, features 2, keys 3,
  values 4, extent 5, version 15; in a feature id 1, tags 2, type 3, geometry 4; in a
  value string 1, double 3, uint64 5, bool 7; point 1 and line 2 as geometry types).
\<close>

definition LAYER_TAG :: nat where "LAYER_TAG = 3"
definition NAME_TAG :: nat where "NAME_TAG = 1"
definition FEATURE_TAG :: nat where "FEATURE_TAG = 2"
definition KEY_TAG :: nat where "KEY_TAG = 3"
definition VARIANT_TAG :: nat where "VARIANT_TAG = 4"
definition EXTENT_TAG :: nat where "EXTENT_TAG = 5"
definition VERSION_TAG :: nat where "VERSION_TAG = 15"
definition ID_TAG :: nat where "ID_TAG = 1"
definition FEATURE_ATTRIBUTES_TAG :: nat where "FEATURE_ATTRIBUTES_TAG = 2"
definition GEOMETRY_TAG :: nat where "GEOMETRY_TAG = 3"
definition FEATURE_GEOMETRIES_TAG :: nat where "FEATURE_GEOMETRIES_TAG = 4"
definition VARIANT_TYPE_STRING :: nat where "VARIANT_TYPE_STRING = 1"
definition VARIANT_TYPE_DOUBLE :: nat where "VARIANT_TYPE_DOUBLE = 3"
definition VARIANT_TYPE_UINT64 :: nat where "VARIANT_TYPE_UINT64 = 5"
definition VARIANT_TYPE_BOOL :: nat where "VARIANT_TYPE_BOOL = 7"
definition GEOMETRY_TYPE_POINT :: nat where "GEOMETRY_TYPE_POINT = 1"
definition GEOMETRY_TYPE_LINE :: nat where "GEOMETRY_TYPE_LINE = 2"


subsection \<open>The tally pass\<close>

text \<open>\<^verbatim>\<open>edge.fwd_segment_position == forward_node_vector.size() - 1\<close>, compared as \<^verbatim>\<open>std::size_t\<close>.\<close>

definition is_last_segment :: "16 word \<Rightarrow> nat \<Rightarrow> bool" where
  "is_last_segment pos n \<longleftrightarrow> unat pos = size_t_sub n 1"

text \<open>The index \<^verbatim>\<open>vec.size() - edge.fwd_segment_position - 1\<close> of the reverse arrays.\<close>

definition reverse_index :: "nat \<Rightarrow> 16 word \<Rightarrow> nat" where
  "reverse_index n pos = size_t_sub (size_t_sub n (unat pos)) 1"

text \<open>
  \<^verbatim>\<open>c_nodes.emplace(key, value)\<close> on the \<^verbatim>\<open>std::unordered_map\<close>: a key that is present keeps
  its value. The table is the list of its entries in the order of their insertion.
\<close>

definition emplace :: "'k \<Rightarrow> 'v \<Rightarrow> ('k \<times> 'v) list \<Rightarrow> ('k \<times> 'v) list" where
  "emplace k val m = (case map_of m k of None \<Rightarrow> m @ [(k, val)] | Some present \<Rightarrow> m)"

text \<open>The loop over the adjacent shortcuts that fills \<^verbatim>\<open>c_nodes\<close>.\<close>

fun collect_c_nodes ::
  "memory \<Rightarrow> facade \<Rightarrow> Edge \<Rightarrow> EdgeWeight \<Rightarrow> EdgeID list \<Rightarrow> (NodeID \<times> EdgeWeight) list
    \<Rightarrow> fault + (NodeID \<times> EdgeWeight) list" where
  "collect_c_nodes mem fac edge sum_node_weight [] c_nodes = Inr c_nodes"
| "collect_c_nodes mem fac edge sum_node_weight (adj_shortcut # rest) c_nodes =
     (if \<not> forward (GetEdgeData fac adj_shortcut)
      then collect_c_nodes mem fac edge sum_node_weight rest c_nodes
      else
        (let unpacked_shortcut =
               UnpackEdgeToEdges fac (seg_id (forward_segment_id edge)) (GetTarget fac adj_shortcut)
         in if length unpacked_shortcut < 2
            then collect_c_nodes mem fac edge sum_node_weight rest c_nodes
            else
              (let first_geometry_id = GetGeometryIndexForEdgeID fac (edge_id (unpacked_shortcut ! 1));
                   first_geometry_vector = GetUncompressedGeometry fac first_geometry_id;
                   sum_edge_weight = distance (unpacked_shortcut ! 0);
                   turn_weight = sum_edge_weight - sum_node_weight
               in case vec_at (node_past_end mem) first_geometry_vector 0 of
                    Inl e \<Rightarrow> Inl e
                  | Inr front \<Rightarrow>
                      collect_c_nodes mem fac edge sum_node_weight rest
                        (emplace front turn_weight c_nodes))))"

text \<open>The entries of \<^verbatim>\<open>c_nodes\<close> in the order in which the range-based loop visits them.\<close>

definition c_nodes_iteration :: "'d util \<Rightarrow> (NodeID \<times> EdgeWeight) list \<Rightarrow> (NodeID \<times> EdgeWeight) list" where
  "c_nodes_iteration ut c_nodes = sort_key (\<lambda>entry. bucket_rank ut c_nodes (fst entry)) c_nodes"

text \<open>The loop over \<^verbatim>\<open>c_nodes\<close> that appends to \<^verbatim>\<open>edge_turn_data\<close>.\<close>

fun turn_records ::
  "facade \<Rightarrow> 'd util \<Rightarrow> Coordinate \<Rightarrow> nat \<Rightarrow> (NodeID \<times> EdgeWeight) list \<Rightarrow> tally_state
    \<Rightarrow> TurnData list \<times> tally_state" where
  "turn_records fac ut coord_b angle_in_offset [] st = ([], st)"
| "turn_records fac ut coord_b angle_in_offset (possible_next_node # rest) st =
     (let coord_c = GetCoordinateOfNode fac (fst possible_next_node);
          c_bearing = bearing ut coord_b coord_c;
          (angle_out_offset, st1) = use_point_value (ucast c_bearing) st;
          (angle_weight_offset, st2) = use_point_value (snd possible_next_node) st1;
          (edge_turn_data, st3) = turn_records fac ut coord_b angle_in_offset rest st2
      in (\<lparr>in_angle_offset = angle_in_offset, out_angle_offset = angle_out_offset,
            weight_offset = angle_weight_offset\<rparr> # edge_turn_data, st3))"

text \<open>
  The body of \<^verbatim>\<open>if (edge.fwd_segment_position == forward_node_vector.size() - 1)\<close>: the
  turns that leave the intersection at the end of the edge.
\<close>

definition reconstruct_turns ::
  "memory \<Rightarrow> facade \<Rightarrow> 'd util \<Rightarrow> Edge \<Rightarrow> EdgeWeight list \<Rightarrow> NodeID list \<Rightarrow> tally_state
    \<Rightarrow> fault + TurnData list \<times> tally_state" where
  "reconstruct_turns mem fac ut edge forward_weight_vector forward_node_vector st =
     (let sum_node_weight = foldl (+) 0 forward_weight_vector;
          coord_a = GetCoordinateOfNode fac
            (if length forward_node_vector > 1
             then forward_node_vector ! (length forward_node_vector - 2)
             else edge_u edge);
          coord_b = GetCoordinateOfNode fac (edge_v edge)
      in case collect_c_nodes mem fac edge sum_node_weight
                (GetAdjacentEdgeRange fac (seg_id (forward_segment_id edge))) [] of
           Inl e \<Rightarrow> Inl e
         | Inr c_nodes \<Rightarrow>
             (let angle_in = bearing ut coord_a coord_b
              in if length c_nodes > 0
                 then
                   (let (angle_in_offset, st1) = use_point_value (ucast angle_in) st
                    in Inr (turn_records fac ut coord_b angle_in_offset
                              (c_nodes_iteration ut c_nodes) st1))
                 else Inr ([], st)))"

text \<open>The forward block of the tally loop: the datasource, the turn records, the tables.\<close>

definition tally_forward ::
  "memory \<Rightarrow> facade \<Rightarrow> 'd util \<Rightarrow> Edge \<Rightarrow> tally_state \<Rightarrow> fault + 8 word \<times> TurnData list \<times> tally_state" where
  "tally_forward mem fac ut edge st =
     (if forward_packed_geometry_id edge \<noteq> SPECIAL_EDGEID
      then
        (let forward_weight_vector = GetUncompressedWeights fac (forward_packed_geometry_id edge)
         in case vec_at (weight_past_end mem) forward_weight_vector
                   (unat (fwd_segment_position edge)) of
              Inl e \<Rightarrow> Inl e
            | Inr forward_weight \<Rightarrow>
                (let forward_datasource_vector =
                       GetUncompressedDatasources fac (forward_packed_geometry_id edge)
                 in case vec_at (datasource_past_end mem) forward_datasource_vector
                           (unat (fwd_segment_position edge)) of
                      Inl e \<Rightarrow> Inl e
                    | Inr forward_datasource \<Rightarrow>
                        (let st1 = use_line_value forward_weight st;
                             forward_node_vector =
                               GetUncompressedGeometry fac (forward_packed_geometry_id edge)
                         in if is_last_segment (fwd_segment_position edge) (length forward_node_vector)
                            then
                              (case reconstruct_turns mem fac ut edge forward_weight_vector
                                      forward_node_vector st1 of
                                 Inl e \<Rightarrow> Inl e
                               | Inr (edge_turn_data, st2) \<Rightarrow>
                                   Inr (forward_datasource, edge_turn_data, st2))
                            else Inr (forward_datasource, [], st1))))
      else Inr (0, [], st))"

text \<open>The reverse block of the tally loop. \<open>dbg\<close> says whether assertions are compiled in.\<close>

definition tally_reverse ::
  "bool \<Rightarrow> memory \<Rightarrow> facade \<Rightarrow> Edge \<Rightarrow> tally_state \<Rightarrow> fault + 8 word \<times> tally_state" where
  "tally_reverse dbg mem fac edge st =
     (if reverse_packed_geometry_id edge \<noteq> SPECIAL_EDGEID
      then
        (let reverse_weight_vector = GetUncompressedWeights fac (reverse_packed_geometry_id edge)
         in if dbg \<and> \<not> unat (fwd_segment_position edge) < length reverse_weight_vector
            then Inl AssertionFailure
            else
              (case vec_at (weight_past_end mem) reverse_weight_vector
                      (reverse_index (length reverse_weight_vector) (fwd_segment_position edge)) of
                 Inl e \<Rightarrow> Inl e
               | Inr reverse_weight \<Rightarrow>
                   (let st1 = use_line_value reverse_weight st;
                        reverse_datasource_vector =
                          GetUncompressedDatasources fac (reverse_packed_geometry_id edge)
                    in case vec_at (datasource_past_end mem) reverse_datasource_vector
                              (reverse_index (length reverse_datasource_vector)
                                 (fwd_segment_position edge)) of
                         Inl e \<Rightarrow> Inl e
                       | Inr reverse_datasource \<Rightarrow> Inr (reverse_datasource, st1))))
      else Inr (0, st))"

definition tally_edge :: "bool \<Rightarrow> memory \<Rightarrow> facade \<Rightarrow> 'd util \<Rightarrow> Edge \<Rightarrow> tally_state \<Rightarrow> fault + tally_state" where
  "tally_edge dbg mem fac ut edge st =
     (case tally_forward mem fac ut edge st of
        Inl e \<Rightarrow> Inl e
      | Inr (forward_datasource, edge_turn_data, st1) \<Rightarrow>
          (case tally_reverse dbg mem fac edge st1 of
             Inl e \<Rightarrow> Inl e
           | Inr (reverse_datasource, st2) \<Rightarrow>
               Inr (st2\<lparr>max_datasource_id :=
                          max (max (max_datasource_id st2) forward_datasource) reverse_datasource,
                        all_turn_data := all_turn_data st2 @ [edge_turn_data]\<rparr>)))"

fun tally_pass :: "bool \<Rightarrow> memory \<Rightarrow> facade \<Rightarrow> 'd util \<Rightarrow> Edge list \<Rightarrow> tally_state \<Rightarrow> fault + tally_state" where
  "tally_pass dbg mem fac ut [] st = Inr st"
| "tally_pass dbg mem fac ut (edge # edges) st =
     (case tally_edge dbg mem fac ut edge st of
        Inl e \<Rightarrow> Inl e
      | Inr st1 \<Rightarrow> tally_pass dbg mem fac ut edges st1)"


subsection \<open>The line layer\<close>

text \<open>The forward and the reverse block of the second loop read the same arrays again.\<close>

definition read_forward :: "memory \<Rightarrow> facade \<Rightarrow> Edge \<Rightarrow> fault + EdgeWeight \<times> 8 word" where
  "read_forward mem fac edge =
     (if forward_packed_geometry_id edge \<noteq> SPECIAL_EDGEID
      then
        (case vec_at (weight_past_end mem)
                (GetUncompressedWeights fac (forward_packed_geometry_id edge))
                (unat (fwd_segment_position edge)) of
           Inl e \<Rightarrow> Inl e
         | Inr forward_weight \<Rightarrow>
             (case vec_at (datasource_past_end mem)
                     (GetUncompressedDatasources fac (forward_packed_geometry_id edge))
                     (unat (fwd_segment_position edge)) of
                Inl e \<Rightarrow> Inl e
              | Inr forward_datasource \<Rightarrow> Inr (forward_weight, forward_datasource)))
      else Inr (0, 0))"

definition read_reverse :: "bool \<Rightarrow> memory \<Rightarrow> facade \<Rightarrow> Edge \<Rightarrow> fault + EdgeWeight \<times> 8 word" where
  "read_reverse dbg mem fac edge =
     (if reverse_packed_geometry_id edge \<noteq> SPECIAL_EDGEID
      then
        (let reverse_weight_vector = GetUncompressedWeights fac (reverse_packed_geometry_id edge)
         in if dbg \<and> \<not> unat (fwd_segment_position edge) < length reverse_weight_vector
            then Inl AssertionFailure
            else
              (case vec_at (weight_past_end mem) reverse_weight_vector
                      (reverse_index (length reverse_weight_vector) (fwd_segment_position edge)) of
                 Inl e \<Rightarrow> Inl e
               | Inr reverse_weight \<Rightarrow>
                   (let reverse_datasource_vector =
                          GetUncompressedDatasources fac (reverse_packed_geometry_id edge)
                    in case vec_at (datasource_past_end mem) reverse_datasource_vector
                              (reverse_index (length reverse_datasource_vector)
                                 (fwd_segment_position edge)) of
                         Inl e \<Rightarrow> Inl e
                       | Inr reverse_datasource \<Rightarrow> Inr (reverse_weight, reverse_datasource))))
      else Inr (0, 0))"

text \<open>\<^verbatim>\<open>static_cast<std::uint32_t>(round(length / weight * 10 * 3.6))\<close>.\<close>

definition speed_kmh_of :: "'d util \<Rightarrow> 'd \<Rightarrow> EdgeWeight \<Rightarrow> 32 word" where
  "speed_kmh_of ut len weight =
     d_to_uint32 ut
       (d_round ut
          (d_mul ut (d_mul ut (d_div ut len (d_of_int ut weight)) (d_of_int ut 10)) (d_3_6 ut)))"

text \<open>
  The attribute pairs of a line feature. The elements of a packed field are
  \<^verbatim>\<open>std::uint32_t\<close>: the last sum is computed in \<^verbatim>\<open>std::size_t\<close> and cut to 32 bits.
\<close>

definition line_tags :: "Edge \<Rightarrow> 8 word \<Rightarrow> 32 word \<Rightarrow> nat \<Rightarrow> 8 word \<Rightarrow> 32 word list" where
  "line_tags edge max_ds speed_kmh duration datasource =
     [0, min speed_kmh 127,
      1, 128 + (if is_tiny edge then 0 else 1),
      2, 130 + ucast datasource,
      3, word_of_nat (130 + unat max_ds + 1 + duration)]"

text \<open>The lambda \<^verbatim>\<open>encode_tile_line\<close>: the feature it writes; the caller's \<^verbatim>\<open>id\<close> grows by one.\<close>

definition encode_tile_line ::
  "Edge \<Rightarrow> 8 word \<Rightarrow> 32 word \<Rightarrow> FixedLine \<Rightarrow> 32 word \<Rightarrow> nat \<Rightarrow> 8 word \<Rightarrow> 32 word \<Rightarrow> 32 word
    \<Rightarrow> 'd pbf" where
  "encode_tile_line edge max_ds feature_id tile_line speed_kmh duration datasource start_x start_y =
     PMsg FEATURE_TAG
       ([PEnum GEOMETRY_TAG GEOMETRY_TYPE_LINE, PUInt64 ID_TAG (ucast feature_id)]
        @ packed_field FEATURE_ATTRIBUTES_TAG (line_tags edge max_ds speed_kmh duration datasource)
        @ packed_field FEATURE_GEOMETRIES_TAG
            (fst (snd (encodeLinestring tile_line start_x start_y))))"

text \<open>
  One of the two blocks \<^verbatim>\<open>if (weight != 0 && segment_id.enabled)\<close>, from \<open>start\<close> to
  \<open>target\<close>. The state is the feature id and the variables of the tally pass.
\<close>

definition emit_direction ::
  "'d util \<Rightarrow> 'd BBox \<Rightarrow> Edge \<Rightarrow> Coordinate \<Rightarrow> Coordinate \<Rightarrow> 'd \<Rightarrow> EdgeWeight \<Rightarrow> bool \<Rightarrow> 8 word
    \<Rightarrow> 32 word \<times> tally_state \<Rightarrow> 'd pbf list \<times> 32 word \<times> tally_state" where
  "emit_direction ut tile_bbox edge start target len weight is_enabled datasource s =
     (if weight \<noteq> 0 \<and> is_enabled
      then
        (let speed_kmh = speed_kmh_of ut len weight;
             tile_line = coordinatesToTileLine ut start target tile_bbox
         in if tile_line \<noteq> []
            then
              (let (duration, st1) = line_offset_lookup weight (snd s)
               in ([encode_tile_line edge (max_datasource_id st1) (fst s) tile_line speed_kmh
                      duration datasource 0 0],
                   fst s + 1, st1))
            else ([], s))
      else ([], s))"

definition line_edge ::
  "bool \<Rightarrow> memory \<Rightarrow> facade \<Rightarrow> 'd util \<Rightarrow> 'd BBox \<Rightarrow> Edge \<Rightarrow> 32 word \<times> tally_state
    \<Rightarrow> fault + 'd pbf list \<times> 32 word \<times> tally_state" where
  "line_edge dbg mem fac ut tile_bbox edge s =
     (let a = GetCoordinateOfNode fac (edge_u edge);
          b = GetCoordinateOfNode fac (edge_v edge);
          len = haversineDistance ut a b
      in case read_forward mem fac edge of
           Inl e \<Rightarrow> Inl e
         | Inr (forward_weight, forward_datasource) \<Rightarrow>
             (case read_reverse dbg mem fac edge of
                Inl e \<Rightarrow> Inl e
              | Inr (reverse_weight, reverse_datasource) \<Rightarrow>
                  (let st1 = (snd s)\<lparr>max_datasource_id :=
                         max (max (max_datasource_id (snd s)) forward_datasource) reverse_datasource\<rparr>;
                       (forward_features, s2) =
                         emit_direction ut tile_bbox edge a b len forward_weight
                           (enabled (forward_segment_id edge)) forward_datasource (fst s, st1);
                       (reverse_features, s3) =
                         emit_direction ut tile_bbox edge b a len reverse_weight
                           (enabled (reverse_segment_id edge)) reverse_datasource s2
                   in Inr (forward_features @ reverse_features, s3))))"

fun line_features ::
  "bool \<Rightarrow> memory \<Rightarrow> facade \<Rightarrow> 'd util \<Rightarrow> 'd BBox \<Rightarrow> Edge list \<Rightarrow> 32 word \<times> tally_state
    \<Rightarrow> fault + 'd pbf list \<times> 32 word \<times> tally_state" where
  "line_features dbg mem fac ut tile_bbox [] s = Inr ([], s)"
| "line_features dbg mem fac ut tile_bbox (edge # edges) s =
     (case line_edge dbg mem fac ut tile_bbox edge s of
        Inl e \<Rightarrow> Inl e
      | Inr (features, s1) \<Rightarrow>
          (case line_features dbg mem fac ut tile_bbox edges s1 of
             Inl e \<Rightarrow> Inl e
           | Inr (more_features, s2) \<Rightarrow> Inr (features @ more_features, s2)))"

definition line_keys :: "'d pbf list" where
  "line_keys = [PString KEY_TAG ''speed'', PString KEY_TAG ''is_small'',
                PString KEY_TAG ''datasource'', PString KEY_TAG ''duration'']"

text \<open>The four loops and blocks that write the values of the line layer.\<close>

definition line_values :: "facade \<Rightarrow> 'd util \<Rightarrow> tally_state \<Rightarrow> 'd pbf list" where
  "line_values fac ut st =
     map (\<lambda>i. PMsg VARIANT_TAG [PUInt64 VARIANT_TYPE_UINT64 (word_of_nat i)]) [0..<128]
     @ [PMsg VARIANT_TAG [PBool VARIANT_TYPE_BOOL True]]
     @ [PMsg VARIANT_TAG [PBool VARIANT_TYPE_BOOL False]]
     @ map (\<lambda>i. PMsg VARIANT_TAG [PString VARIANT_TYPE_STRING (GetDatasourceName fac i)])
         [0..<Suc (unat (max_datasource_id st))]
     @ map (\<lambda>val. PMsg VARIANT_TAG
                     [PDouble VARIANT_TYPE_DOUBLE (d_div ut (d_of_int ut val) (d_of_int ut 10))])
         (used_line_ints st)"

definition line_layer ::
  "bool \<Rightarrow> memory \<Rightarrow> facade \<Rightarrow> 'd util \<Rightarrow> 'd BBox \<Rightarrow> Edge list \<Rightarrow> tally_state \<Rightarrow> fault + 'd pbf \<times> tally_state" where
  "line_layer dbg mem fac ut tile_bbox edges st =
     (case line_features dbg mem fac ut tile_bbox edges (1, st) of
        Inl e \<Rightarrow> Inl e
      | Inr (features, s1) \<Rightarrow>
          Inr (PMsg LAYER_TAG
                 ([PUInt32 VERSION_TAG 2, PString NAME_TAG ''speeds'',
                   PUInt32 EXTENT_TAG (word_of_nat EXTENT)]
                  @ features @ line_keys @ line_values fac ut (snd s1)),
               snd s1))"

subsection \<open>The point layer\<close>

definition point_tags :: "TurnData \<Rightarrow> 32 word list" where
  "point_tags point_turn_data =
     [0, word_of_nat (in_angle_offset point_turn_data),
      1, word_of_nat (out_angle_offset point_turn_data),
      2, word_of_nat (weight_offset point_turn_data)]"

definition encode_tile_point :: "32 word \<Rightarrow> FixedPoint \<Rightarrow> TurnData \<Rightarrow> 'd pbf" where
  "encode_tile_point feature_id tile_point point_turn_data =
     PMsg FEATURE_TAG
       ([PEnum GEOMETRY_TAG GEOMETRY_TYPE_POINT, PUInt64 ID_TAG (ucast feature_id)]
        @ packed_field FEATURE_ATTRIBUTES_TAG (point_tags point_turn_data)
        @ packed_field FEATURE_GEOMETRIES_TAG (encodePoint tile_point))"

text \<open>The loop \<^verbatim>\<open>for (const auto &individual_turn : edge_turn_data)\<close>.\<close>

fun encode_turns :: "FixedPoint \<Rightarrow> TurnData list \<Rightarrow> 32 word \<Rightarrow> 'd pbf list \<times> 32 word" where
  "encode_turns tile_point [] feature_id = ([], feature_id)"
| "encode_turns tile_point (individual_turn # turns) feature_id =
     (let (features, next_id) = encode_turns tile_point turns (feature_id + 1)
      in (encode_tile_point feature_id tile_point individual_turn # features, next_id))"

text \<open>The body of the loop over the edges, with its three \<^verbatim>\<open>continue\<close> statements.\<close>

definition point_edge ::
  "facade \<Rightarrow> 'd util \<Rightarrow> 'd BBox \<Rightarrow> Edge \<Rightarrow> TurnData list \<Rightarrow> 32 word \<Rightarrow> 'd pbf list \<times> 32 word" where
  "point_edge fac ut tile_bbox edge edge_turn_data feature_id =
     (if edge_turn_data = [] then ([], feature_id)
      else
        (let forward_node_vector = GetUncompressedGeometry fac (forward_packed_geometry_id edge)
         in if \<not> is_last_segment (fwd_segment_position edge) (length forward_node_vector)
            then ([], feature_id)
            else
              (let turn_coordinate = GetCoordinateOfNode fac (edge_v edge);
                   tile_point = coordinatesToTilePoint ut turn_coordinate tile_bbox
               in if \<not> within_clip_box ut tile_point then ([], feature_id)
                  else encode_turns tile_point edge_turn_data feature_id)))"

text \<open>
  The loop \<^verbatim>\<open>for (uint64_t i = 0; i < edges.size(); i++)\<close>, on the edges from index \<open>i\<close>
  on; \<^verbatim>\<open>all_turn_data[i]\<close> is read by index.
\<close>

fun point_features ::
  "memory \<Rightarrow> facade \<Rightarrow> 'd util \<Rightarrow> 'd BBox \<Rightarrow> TurnData list list \<Rightarrow> Edge list \<Rightarrow> nat \<Rightarrow> 32 word
    \<Rightarrow> fault + 'd pbf list" where
  "point_features mem fac ut tile_bbox turn_data [] i feature_id = Inr []"
| "point_features mem fac ut tile_bbox turn_data (edge # edges) i feature_id =
     (case vec_at (turn_data_past_end mem) turn_data i of
        Inl e \<Rightarrow> Inl e
      | Inr edge_turn_data \<Rightarrow>
          (let (features, next_id) = point_edge fac ut tile_bbox edge edge_turn_data feature_id
           in case point_features mem fac ut tile_bbox turn_data edges (Suc i) next_id of
                Inl e \<Rightarrow> Inl e
              | Inr more_features \<Rightarrow> Inr (features @ more_features)))"

definition point_keys :: "'d pbf list" where
  "point_keys = [PString KEY_TAG ''bearing_in'', PString KEY_TAG ''bearing_out'',
                 PString KEY_TAG ''weight'']"

text \<open>The \<^verbatim>\<open>int\<close> values go through \<^verbatim>\<open>add_uint64\<close>: they are sign extended.\<close>

definition point_values :: "tally_state \<Rightarrow> 'd pbf list" where
  "point_values st =
     map (\<lambda>val. PMsg VARIANT_TAG [PUInt64 VARIANT_TYPE_UINT64 (scast val)]) (used_point_ints st)"

definition point_layer ::
  "memory \<Rightarrow> facade \<Rightarrow> 'd util \<Rightarrow> 'd BBox \<Rightarrow> Edge list \<Rightarrow> tally_state \<Rightarrow> fault + 'd pbf" where
  "point_layer mem fac ut tile_bbox edges st =
     (case point_features mem fac ut tile_bbox (all_turn_data st) edges 0 1 of
        Inl e \<Rightarrow> Inl e
      | Inr features \<Rightarrow>
          Inr (PMsg LAYER_TAG
                 ([PUInt32 VERSION_TAG 2, PString NAME_TAG ''turns'',
                   PUInt32 EXTENT_TAG (word_of_nat EXTENT)]
                  @ features @ point_keys @ point_values st)))"

subsection \<open>The request\<close>

text \<open>
  Modelled from the spec: \<^verbatim>\<open>api::TileParameters::IsValid\<close>, which is not in the file: a
  request is valid when x and y are in the range from 0 up to, and without, \<open>2 ^ z\<close>.
\<close>

definition IsValid :: "TileParameters \<Rightarrow> bool" where
  "IsValid parameters \<longleftrightarrow>
     tile_x parameters < 2 ^ tile_z parameters \<and> tile_y parameters < 2 ^ tile_z parameters"

text \<open>Everything after the assertion on the parameters.\<close>

definition process_request ::
  "bool \<Rightarrow> memory \<Rightarrow> facade \<Rightarrow> 'd util \<Rightarrow> TileParameters \<Rightarrow> fault + Status \<times> 'd pbf list" where
  "process_request dbg mem fac ut parameters =
     (let (southwest, northeast) =
            xyzToWGS84 ut (tile_x parameters) (tile_y parameters) (tile_z parameters);
          edges = GetEdgesInBox fac southwest northeast
      in case tally_pass dbg mem fac ut edges initial_state of
           Inl e \<Rightarrow> Inl e
         | Inr st \<Rightarrow>
             (let tile_bbox =
                    xyzToMercator ut (tile_x parameters) (tile_y parameters) (tile_z parameters)
              in case line_layer dbg mem fac ut tile_bbox edges st of
                   Inl e \<Rightarrow> Inl e
                 | Inr (speeds, st1) \<Rightarrow>
                     (case point_layer mem fac ut tile_bbox edges st1 of
                        Inl e \<Rightarrow> Inl e
                      | Inr turns \<Rightarrow> Inr (Ok, [speeds, turns]))))"

text \<open>
  \<^verbatim>\<open>TilePlugin::HandleRequest\<close>: the status it returns and the fields written to
  \<^verbatim>\<open>pbf_buffer\<close>, or the fault at which the run stops.
\<close>

definition HandleRequest ::
  "bool \<Rightarrow> memory \<Rightarrow> facade \<Rightarrow> 'd util \<Rightarrow> TileParameters \<Rightarrow> fault + Status \<times> 'd pbf list" where
  "HandleRequest dbg mem fac ut parameters =
     (if dbg \<and> \<not> IsValid parameters then Inl AssertionFailure
      else process_request dbg mem fac ut parameters)"

section \<open>Properties\<close>

subsection \<open>Predicates of the statements\<close>

text \<open>
  A table is in order when its map sends a value to an offset exactly if the vector holds
  that value at that offset.
\<close>

definition table_ok :: "'a list \<Rightarrow> ('a \<rightharpoonup> nat) \<Rightarrow> bool" where
  "table_ok ints offsets \<longleftrightarrow> (\<forall>val i. offsets val = Some i \<longleftrightarrow> i < length ints \<and> ints ! i = val)"

text \<open>The edges and the tile box of a request, as \<^verbatim>\<open>HandleRequest\<close> computes them.\<close>

definition request_edges :: "facade \<Rightarrow> 'd util \<Rightarrow> TileParameters \<Rightarrow> Edge list" where
  "request_edges fac ut parameters =
     GetEdgesInBox fac
       (fst (xyzToWGS84 ut (tile_x parameters) (tile_y parameters) (tile_z parameters)))
       (snd (xyzToWGS84 ut (tile_x parameters) (tile_y parameters) (tile_z parameters)))"

definition request_bbox :: "'d util \<Rightarrow> TileParameters \<Rightarrow> 'd BBox" where
  "request_bbox ut parameters =
     xyzToMercator ut (tile_x parameters) (tile_y parameters) (tile_z parameters)"

text \<open>
  The weight and the datasource of each direction of an edge: the entry of the facade's
  array at the segment position (counted from the end of the array for the reverse
  direction), and 0 where the direction has no geometry.
\<close>

definition forward_weight_of :: "facade \<Rightarrow> Edge \<Rightarrow> EdgeWeight" where
  "forward_weight_of fac edge =
     (if forward_packed_geometry_id edge \<noteq> SPECIAL_EDGEID
      then GetUncompressedWeights fac (forward_packed_geometry_id edge)
             ! unat (fwd_segment_position edge)
      else 0)"

definition forward_datasource_of :: "facade \<Rightarrow> Edge \<Rightarrow> 8 word" where
  "forward_datasource_of fac edge =
     (if forward_packed_geometry_id edge \<noteq> SPECIAL_EDGEID
      then GetUncompressedDatasources fac (forward_packed_geometry_id edge)
             ! unat (fwd_segment_position edge)
      else 0)"

definition reverse_weight_of :: "facade \<Rightarrow> Edge \<Rightarrow> EdgeWeight" where
  "reverse_weight_of fac edge =
     (if reverse_packed_geometry_id edge \<noteq> SPECIAL_EDGEID
      then GetUncompressedWeights fac (reverse_packed_geometry_id edge)
             ! reverse_index (length (GetUncompressedWeights fac (reverse_packed_geometry_id edge)))
                 (fwd_segment_position edge)
      else 0)"

definition reverse_datasource_of :: "facade \<Rightarrow> Edge \<Rightarrow> 8 word" where
  "reverse_datasource_of fac edge =
     (if reverse_packed_geometry_id edge \<noteq> SPECIAL_EDGEID
      then GetUncompressedDatasources fac (reverse_packed_geometry_id edge)
             ! reverse_index (length (GetUncompressedDatasources fac (reverse_packed_geometry_id edge)))
                 (fwd_segment_position edge)
      else 0)"

text \<open>The weights that the tally pass interns for an edge, in the order of the calls.\<close>

definition edge_line_weights :: "facade \<Rightarrow> Edge \<Rightarrow> EdgeWeight list" where
  "edge_line_weights fac edge =
     (if forward_packed_geometry_id edge \<noteq> SPECIAL_EDGEID then [forward_weight_of fac edge] else [])
     @ (if reverse_packed_geometry_id edge \<noteq> SPECIAL_EDGEID then [reverse_weight_of fac edge] else [])"

text \<open>
  The arrays of a direction are long enough when the direction has no geometry or the
  weight and the datasource array are both longer than the segment position.
\<close>

definition forward_arrays_ok :: "facade \<Rightarrow> Edge \<Rightarrow> bool" where
  "forward_arrays_ok fac edge \<longleftrightarrow>
     forward_packed_geometry_id edge = SPECIAL_EDGEID
     \<or> (unat (fwd_segment_position edge)
           < length (GetUncompressedWeights fac (forward_packed_geometry_id edge))
        \<and> unat (fwd_segment_position edge)
           < length (GetUncompressedDatasources fac (forward_packed_geometry_id edge)))"

definition reverse_arrays_ok :: "facade \<Rightarrow> Edge \<Rightarrow> bool" where
  "reverse_arrays_ok fac edge \<longleftrightarrow>
     reverse_packed_geometry_id edge = SPECIAL_EDGEID
     \<or> (unat (fwd_segment_position edge)
           < length (GetUncompressedWeights fac (reverse_packed_geometry_id edge))
        \<and> unat (fwd_segment_position edge)
           < length (GetUncompressedDatasources fac (reverse_packed_geometry_id edge)))"



text \<open>Reading the written tile back: the fields of a message, selected by tag.\<close>

fun fields_of :: "'d pbf \<Rightarrow> 'd pbf list" where
  "fields_of (PMsg tag content) = content"
| "fields_of other = []"

fun is_msg :: "nat \<Rightarrow> 'd pbf \<Rightarrow> bool" where
  "is_msg tag (PMsg t content) = (t = tag)"
| "is_msg tag other = False"

fun packed_elements :: "nat \<Rightarrow> 'd pbf \<Rightarrow> 32 word list" where
  "packed_elements tag (PPacked t elements) = (if t = tag then elements else [])"
| "packed_elements tag other = []"

fun uint32_values :: "nat \<Rightarrow> 'd pbf \<Rightarrow> 32 word list" where
  "uint32_values tag (PUInt32 t w) = (if t = tag then [w] else [])"
| "uint32_values tag other = []"

fun string_values :: "nat \<Rightarrow> 'd pbf \<Rightarrow> string list" where
  "string_values tag (PString t s) = (if t = tag then [s] else [])"
| "string_values tag other = []"

definition decoded_layers :: "'d pbf list \<Rightarrow> 'd pbf list" where
  "decoded_layers tile = filter (is_msg LAYER_TAG) tile"

definition layer_features :: "'d pbf \<Rightarrow> 'd pbf list" where
  "layer_features layer = filter (is_msg FEATURE_TAG) (fields_of layer)"

definition layer_values :: "'d pbf \<Rightarrow> 'd pbf list" where
  "layer_values layer = filter (is_msg VARIANT_TAG) (fields_of layer)"

definition layer_names :: "'d pbf \<Rightarrow> string list" where
  "layer_names layer = concat (map (string_values NAME_TAG) (fields_of layer))"

definition layer_versions :: "'d pbf \<Rightarrow> 32 word list" where
  "layer_versions layer = concat (map (uint32_values VERSION_TAG) (fields_of layer))"

definition layer_extents :: "'d pbf \<Rightarrow> 32 word list" where
  "layer_extents layer = concat (map (uint32_values EXTENT_TAG) (fields_of layer))"

definition feature_tags :: "'d pbf \<Rightarrow> 32 word list" where
  "feature_tags feature = concat (map (packed_elements FEATURE_ATTRIBUTES_TAG) (fields_of feature))"

definition feature_geometry :: "'d pbf \<Rightarrow> 32 word list" where
  "feature_geometry feature = concat (map (packed_elements FEATURE_GEOMETRIES_TAG) (fields_of feature))"

text \<open>The state after the forward block has interned its weight.\<close>

definition after_forward :: "facade \<Rightarrow> Edge \<Rightarrow> tally_state \<Rightarrow> tally_state" where
  "after_forward fac e st =
     (if forward_packed_geometry_id e \<noteq> SPECIAL_EDGEID
      then use_line_value (forward_weight_of fac e) st else st)"

text \<open>The line table as a pair, and one interning step on it.\<close>

definition intern_pair :: "'a \<Rightarrow> 'a list \<times> ('a \<rightharpoonup> nat) \<Rightarrow> 'a list \<times> ('a \<rightharpoonup> nat)" where
  "intern_pair val t =
     (case snd t val of None \<Rightarrow> (fst t @ [val], (snd t)(val \<mapsto> length (fst t))) | Some i \<Rightarrow> t)"

definition line_table :: "tally_state \<Rightarrow> EdgeWeight list \<times> (EdgeWeight \<rightharpoonup> nat)" where
  "line_table st = (used_line_ints st, line_int_offsets st)"

text \<open>The distinct elements of a list in the order of their first occurrence.\<close>

definition first_seen_order :: "'a list \<Rightarrow> 'a list" where
  "first_seen_order xs = rev (remdups (rev xs))"

text \<open>The place of the first occurrence of a value in a list.\<close>

definition offset_of :: "'a list \<Rightarrow> 'a \<Rightarrow> nat" where
  "offset_of xs x = length (takeWhile (\<lambda>y. y \<noteq> x) xs)"

text \<open>All weights that the tally pass interns, and all datasource ids that it sees.\<close>

definition interned_line_weights :: "facade \<Rightarrow> Edge list \<Rightarrow> EdgeWeight list" where
  "interned_line_weights fac edges = concat (map (edge_line_weights fac) edges)"

definition observed_datasources :: "facade \<Rightarrow> Edge list \<Rightarrow> 8 word list" where
  "observed_datasources fac edges =
     concat (map (\<lambda>edge. [forward_datasource_of fac edge, reverse_datasource_of fac edge]) edges)"

text \<open>
  What a direction of an edge contributes to the line layer, as the pair of the attribute
  pairs and the geometry of its feature: nothing, or one feature for the clipped line.
  \<open>len\<close> is the length of the edge.
\<close>

definition direction_view ::
  "'d util \<Rightarrow> 'd BBox \<Rightarrow> tally_state \<Rightarrow> Edge \<Rightarrow> Coordinate \<Rightarrow> Coordinate \<Rightarrow> 'd \<Rightarrow> EdgeWeight \<Rightarrow> bool
    \<Rightarrow> 8 word \<Rightarrow> (32 word list \<times> 32 word list) list" where
  "direction_view ut tile_bbox st edge start target len weight is_enabled datasource =
     (if weight \<noteq> 0 \<and> is_enabled \<and> coordinatesToTileLine ut start target tile_bbox \<noteq> []
      then [(line_tags edge (max_datasource_id st) (speed_kmh_of ut len weight)
               (the (line_int_offsets st weight)) datasource,
             fst (snd (encodeLinestring (coordinatesToTileLine ut start target tile_bbox) 0 0)))]
      else [])"

definition forward_view :: "facade \<Rightarrow> 'd util \<Rightarrow> 'd BBox \<Rightarrow> tally_state \<Rightarrow> Edge
    \<Rightarrow> (32 word list \<times> 32 word list) list" where
  "forward_view fac ut tile_bbox st edge =
     direction_view ut tile_bbox st edge
       (GetCoordinateOfNode fac (edge_u edge)) (GetCoordinateOfNode fac (edge_v edge))
       (haversineDistance ut (GetCoordinateOfNode fac (edge_u edge))
          (GetCoordinateOfNode fac (edge_v edge)))
       (forward_weight_of fac edge) (enabled (forward_segment_id edge))
       (forward_datasource_of fac edge)"

definition reverse_view :: "facade \<Rightarrow> 'd util \<Rightarrow> 'd BBox \<Rightarrow> tally_state \<Rightarrow> Edge
    \<Rightarrow> (32 word list \<times> 32 word list) list" where
  "reverse_view fac ut tile_bbox st edge =
     direction_view ut tile_bbox st edge
       (GetCoordinateOfNode fac (edge_v edge)) (GetCoordinateOfNode fac (edge_u edge))
       (haversineDistance ut (GetCoordinateOfNode fac (edge_u edge))
          (GetCoordinateOfNode fac (edge_v edge)))
       (reverse_weight_of fac edge) (enabled (reverse_segment_id edge))
       (reverse_datasource_of fac edge)"

text \<open>The attribute pairs and the geometry of a written feature.\<close>

definition feature_view :: "'d pbf \<Rightarrow> 32 word list \<times> 32 word list" where
  "feature_view feature = (feature_tags feature, feature_geometry feature)"

text \<open>
  The state is ready for the line pass over an edge when the arrays of the edge are long
  enough, its datasource ids are not above the largest one and its weights, where not 0,
  are in the line table.
\<close>

definition line_ready :: "facade \<Rightarrow> tally_state \<Rightarrow> Edge \<Rightarrow> bool" where
  "line_ready fac st edge \<longleftrightarrow>
     forward_arrays_ok fac edge \<and> reverse_arrays_ok fac edge
     \<and> forward_datasource_of fac edge \<le> max_datasource_id st
     \<and> reverse_datasource_of fac edge \<le> max_datasource_id st
     \<and> (forward_weight_of fac edge \<noteq> 0 \<longrightarrow> forward_weight_of fac edge \<in> dom (line_int_offsets st))
     \<and> (reverse_weight_of fac edge \<noteq> 0 \<longrightarrow> reverse_weight_of fac edge \<in> dom (line_int_offsets st))"

text \<open>
  What an edge with its list of turn records contributes to the point layer: nothing, or
  one feature for each record, all at the projected point of the end node.
\<close>

definition turn_point :: "facade \<Rightarrow> 'd util \<Rightarrow> 'd BBox \<Rightarrow> Edge \<Rightarrow> FixedPoint" where
  "turn_point fac ut tile_bbox edge =
     coordinatesToTilePoint ut (GetCoordinateOfNode fac (edge_v edge)) tile_bbox"

definition ends_at_intersection :: "facade \<Rightarrow> Edge \<Rightarrow> bool" where
  "ends_at_intersection fac edge \<longleftrightarrow>
     is_last_segment (fwd_segment_position edge)
       (length (GetUncompressedGeometry fac (forward_packed_geometry_id edge)))"

definition point_view ::
  "facade \<Rightarrow> 'd util \<Rightarrow> 'd BBox \<Rightarrow> Edge \<times> TurnData list \<Rightarrow> (32 word list \<times> 32 word list) list" where
  "point_view fac ut tile_bbox entry =
     (if snd entry \<noteq> [] \<and> ends_at_intersection fac (fst entry)
         \<and> within_clip_box ut (turn_point fac ut tile_bbox (fst entry))
      then map (\<lambda>turn. (point_tags turn, encodePoint (turn_point fac ut tile_bbox (fst entry))))
             (snd entry)
      else [])"

text \<open>The two layers as \<^verbatim>\<open>HandleRequest\<close> writes them, given the features of each.\<close>

definition speeds_layer :: "facade \<Rightarrow> 'd util \<Rightarrow> tally_state \<Rightarrow> 'd pbf list \<Rightarrow> 'd pbf" where
  "speeds_layer fac ut st features =
     PMsg LAYER_TAG
       ([PUInt32 VERSION_TAG 2, PString NAME_TAG ''speeds'', PUInt32 EXTENT_TAG (word_of_nat EXTENT)]
        @ features @ line_keys @ line_values fac ut st)"

definition turns_layer :: "tally_state \<Rightarrow> 'd pbf list \<Rightarrow> 'd pbf" where
  "turns_layer st features =
     PMsg LAYER_TAG
       ([PUInt32 VERSION_TAG 2, PString NAME_TAG ''turns'', PUInt32 EXTENT_TAG (word_of_nat EXTENT)]
        @ features @ point_keys @ point_values st)"

text \<open>
  A shortcut is in order when the loop over the shortcuts skips it or the geometry of its
  second edge has a first node. The facade is consistent for a request when, for each
  edge of the box, the arrays of both directions are long enough and, where the edge ends
  at an intersection, every adjacent shortcut is in order.
\<close>

definition shortcut_ok :: "facade \<Rightarrow> Edge \<Rightarrow> EdgeID \<Rightarrow> bool" where
  "shortcut_ok fac edge adj_shortcut \<longleftrightarrow>
     \<not> forward (GetEdgeData fac adj_shortcut)
     \<or> length (UnpackEdgeToEdges fac (seg_id (forward_segment_id edge)) (GetTarget fac adj_shortcut)) < 2
     \<or> GetUncompressedGeometry fac
          (GetGeometryIndexForEdgeID fac
             (edge_id (UnpackEdgeToEdges fac (seg_id (forward_segment_id edge))
                         (GetTarget fac adj_shortcut) ! 1))) \<noteq> []"

definition shortcuts_ok :: "facade \<Rightarrow> Edge \<Rightarrow> bool" where
  "shortcuts_ok fac edge \<longleftrightarrow>
     forward_packed_geometry_id edge = SPECIAL_EDGEID
     \<or> \<not> ends_at_intersection fac edge
     \<or> list_all (shortcut_ok fac edge) (GetAdjacentEdgeRange fac (seg_id (forward_segment_id edge)))"

definition request_consistent :: "facade \<Rightarrow> 'd util \<Rightarrow> TileParameters \<Rightarrow> bool" where
  "request_consistent fac ut parameters \<longleftrightarrow>
     list_all (\<lambda>edge. forward_arrays_ok fac edge \<and> reverse_arrays_ok fac edge \<and> shortcuts_ok fac edge)
       (request_edges fac ut parameters)"

text \<open>
  The number of vertices that a geometry encodes, when it is one MoveTo command with count
  1 followed by one LineTo command with its count of coordinate pairs.
\<close>

definition linestring_vertices :: "32 word list \<Rightarrow> nat option" where
  "linestring_vertices geometry =
     (case geometry of
        move_to # x # y # line_to # deltas \<Rightarrow>
          if move_to = 9 \<and> line_to AND 7 = 2 \<and> length deltas = 2 * unat (drop_bit 3 line_to)
          then Some (1 + unat (drop_bit 3 line_to))
          else None
      | other \<Rightarrow> None)"

text \<open>
  The next node and the turn weight that a shortcut contributes, if the loop retains it
  (forward travel enabled, at least two unpacked edges), and these pairs for all
  adjacent shortcuts of an edge in the order in which the loop processes them.
\<close>

definition shortcut_turn :: "facade \<Rightarrow> Edge \<Rightarrow> EdgeWeight \<Rightarrow> EdgeID \<Rightarrow> (NodeID \<times> EdgeWeight) option" where
  "shortcut_turn fac edge sum_node_weight adj_shortcut =
     (let unpacked_shortcut =
            UnpackEdgeToEdges fac (seg_id (forward_segment_id edge)) (GetTarget fac adj_shortcut)
      in if forward (GetEdgeData fac adj_shortcut) \<and> 2 \<le> length unpacked_shortcut
         then Some (hd (GetUncompressedGeometry fac
                          (GetGeometryIndexForEdgeID fac (edge_id (unpacked_shortcut ! 1)))),
                    distance (unpacked_shortcut ! 0) - sum_node_weight)
         else None)"

definition retained_turns :: "facade \<Rightarrow> Edge \<Rightarrow> (NodeID \<times> EdgeWeight) list" where
  "retained_turns fac edge =
     List.map_filter
       (shortcut_turn fac edge
          (foldl (+) 0 (GetUncompressedWeights fac (forward_packed_geometry_id edge))))
       (GetAdjacentEdgeRange fac (seg_id (forward_segment_id edge)))"

subsection \<open>A small road network\<close>

text \<open>
  One edge from node 0 to node 1 with a geometry in each direction, ending at an
  intersection from which two shortcuts lead to the same next node 2, with the weights
  107 and 109 for their first edges. The doubles are rational numbers.
\<close>

definition demo_edge :: Edge where
  "demo_edge = \<lparr>forward_segment_id = \<lparr>seg_id = 10, enabled = True\<rparr>,
     reverse_segment_id = \<lparr>seg_id = 11, enabled = True\<rparr>,
     edge_u = 0, edge_v = 1, forward_packed_geometry_id = 0, reverse_packed_geometry_id = 1,
     fwd_segment_position = 0, is_tiny = False\<rparr>"

definition demo_facade :: "Edge list \<Rightarrow> facade" where
  "demo_facade edges = \<lparr>
     GetEdgesInBox = (\<lambda>southwest northeast. edges),
     GetUncompressedWeights = (\<lambda>g. if g = 0 then [100] else if g = 1 then [50] else []),
     GetUncompressedDatasources = (\<lambda>g. if g = 0 then [1] else if g = 1 then [2] else []),
     GetUncompressedGeometry = (\<lambda>g. if g = 0 then [1] else if g = 7 then [2, 3] else []),
     GetCoordinateOfNode = (\<lambda>n. (int n, 0)),
     GetAdjacentEdgeRange = (\<lambda>s. if s = 10 then [20, 21] else []),
     GetEdgeData = (\<lambda>e. \<lparr>edge_id = e, distance = 0, forward = True\<rparr>),
     GetTarget = (\<lambda>e. if e = 20 then 5 else 6),
     GetGeometryIndexForEdgeID = (\<lambda>e. 7),
     GetDatasourceName = (\<lambda>i. if i = 0 then ''lua profile'' else ''speed file''),
     UnpackEdgeToEdges = (\<lambda>s t.
        if s = 10 \<and> t = 5
        then [\<lparr>edge_id = 10, distance = 107, forward = True\<rparr>,
              \<lparr>edge_id = 30, distance = 40, forward = True\<rparr>]
        else if s = 10 \<and> t = 6
        then [\<lparr>edge_id = 10, distance = 109, forward = True\<rparr>,
              \<lparr>edge_id = 30, distance = 40, forward = True\<rparr>]
        else [])\<rparr>"

definition demo_util :: "rat util" where
  "demo_util = \<lparr>
     xyzToWGS84 = (\<lambda>x y z. ((0, 0), (1, 1))),
     xyzToMercator = (\<lambda>x y z. \<lparr>minx = 0, miny = 0, maxx = 1, maxy = 1\<rparr>),
     bearing = (\<lambda>a b. if fst a < fst b then 90 else 270),
     haversineDistance = (\<lambda>a b. 100),
     clip_projected = (\<lambda>a b box.
        if fst a = fst b then [] else [[(of_int (fst a), 0), (of_int (fst b), 0)]]),
     project_point = (\<lambda>c box. (word_of_int (fst c), word_of_int (snd c))),
     d_of_int = (\<lambda>w. of_int (sint w)),
     d_div = (\<lambda>p q. p / q),
     d_mul = (\<lambda>p q. p * q),
     d_round = (\<lambda>p. of_int (round p)),
     d_3_6 = 18 / 5,
     d_to_int32 = (\<lambda>p. word_of_int (floor p)),
     d_to_uint32 = (\<lambda>p. word_of_int (floor p)),
     BUFFER = 128,
     bucket_rank = (\<lambda>c n. 0)\<rparr>"

definition demo_params :: TileParameters where
  "demo_params = \<lparr>tile_x = 0, tile_y = 0, tile_z = 0\<rparr>"

text \<open>The same utilities for a tile box that no segment crosses: the clipping gives no part.\<close>

definition demo_util_outside :: "rat util" where
  "demo_util_outside = demo_util\<lparr>clip_projected := (\<lambda>a b box. [])\<rparr>"

text \<open>
  A memory in which every read after the end of an array finds a value (the weight 40
  after a weight array), and one in which every such read ends the process.
\<close>

definition demo_memory :: memory where
  "demo_memory = \<lparr>weight_past_end = (\<lambda>xs i. Some 40), datasource_past_end = (\<lambda>xs i. Some 3),
     node_past_end = (\<lambda>xs i. Some 9), turn_data_past_end = (\<lambda>xs i. Some [])\<rparr>"



definition demo_invalid_params :: TileParameters where
  "demo_invalid_params = \<lparr>tile_x = 7, tile_y = 0, tile_z = 0\<rparr>"

subsection \<open>Interning\<close>

lemma table_ok_empty: "table_ok [] Map.empty"
  by (simp add: table_ok_def)

lemma table_ok_inj: "table_ok ints offs \<Longrightarrow> offs a = Some i \<Longrightarrow> offs b = Some i \<Longrightarrow> a = b"
  by (auto simp: table_ok_def)

lemma table_ok_distinct: "table_ok ints offs \<Longrightarrow> distinct ints"
  unfolding table_ok_def distinct_conv_nth
  by (metis option.inject)

lemma table_ok_dom: "table_ok ints offs \<Longrightarrow> dom offs = set ints"
  unfolding table_ok_def by (auto simp: in_set_conv_nth dom_def)

lemma table_ok_append:
  assumes "table_ok ints offs" and "offs val = None"
  shows "table_ok (ints @ [val]) (offs(val \<mapsto> length ints))"
proof -
  have none: "\<And>i. i < length ints \<Longrightarrow> ints ! i \<noteq> val"
    using assms by (metis option.distinct(1) table_ok_def)
  show ?thesis
    unfolding table_ok_def
  proof (intro allI)
    fix w i
    show "((offs(val \<mapsto> length ints)) w = Some i) = (i < length (ints @ [val]) \<and> (ints @ [val]) ! i = w)"
    proof (cases "w = val")
      case True
      then show ?thesis using none by (auto simp: nth_append less_Suc_eq)
    next
      case False
      then show ?thesis using assms(1) by (auto simp: table_ok_def nth_append less_Suc_eq)
    qed
  qed
qed

lemma use_point_value_found:
  "point_int_offsets st val = Some i \<Longrightarrow> use_point_value val st = (i, st)"
  by (simp add: use_point_value_def)

lemma use_point_value_new:
  "point_int_offsets st val = None \<Longrightarrow>
     use_point_value val st =
       (length (used_point_ints st),
        st\<lparr>used_point_ints := used_point_ints st @ [val],
           point_int_offsets := (point_int_offsets st)(val \<mapsto> length (used_point_ints st))\<rparr>)"
  by (simp add: use_point_value_def Let_def)

lemma use_line_value_found:
  "line_int_offsets st val = Some i \<Longrightarrow> use_line_value val st = st"
  by (simp add: use_line_value_def)

lemma use_line_value_new:
  "line_int_offsets st val = None \<Longrightarrow>
     use_line_value val st =
       st\<lparr>used_line_ints := used_line_ints st @ [val],
          line_int_offsets := (line_int_offsets st)(val \<mapsto> length (used_line_ints st))\<rparr>"
  by (simp add: use_line_value_def Let_def)

lemma use_point_value_ok:
  "table_ok (used_point_ints st) (point_int_offsets st) \<Longrightarrow>
   table_ok (used_point_ints (snd (use_point_value val st))) (point_int_offsets (snd (use_point_value val st)))"
  by (cases "point_int_offsets st val")
     (simp_all add: use_point_value_new use_point_value_found table_ok_append)

lemma use_line_value_ok:
  "table_ok (used_line_ints st) (line_int_offsets st) \<Longrightarrow>
   table_ok (used_line_ints (use_line_value val st)) (line_int_offsets (use_line_value val st))"
  by (cases "line_int_offsets st val")
     (simp_all add: use_line_value_new use_line_value_found table_ok_append)

lemma use_point_value_stable:
  "point_int_offsets st w = Some j \<Longrightarrow> point_int_offsets (snd (use_point_value val st)) w = Some j"
  by (cases "point_int_offsets st val")
     (auto simp: use_point_value_new use_point_value_found)

lemma use_line_value_stable:
  "line_int_offsets st w = Some j \<Longrightarrow> line_int_offsets (use_line_value val st) w = Some j"
  by (cases "line_int_offsets st val")
     (auto simp: use_line_value_new use_line_value_found)

lemma use_point_value_offset:
  "table_ok (used_point_ints st) (point_int_offsets st) \<Longrightarrow>
   point_int_offsets (snd (use_point_value val st)) val = Some (fst (use_point_value val st))"
  by (cases "point_int_offsets st val")
     (auto simp: use_point_value_new use_point_value_found)


lemma use_line_value_offset:
  "table_ok (used_line_ints st) (line_int_offsets st) \<Longrightarrow>
   \<exists>i. line_int_offsets (use_line_value val st) val = Some i"
  by (cases "line_int_offsets st val")
     (auto simp: use_line_value_new use_line_value_found)

lemma later_point_calls_stable:
  "point_int_offsets st w = Some j \<Longrightarrow>
   point_int_offsets (fold (\<lambda>val s. snd (use_point_value val s)) vals st) w = Some j"
  by (induction vals arbitrary: st) (simp_all add: use_point_value_stable)

lemma later_line_calls_stable:
  "line_int_offsets st w = Some j \<Longrightarrow>
   line_int_offsets (fold use_line_value vals st) w = Some j"
  by (induction vals arbitrary: st) (simp_all add: use_line_value_stable)

text \<open>
  Claim C8. In each of the two tables of a request, interning a value that the table holds
  leaves the table as it is and gives the offset the value has; interning a new value
  appends it and gives it the offset size - 1 of the grown vector; an offset once given
  stays through all later calls; two values with the same offset are equal; and the table
  stays in order, so that each value it holds has exactly one offset. For the line table
  the lambda returns nothing: the offset is the one the map holds, and reading it with
  \<^verbatim>\<open>line_int_offsets[value]\<close> after the interning gives it and changes nothing.
\<close>

theorem interning_offsets:
  assumes line_ok: "table_ok (used_line_ints st) (line_int_offsets st)"
    and point_ok: "table_ok (used_point_ints st) (point_int_offsets st)"
  shows "(\<forall>i. point_int_offsets st val = Some i \<longrightarrow> use_point_value val st = (i, st))
    \<and> (point_int_offsets st val = None \<longrightarrow>
          used_point_ints (snd (use_point_value val st)) = used_point_ints st @ [val]
          \<and> fst (use_point_value val st) = length (used_point_ints (snd (use_point_value val st))) - 1)
    \<and> point_int_offsets (snd (use_point_value val st)) val = Some (fst (use_point_value val st))
    \<and> (\<forall>w j. point_int_offsets (snd (use_point_value val st)) w = Some j \<longrightarrow>
          point_int_offsets (fold (\<lambda>x s. snd (use_point_value x s)) later (snd (use_point_value val st))) w
            = Some j)
    \<and> (\<forall>a b i. point_int_offsets (snd (use_point_value val st)) a = Some i
          \<and> point_int_offsets (snd (use_point_value val st)) b = Some i \<longrightarrow> a = b)
    \<and> table_ok (used_point_ints (snd (use_point_value val st)))
          (point_int_offsets (snd (use_point_value val st)))
    \<and> (\<forall>i. line_int_offsets st val = Some i \<longrightarrow> use_line_value val st = st)
    \<and> (line_int_offsets st val = None \<longrightarrow>
          used_line_ints (use_line_value val st) = used_line_ints st @ [val]
          \<and> line_int_offsets (use_line_value val st) val
              = Some (length (used_line_ints (use_line_value val st)) - 1))
    \<and> (\<forall>w j. line_int_offsets (use_line_value val st) w = Some j \<longrightarrow>
          line_int_offsets (fold use_line_value later (use_line_value val st)) w = Some j)
    \<and> (\<forall>a b i. line_int_offsets (use_line_value val st) a = Some i
          \<and> line_int_offsets (use_line_value val st) b = Some i \<longrightarrow> a = b)
    \<and> table_ok (used_line_ints (use_line_value val st)) (line_int_offsets (use_line_value val st))
    \<and> (\<exists>i. line_int_offsets (use_line_value val st) val = Some i
          \<and> line_offset_lookup val (use_line_value val st) = (i, use_line_value val st))"
proof -
  let ?p = "snd (use_point_value val st)"
  let ?l = "use_line_value val st"
  have p_ok: "table_ok (used_point_ints ?p) (point_int_offsets ?p)"
    using point_ok by (rule use_point_value_ok)
  have l_ok: "table_ok (used_line_ints ?l) (line_int_offsets ?l)"
    using line_ok by (rule use_line_value_ok)
  have p1: "\<forall>i. point_int_offsets st val = Some i \<longrightarrow> use_point_value val st = (i, st)"
    by (simp add: use_point_value_found)
  have p2: "point_int_offsets st val = None \<longrightarrow>
          used_point_ints ?p = used_point_ints st @ [val]
          \<and> fst (use_point_value val st) = length (used_point_ints ?p) - 1"
    by (simp add: use_point_value_new)
  have p3: "point_int_offsets ?p val = Some (fst (use_point_value val st))"
    using point_ok by (rule use_point_value_offset)
  have p4: "\<forall>w j. point_int_offsets ?p w = Some j \<longrightarrow>
          point_int_offsets (fold (\<lambda>x s. snd (use_point_value x s)) later ?p) w = Some j"
    by (simp add: later_point_calls_stable)
  have p5: "\<forall>a b i. point_int_offsets ?p a = Some i \<and> point_int_offsets ?p b = Some i \<longrightarrow> a = b"
    using table_ok_inj [OF p_ok] by blast
  have l1: "\<forall>i. line_int_offsets st val = Some i \<longrightarrow> use_line_value val st = st"
    by (simp add: use_line_value_found)
  have l2: "line_int_offsets st val = None \<longrightarrow>
          used_line_ints ?l = used_line_ints st @ [val]
          \<and> line_int_offsets ?l val = Some (length (used_line_ints ?l) - 1)"
    by (simp add: use_line_value_new)
  have l4: "\<forall>w j. line_int_offsets ?l w = Some j \<longrightarrow>
          line_int_offsets (fold use_line_value later ?l) w = Some j"
    by (simp add: later_line_calls_stable)
  have l5: "\<forall>a b i. line_int_offsets ?l a = Some i \<and> line_int_offsets ?l b = Some i \<longrightarrow> a = b"
    using table_ok_inj [OF l_ok] by blast
  obtain i where i: "line_int_offsets ?l val = Some i"
    using use_line_value_offset [OF line_ok, of val] by blast
  then have "line_offset_lookup val ?l = (i, ?l)"
    by (simp add: line_offset_lookup_def)
  with i have l6: "\<exists>i. line_int_offsets ?l val = Some i \<and> line_offset_lookup val ?l = (i, ?l)"
    by blast
  from p1 p2 p3 p4 p5 p_ok l1 l2 l4 l5 l_ok l6 show ?thesis
    by blast
qed

theorem interning_offsets_witness:
  "table_ok (used_line_ints initial_state) (line_int_offsets initial_state)
   \<and> table_ok (used_point_ints initial_state) (point_int_offsets initial_state)
   \<and> fst (use_point_value 90 initial_state) = 0
   \<and> point_int_offsets (snd (use_point_value 90 initial_state)) 90 = Some 0
   \<and> point_int_offsets (fold (\<lambda>x s. snd (use_point_value x s)) [7, 90, 8]
         (snd (use_point_value 90 initial_state))) 90 = Some 0
   \<and> used_line_ints (use_line_value 100 initial_state) = [100]
   \<and> line_int_offsets (use_line_value 100 initial_state) 100 = Some 0"
proof -
  have l: "table_ok (used_line_ints initial_state) (line_int_offsets initial_state)"
    by (simp add: initial_state_def table_ok_def)
  have p: "table_ok (used_point_ints initial_state) (point_int_offsets initial_state)"
    by (simp add: initial_state_def table_ok_def)
  have n: "point_int_offsets initial_state 90 = None" "line_int_offsets initial_state 100 = None"
    by (simp_all add: initial_state_def)
  have z: "used_point_ints initial_state = []" "used_line_ints initial_state = []"
    by (simp_all add: initial_state_def)
  show ?thesis
    using interning_offsets [OF l p, of 90 "[7, 90, 8]"] interning_offsets [OF l p, of 100 "[]"] l p n z
    by simp
qed

subsection \<open>Index arithmetic\<close>

lemma unat_pos_bound: "unat (pos :: 16 word) < 65536"
  using unsigned_less [of pos, where 'a = nat] by simp

lemma size_t_index_less:
  assumes "p < 65536"
  shows "size_t_sub (size_t_sub n p) 1 < n \<longleftrightarrow> p < n"
proof -
  define a where "a = int n"
  define b where "b = int p"
  have b: "0 \<le> b" "b < 65536" using assms by (simp_all add: b_def)
  have a: "0 \<le> a" by (simp add: a_def)
  define r where "r = (a - b) mod 2 ^ 64"
  have r: "0 \<le> r" "r < 2 ^ 64" by (simp_all add: r_def)
  have idx: "int (size_t_sub (size_t_sub n p) 1) = (r - 1) mod 2 ^ 64"
    using r by (simp add: size_t_sub_def a_def b_def r_def)
  show ?thesis
  proof (cases "b < a")
    case True
    have "r \<le> a - b" unfolding r_def using True by (intro zmod_le_nonneg_dividend) simp
    have "(r - 1) mod 2 ^ 64 < a"
    proof (cases "r = 0")
      case True
      then have "(2::int) ^ 64 dvd a - b" by (simp add: r_def mod_eq_0_iff_dvd)
      then have "2 ^ 64 \<le> a - b" using \<open>b < a\<close> by (intro zdvd_imp_le) simp_all
      then show ?thesis using True b by simp
    next
      case False
      then have "(r - 1) mod 2 ^ 64 = r - 1" using r by simp
      then show ?thesis using \<open>r \<le> a - b\<close> b by simp
    qed
    then show ?thesis using True idx by (simp add: a_def b_def)
  next
    case False
    then have ab: "a \<le> b" by simp
    have "a \<le> (r - 1) mod 2 ^ 64"
    proof (cases "a = b")
      case True
      then have "r = 0" by (simp add: r_def)
      then show ?thesis using ab b by simp
    next
      case False
      then have "a - b < 0" "- (2 ^ 64) \<le> a - b" using ab a b by simp_all
      then have "r = a - b + 2 ^ 64"
        unfolding r_def by (smt (verit) mod_add_self2 mod_pos_pos_trivial)
      then have "(r - 1) mod 2 ^ 64 = a - b + 2 ^ 64 - 1" using a b ab False by simp
      then show ?thesis using b by simp
    qed
    then show ?thesis using False idx by (simp add: a_def b_def)
  qed
qed

lemma reverse_index_less: "reverse_index n pos < n \<longleftrightarrow> unat pos < n"
  unfolding reverse_index_def by (rule size_t_index_less) (rule unat_pos_bound)

subsection \<open>The tally pass: what each step reads and leaves alone\<close>

lemma vec_at_in_range: "i < length xs \<Longrightarrow> vec_at past_end xs i = Inr (xs ! i)"
  by (simp add: vec_at_def)

lemma read_forward_ok:
  "forward_arrays_ok fac e \<Longrightarrow>
   read_forward mem fac e = Inr (forward_weight_of fac e, forward_datasource_of fac e)"
  by (auto simp: read_forward_def forward_arrays_ok_def forward_weight_of_def
        forward_datasource_of_def vec_at_def)

lemma read_reverse_ok:
  "reverse_arrays_ok fac e \<Longrightarrow>
   read_reverse dbg mem fac e = Inr (reverse_weight_of fac e, reverse_datasource_of fac e)"
  by (auto simp: read_reverse_def reverse_arrays_ok_def reverse_weight_of_def
        reverse_datasource_of_def vec_at_def reverse_index_less Let_def)

lemma use_point_value_frame:
  "used_line_ints (snd (use_point_value val st)) = used_line_ints st"
  "line_int_offsets (snd (use_point_value val st)) = line_int_offsets st"
  "max_datasource_id (snd (use_point_value val st)) = max_datasource_id st"
  "all_turn_data (snd (use_point_value val st)) = all_turn_data st"
  by (simp_all add: use_point_value_def Let_def split: option.splits)

lemma use_point_value_frame_pair:
  "use_point_value val st = (off, st') \<Longrightarrow>
     used_line_ints st' = used_line_ints st \<and> line_int_offsets st' = line_int_offsets st
     \<and> max_datasource_id st' = max_datasource_id st \<and> all_turn_data st' = all_turn_data st"
  using use_point_value_frame [of val st] by simp

lemma use_line_value_frame:
  "used_point_ints (use_line_value val st) = used_point_ints st"
  "point_int_offsets (use_line_value val st) = point_int_offsets st"
  "max_datasource_id (use_line_value val st) = max_datasource_id st"
  "all_turn_data (use_line_value val st) = all_turn_data st"
  by (simp_all add: use_line_value_def Let_def split: option.splits)

lemma turn_records_frame:
  "turn_records fac ut cb ain c st = (tds, st') \<Longrightarrow>
     used_line_ints st' = used_line_ints st \<and> line_int_offsets st' = line_int_offsets st
     \<and> max_datasource_id st' = max_datasource_id st \<and> all_turn_data st' = all_turn_data st"
proof (induction c arbitrary: st tds st')
  case Nil
  then show ?case by simp
next
  case (Cons x c)
  obtain o1 s1 where u1: "use_point_value (ucast (bearing ut cb (GetCoordinateOfNode fac (fst x)))) st = (o1, s1)"
    by (cases "use_point_value (ucast (bearing ut cb (GetCoordinateOfNode fac (fst x)))) st")
  obtain o2 s2 where u2: "use_point_value (snd x) s1 = (o2, s2)"
    by (cases "use_point_value (snd x) s1")
  obtain t3 s3 where u3: "turn_records fac ut cb ain c s2 = (t3, s3)"
    by (cases "turn_records fac ut cb ain c s2")
  from Cons.prems u1 u2 u3 have "st' = s3" by (simp add: Let_def)
  moreover from Cons.IH [OF u3] have "used_line_ints s3 = used_line_ints s2 \<and> line_int_offsets s3 = line_int_offsets s2
     \<and> max_datasource_id s3 = max_datasource_id s2 \<and> all_turn_data s3 = all_turn_data s2" .
  moreover have "s1 = snd (use_point_value (ucast (bearing ut cb (GetCoordinateOfNode fac (fst x)))) st)"
    "s2 = snd (use_point_value (snd x) s1)" using u1 u2 by simp_all
  ultimately show ?case by (simp add: use_point_value_frame)
qed

lemma turn_records_ok:
  "turn_records fac ut cb ain c st = (tds, st') \<Longrightarrow>
   table_ok (used_point_ints st) (point_int_offsets st) \<Longrightarrow>
   table_ok (used_point_ints st') (point_int_offsets st')"
proof (induction c arbitrary: st tds st')
  case Nil
  then show ?case by simp
next
  case (Cons x c)
  obtain o1 s1 where u1: "use_point_value (ucast (bearing ut cb (GetCoordinateOfNode fac (fst x)))) st = (o1, s1)"
    by (cases "use_point_value (ucast (bearing ut cb (GetCoordinateOfNode fac (fst x)))) st")
  obtain o2 s2 where u2: "use_point_value (snd x) s1 = (o2, s2)"
    by (cases "use_point_value (snd x) s1")
  obtain t3 s3 where u3: "turn_records fac ut cb ain c s2 = (t3, s3)"
    by (cases "turn_records fac ut cb ain c s2")
  from Cons.prems u1 u2 u3 have eq: "st' = s3" by (simp add: Let_def)
  have "table_ok (used_point_ints s1) (point_int_offsets s1)"
    using use_point_value_ok [OF Cons.prems(2), of "ucast (bearing ut cb (GetCoordinateOfNode fac (fst x)))"] u1 by simp
  then have "table_ok (used_point_ints s2) (point_int_offsets s2)"
    using use_point_value_ok [of s1 "snd x"] u2 by simp
  then show ?case using Cons.IH [OF u3] eq by simp
qed

lemma reconstruct_turns_frame:
  "reconstruct_turns mem fac ut e fwv fnv st = Inr (tds, st') \<Longrightarrow>
     used_line_ints st' = used_line_ints st \<and> line_int_offsets st' = line_int_offsets st
     \<and> max_datasource_id st' = max_datasource_id st \<and> all_turn_data st' = all_turn_data st"
  unfolding reconstruct_turns_def Let_def
  by (auto split: sum.splits if_splits prod.splits dest!: turn_records_frame
        use_point_value_frame_pair)

subsection \<open>The tally pass: one edge\<close>

lemma reconstruct_turns_ok:
  "reconstruct_turns mem fac ut e fwv fnv st = Inr (tds, st') \<Longrightarrow>
   table_ok (used_point_ints st) (point_int_offsets st) \<Longrightarrow>
   table_ok (used_point_ints st') (point_int_offsets st')"
  unfolding reconstruct_turns_def Let_def
  by (auto split: sum.splits if_splits prod.splits
        dest!: turn_records_ok
        dest: use_point_value_ok [where val = "ucast (bearing ut (GetCoordinateOfNode fac (edge_u e)) (GetCoordinateOfNode fac (edge_v e)))"]
              use_point_value_ok [where val = "ucast (bearing ut (GetCoordinateOfNode fac (fnv ! (length fnv - 2))) (GetCoordinateOfNode fac (edge_v e)))"])

lemma tally_forward_cases:
  assumes "tally_forward mem fac ut e st = Inr (ds, tds, st')" and "forward_arrays_ok fac e"
  obtains (absent) "forward_packed_geometry_id e = SPECIAL_EDGEID" "ds = 0" "tds = []" "st' = st"
  | (inner) "forward_packed_geometry_id e \<noteq> SPECIAL_EDGEID"
      "ds = forward_datasource_of fac e"
      "\<not> is_last_segment (fwd_segment_position e)
          (length (GetUncompressedGeometry fac (forward_packed_geometry_id e)))"
      "tds = []" "st' = use_line_value (forward_weight_of fac e) st"
  | (last) "forward_packed_geometry_id e \<noteq> SPECIAL_EDGEID"
      "ds = forward_datasource_of fac e"
      "is_last_segment (fwd_segment_position e)
          (length (GetUncompressedGeometry fac (forward_packed_geometry_id e)))"
      "reconstruct_turns mem fac ut e (GetUncompressedWeights fac (forward_packed_geometry_id e))
          (GetUncompressedGeometry fac (forward_packed_geometry_id e))
          (use_line_value (forward_weight_of fac e) st) = Inr (tds, st')"
  using assms
  unfolding tally_forward_def Let_def forward_arrays_ok_def
    forward_datasource_of_def forward_weight_of_def
  by (auto split: sum.splits if_splits prod.splits simp: vec_at_def)

lemma tally_forward_Inr:
  assumes "tally_forward mem fac ut e st = Inr (ds, tds, st')" and "forward_arrays_ok fac e"
  shows "ds = forward_datasource_of fac e"
    and "used_line_ints st' = used_line_ints (after_forward fac e st)"
    and "line_int_offsets st' = line_int_offsets (after_forward fac e st)"
    and "max_datasource_id st' = max_datasource_id st"
    and "all_turn_data st' = all_turn_data st"
    and "table_ok (used_point_ints st) (point_int_offsets st) \<Longrightarrow>
           table_ok (used_point_ints st') (point_int_offsets st')"
proof -
  show "ds = forward_datasource_of fac e"
    using assms by (cases rule: tally_forward_cases) (simp_all add: forward_datasource_of_def)
  show "used_line_ints st' = used_line_ints (after_forward fac e st)"
    using assms by (cases rule: tally_forward_cases)
      (auto simp: after_forward_def dest: reconstruct_turns_frame)
  show "line_int_offsets st' = line_int_offsets (after_forward fac e st)"
    using assms by (cases rule: tally_forward_cases)
      (auto simp: after_forward_def dest: reconstruct_turns_frame)
  show "max_datasource_id st' = max_datasource_id st"
    using assms by (cases rule: tally_forward_cases)
      (auto simp: use_line_value_frame dest: reconstruct_turns_frame)
  show "all_turn_data st' = all_turn_data st"
    using assms by (cases rule: tally_forward_cases)
      (auto simp: use_line_value_frame dest: reconstruct_turns_frame)
  show "table_ok (used_point_ints st') (point_int_offsets st')"
    if "table_ok (used_point_ints st) (point_int_offsets st)"
    using assms that by (cases rule: tally_forward_cases)
      (auto simp: use_line_value_frame dest: reconstruct_turns_ok)
qed

lemma tally_reverse_ok:
  "reverse_arrays_ok fac e \<Longrightarrow>
   tally_reverse dbg mem fac e st =
     Inr (reverse_datasource_of fac e,
          if reverse_packed_geometry_id e \<noteq> SPECIAL_EDGEID
          then use_line_value (reverse_weight_of fac e) st else st)"
  by (auto simp: tally_reverse_def reverse_arrays_ok_def reverse_weight_of_def
        reverse_datasource_of_def vec_at_def reverse_index_less Let_def)

lemma line_table_use_line_value: "line_table (use_line_value val st) = intern_pair val (line_table st)"
  by (cases "line_int_offsets st val")
     (simp_all add: line_table_def intern_pair_def use_line_value_new use_line_value_found)

lemma tally_edge_Inr:
  assumes "tally_edge dbg mem fac ut e st = Inr st'"
    and fa: "forward_arrays_ok fac e" and ra: "reverse_arrays_ok fac e"
  shows "line_table st' = fold intern_pair (edge_line_weights fac e) (line_table st)"
    and "max_datasource_id st' =
           max (max (max_datasource_id st) (forward_datasource_of fac e)) (reverse_datasource_of fac e)"
    and "length (all_turn_data st') = Suc (length (all_turn_data st))"
    and "table_ok (used_point_ints st) (point_int_offsets st) \<Longrightarrow>
           table_ok (used_point_ints st') (point_int_offsets st')"
proof -
  from assms(1) obtain fds tds st1 rds st2
    where f: "tally_forward mem fac ut e st = Inr (fds, tds, st1)"
      and r: "tally_reverse dbg mem fac e st1 = Inr (rds, st2)"
      and st': "st' = st2\<lparr>max_datasource_id := max (max (max_datasource_id st2) fds) rds,
                            all_turn_data := all_turn_data st2 @ [tds]\<rparr>"
    by (auto simp: tally_edge_def split: sum.splits prod.splits)
  note F = tally_forward_Inr [OF f fa]
  from r have R: "rds = reverse_datasource_of fac e"
    "st2 = (if reverse_packed_geometry_id e \<noteq> SPECIAL_EDGEID
            then use_line_value (reverse_weight_of fac e) st1 else st1)"
    by (simp_all add: tally_reverse_ok [OF ra])
  have lt1: "line_table st1 = line_table (after_forward fac e st)"
    using F(2,3) by (simp add: line_table_def)
  have lt0: "line_table (after_forward fac e st) =
      (if forward_packed_geometry_id e \<noteq> SPECIAL_EDGEID
       then intern_pair (forward_weight_of fac e) (line_table st) else line_table st)"
    by (simp add: after_forward_def line_table_use_line_value)
  have lt2: "line_table st2 =
      (if reverse_packed_geometry_id e \<noteq> SPECIAL_EDGEID
       then intern_pair (reverse_weight_of fac e) (line_table st1) else line_table st1)"
    using R(2) by (simp add: line_table_use_line_value)
  have lt3: "line_table st' = line_table st2"
    using st' by (simp add: line_table_def)
  show "line_table st' = fold intern_pair (edge_line_weights fac e) (line_table st)"
    unfolding lt3 lt2 lt1 lt0 by (simp add: edge_line_weights_def)
  show "max_datasource_id st' =
           max (max (max_datasource_id st) (forward_datasource_of fac e)) (reverse_datasource_of fac e)"
    using st' F(1,4) R(1,2) by (simp add: use_line_value_frame)
  show "length (all_turn_data st') = Suc (length (all_turn_data st))"
    using st' F(5) R(2) by (simp add: use_line_value_frame)
  show "table_ok (used_point_ints st') (point_int_offsets st')"
    if "table_ok (used_point_ints st) (point_int_offsets st)"
    using F(6) [OF that] st' R(2) by (simp add: use_line_value_frame)
qed

subsection \<open>The tally pass: what it leaves in the state\<close>

lemma first_seen_order_distinct: "distinct (first_seen_order xs)"
  by (simp add: first_seen_order_def)

lemma first_seen_order_set: "set (first_seen_order xs) = set xs"
  by (simp add: first_seen_order_def)

lemma tally_pass_Inr:
  assumes "tally_pass dbg mem fac ut edges st = Inr st'"
    and "\<forall>e\<in>set edges. forward_arrays_ok fac e \<and> reverse_arrays_ok fac e"
  shows "line_table st' = fold intern_pair (interned_line_weights fac edges) (line_table st)
    \<and> max_datasource_id st' = fold max (observed_datasources fac edges) (max_datasource_id st)
    \<and> length (all_turn_data st') = length (all_turn_data st) + length edges
    \<and> (table_ok (used_point_ints st) (point_int_offsets st) \<longrightarrow>
          table_ok (used_point_ints st') (point_int_offsets st'))"
  using assms
proof (induction edges arbitrary: st)
  case Nil
  then show ?case by (simp add: interned_line_weights_def observed_datasources_def)
next
  case (Cons e edges)
  from Cons.prems(1) obtain st1 where e: "tally_edge dbg mem fac ut e st = Inr st1"
    and rest: "tally_pass dbg mem fac ut edges st1 = Inr st'"
    by (auto split: sum.splits)
  from Cons.prems(2) have fa: "forward_arrays_ok fac e" and ra: "reverse_arrays_ok fac e"
    and ok: "\<forall>e\<in>set edges. forward_arrays_ok fac e \<and> reverse_arrays_ok fac e"
    by simp_all
  note E = tally_edge_Inr [OF e fa ra]
  note IH = Cons.IH [OF rest ok]
  have m: "max_datasource_id st1 =
      fold max [forward_datasource_of fac e, reverse_datasource_of fac e] (max_datasource_id st)"
    using E(2) by (simp add: max.commute max.left_commute)
  show ?case
    using IH E(1,3,4) m
    by (simp add: interned_line_weights_def observed_datasources_def)
qed

lemma remdups_drop: "w \<in> set zs \<Longrightarrow> remdups (ys @ w # zs) = remdups (ys @ zs)"
  by (induction ys) auto

lemma intern_pair_ok: "table_ok (fst t) (snd t) \<Longrightarrow> table_ok (fst (intern_pair val t)) (snd (intern_pair val t))"
  by (cases "snd t val") (simp_all add: intern_pair_def table_ok_append)

lemma fold_intern_pair_ok:
  "table_ok (fst t) (snd t) \<Longrightarrow> table_ok (fst (fold intern_pair ws t)) (snd (fold intern_pair ws t))"
  by (induction ws arbitrary: t) (simp_all add: intern_pair_ok)

lemma fold_intern_pair_first_seen:
  "table_ok (fst t) (snd t) \<Longrightarrow> fst (fold intern_pair ws t) = first_seen_order (fst t @ ws)"
proof (induction ws arbitrary: t)
  case Nil
  then show ?case
    by (simp add: first_seen_order_def table_ok_distinct distinct_remdups_id)
next
  case (Cons w ws)
  show ?case
  proof (cases "snd t w")
    case None
    then have step: "intern_pair w t = (fst t @ [w], (snd t)(w \<mapsto> length (fst t)))"
      by (simp add: intern_pair_def)
    have "table_ok (fst (intern_pair w t)) (snd (intern_pair w t))"
      using Cons.prems by (rule intern_pair_ok)
    from Cons.IH [OF this] show ?thesis by (simp add: step)
  next
    case (Some i)
    then have step: "intern_pair w t = t" by (simp add: intern_pair_def)
    have "w \<in> set (fst t)" using Some table_ok_dom [OF Cons.prems] by auto
    then have "remdups (rev ws @ w # rev (fst t)) = remdups (rev ws @ rev (fst t))"
      by (intro remdups_drop) simp
    then show ?thesis using Cons.IH [OF Cons.prems] by (simp add: step first_seen_order_def)
  qed
qed

lemma fold_intern_pair_dom:
  "table_ok (fst t) (snd t) \<Longrightarrow> dom (snd (fold intern_pair ws t)) = set (fst t) \<union> set ws"
  using table_ok_dom [OF fold_intern_pair_ok, of t ws] fold_intern_pair_first_seen [of t ws]
  by (auto simp: first_seen_order_def)

lemma fold_max_Max: "fold max xs (m :: 'a :: linorder) = Max (insert m (set xs))"
  using Max.set_eq_fold [of m xs] by simp

lemma initial_line_table: "line_table initial_state = ([], Map.empty)"
  by (simp add: line_table_def initial_state_def)

text \<open>What the tally pass of a request leaves in the state.\<close>

lemma tally_pass_initial:
  assumes "tally_pass dbg mem fac ut edges initial_state = Inr st"
    and "\<forall>e\<in>set edges. forward_arrays_ok fac e \<and> reverse_arrays_ok fac e"
  shows "used_line_ints st = first_seen_order (interned_line_weights fac edges)"
    and "table_ok (used_line_ints st) (line_int_offsets st)"
    and "dom (line_int_offsets st) = set (interned_line_weights fac edges)"
    and "max_datasource_id st = Max (insert 0 (set (observed_datasources fac edges)))"
    and "length (all_turn_data st) = length edges"
    and "table_ok (used_point_ints st) (point_int_offsets st)"
proof -
  note T = tally_pass_Inr [OF assms]
  have ok0: "table_ok (fst (line_table initial_state)) (snd (line_table initial_state))"
    by (simp add: initial_line_table table_ok_empty)
  have lt: "line_table st = fold intern_pair (interned_line_weights fac edges) (line_table initial_state)"
    using T by simp
  have "fst (line_table st) = first_seen_order (fst (line_table initial_state) @ interned_line_weights fac edges)"
    unfolding lt using ok0 by (rule fold_intern_pair_first_seen)
  then show "used_line_ints st = first_seen_order (interned_line_weights fac edges)"
    by (simp add: initial_line_table) (simp add: line_table_def)
  have "table_ok (fst (line_table st)) (snd (line_table st))"
    unfolding lt using ok0 by (rule fold_intern_pair_ok)
  then show "table_ok (used_line_ints st) (line_int_offsets st)"
    by (simp add: line_table_def)
  have "dom (snd (line_table st)) = set (fst (line_table initial_state)) \<union> set (interned_line_weights fac edges)"
    unfolding lt using ok0 by (rule fold_intern_pair_dom)
  then show "dom (line_int_offsets st) = set (interned_line_weights fac edges)"
    by (simp add: initial_line_table) (simp add: line_table_def)
  show "max_datasource_id st = Max (insert 0 (set (observed_datasources fac edges)))"
    using T by (simp add: fold_max_Max initial_state_def)
  show "length (all_turn_data st) = length edges"
    using T by (simp add: initial_state_def)
  show "table_ok (used_point_ints st) (point_int_offsets st)"
    using T by (simp add: initial_state_def table_ok_empty)
qed

subsection \<open>The line pass\<close>

lemma feature_view_line:
  "tile_line \<noteq> [] \<Longrightarrow> length tile_line = 2 \<Longrightarrow>
   feature_view (encode_tile_line e m i tile_line sp du ds sx sy :: 'd pbf)
     = (line_tags e m sp du ds, fst (snd (encodeLinestring tile_line sx sy)))"
  by (cases tile_line)
     (auto simp: feature_view_def feature_tags_def feature_geometry_def encode_tile_line_def
        packed_field_def line_tags_def encodeLinestring_def
        FEATURE_ATTRIBUTES_TAG_def FEATURE_GEOMETRIES_TAG_def
        split: prod.splits)

lemma coordinatesToTileLine_length:
  "coordinatesToTileLine ut p q box = [] \<or> length (coordinatesToTileLine ut p q box) = 2"
  by (simp add: coordinatesToTileLine_def split: list.splits)

lemma emit_direction_eq:
  assumes "w \<noteq> 0 \<longrightarrow> line_int_offsets st w = Some off"
  shows "emit_direction ut box e p q len w en ds (i, st) =
     (if w \<noteq> 0 \<and> en \<and> coordinatesToTileLine ut p q box \<noteq> []
      then ([encode_tile_line e (max_datasource_id st) i (coordinatesToTileLine ut p q box)
               (speed_kmh_of ut len w) off ds 0 0], i + 1, st)
      else ([], i, st))"
  using assms by (simp add: emit_direction_def line_offset_lookup_def Let_def)

lemma emit_direction_view:
  assumes "w \<noteq> 0 \<longrightarrow> w \<in> dom (line_int_offsets st)"
  shows "\<exists>fs i'. emit_direction ut box e p q len w en ds (i, st) = (fs, i', st)
     \<and> map feature_view fs = direction_view ut box st e p q len w en ds
     \<and> (\<forall>f\<in>set fs. is_msg FEATURE_TAG f)"
proof (cases "w = 0")
  case True
  then show ?thesis by (simp add: emit_direction_def direction_view_def)
next
  case False
  with assms obtain off where off: "line_int_offsets st w = Some off" by auto
  have len2: "coordinatesToTileLine ut p q box \<noteq> [] \<Longrightarrow> length (coordinatesToTileLine ut p q box) = 2"
    using coordinatesToTileLine_length [of ut p q box] by simp
  show ?thesis
    using off len2
    by (simp add: emit_direction_eq [where off = off] direction_view_def feature_view_line)
       (simp add: encode_tile_line_def)
qed

lemma max_absorb: "(a :: 'a :: linorder) \<le> m \<Longrightarrow> b \<le> m \<Longrightarrow> max (max m a) b = m"
  by (simp add: max_def)

lemma line_edge_ready:
  assumes "line_ready fac st e"
  shows "\<exists>ff rf i'. line_edge dbg mem fac ut box e (i, st) = Inr (ff @ rf, i', st)
     \<and> map feature_view ff = forward_view fac ut box st e
     \<and> map feature_view rf = reverse_view fac ut box st e
     \<and> (\<forall>f\<in>set (ff @ rf). is_msg FEATURE_TAG f)"
proof -
  from assms have fa: "forward_arrays_ok fac e" and ra: "reverse_arrays_ok fac e"
    and m: "forward_datasource_of fac e \<le> max_datasource_id st"
           "reverse_datasource_of fac e \<le> max_datasource_id st"
    and fw: "forward_weight_of fac e \<noteq> 0 \<longrightarrow> forward_weight_of fac e \<in> dom (line_int_offsets st)"
    and rw: "reverse_weight_of fac e \<noteq> 0 \<longrightarrow> reverse_weight_of fac e \<in> dom (line_int_offsets st)"
    by (simp_all add: line_ready_def)
  have rf: "read_forward mem fac e = Inr (forward_weight_of fac e, forward_datasource_of fac e)"
    using fa by (rule read_forward_ok)
  have rr: "read_reverse dbg mem fac e = Inr (reverse_weight_of fac e, reverse_datasource_of fac e)"
    using ra by (rule read_reverse_ok)
  have st1: "st\<lparr>max_datasource_id :=
      max (max (max_datasource_id st) (forward_datasource_of fac e)) (reverse_datasource_of fac e)\<rparr> = st"
    using m by (simp add: max_absorb)
  let ?a = "GetCoordinateOfNode fac (edge_u e)"
  let ?b = "GetCoordinateOfNode fac (edge_v e)"
  let ?len = "haversineDistance ut ?a ?b"
  from emit_direction_view [OF fw, of ut box e ?a ?b ?len "enabled (forward_segment_id e)"
      "forward_datasource_of fac e" i]
  obtain fs1 i1 where f1: "emit_direction ut box e ?a ?b ?len (forward_weight_of fac e)
        (enabled (forward_segment_id e)) (forward_datasource_of fac e) (i, st) = (fs1, i1, st)"
    and v1: "map feature_view fs1 = forward_view fac ut box st e"
    and g1: "\<forall>f\<in>set fs1. is_msg FEATURE_TAG f"
    by (auto simp: forward_view_def)
  from emit_direction_view [OF rw, of ut box e ?b ?a ?len "enabled (reverse_segment_id e)"
      "reverse_datasource_of fac e" i1]
  obtain fs2 i2 where f2: "emit_direction ut box e ?b ?a ?len (reverse_weight_of fac e)
        (enabled (reverse_segment_id e)) (reverse_datasource_of fac e) (i1, st) = (fs2, i2, st)"
    and v2: "map feature_view fs2 = reverse_view fac ut box st e"
    and g2: "\<forall>f\<in>set fs2. is_msg FEATURE_TAG f"
    by (auto simp: reverse_view_def)
  have "line_edge dbg mem fac ut box e (i, st) = Inr (fs1 @ fs2, i2, st)"
    by (simp add: line_edge_def Let_def rf rr st1 f1 f2)
  then show ?thesis using v1 v2 g1 g2 by auto
qed

text \<open>
  The features of the line pass, edge by edge: for each edge the features of its forward
  and of its reverse direction.
\<close>

lemma line_features_ready:
  assumes "\<forall>e\<in>set edges. line_ready fac st e"
  shows "\<exists>parts i'. line_features dbg mem fac ut box edges (i, st)
         = Inr (concat (map (\<lambda>part. fst part @ snd part) parts), i', st)
     \<and> map (\<lambda>part. (map feature_view (fst part), map feature_view (snd part))) parts
         = map (\<lambda>e. (forward_view fac ut box st e, reverse_view fac ut box st e)) edges
     \<and> (\<forall>part\<in>set parts. \<forall>f\<in>set (fst part @ snd part). is_msg FEATURE_TAG f)"
  using assms
proof (induction edges arbitrary: i)
  case Nil
  have "line_features dbg mem fac ut box [] (i, st)
      = Inr (concat (map (\<lambda>part. fst part @ snd part) []), i, st)" by simp
  then show ?case by fastforce
next
  case (Cons e edges)
  from Cons.prems have "line_ready fac st e" by simp
  from line_edge_ready [OF this, of dbg mem ut box i]
  obtain ff rf i1 where e1: "line_edge dbg mem fac ut box e (i, st) = Inr (ff @ rf, i1, st)"
    and v1: "map feature_view ff = forward_view fac ut box st e"
            "map feature_view rf = reverse_view fac ut box st e"
    and g1: "\<forall>f\<in>set (ff @ rf). is_msg FEATURE_TAG f"
    by blast
  from Cons.IH [of i1] Cons.prems
  obtain parts i2 where e2: "line_features dbg mem fac ut box edges (i1, st)
         = Inr (concat (map (\<lambda>part. fst part @ snd part) parts), i2, st)"
    and v2: "map (\<lambda>part. (map feature_view (fst part), map feature_view (snd part))) parts
         = map (\<lambda>e. (forward_view fac ut box st e, reverse_view fac ut box st e)) edges"
    and g2: "\<forall>part\<in>set parts. \<forall>f\<in>set (fst part @ snd part). is_msg FEATURE_TAG f"
    by auto
  have "line_features dbg mem fac ut box (e # edges) (i, st)
      = Inr (concat (map (\<lambda>part. fst part @ snd part) ((ff, rf) # parts)), i2, st)"
    by (simp add: e1 e2)
  moreover have "map (\<lambda>part. (map feature_view (fst part), map feature_view (snd part))) ((ff, rf) # parts)
         = map (\<lambda>e. (forward_view fac ut box st e, reverse_view fac ut box st e)) (e # edges)"
    using v1 v2 by simp
  moreover have "\<forall>part\<in>set ((ff, rf) # parts). \<forall>f\<in>set (fst part @ snd part). is_msg FEATURE_TAG f"
    using g1 g2 by simp
  ultimately show ?case by blast
qed

subsection \<open>From the tally pass to the two layers\<close>

lemma edge_weights_interned:
  assumes "e \<in> set edges"
  shows "forward_weight_of fac e \<noteq> 0 \<longrightarrow> forward_weight_of fac e \<in> set (interned_line_weights fac edges)"
    and "reverse_weight_of fac e \<noteq> 0 \<longrightarrow> reverse_weight_of fac e \<in> set (interned_line_weights fac edges)"
proof -
  have f: "forward_weight_of fac e \<noteq> 0 \<longrightarrow> forward_weight_of fac e \<in> set (edge_line_weights fac e)"
    by (auto simp: edge_line_weights_def forward_weight_of_def)
  have r: "reverse_weight_of fac e \<noteq> 0 \<longrightarrow> reverse_weight_of fac e \<in> set (edge_line_weights fac e)"
    by (auto simp: edge_line_weights_def reverse_weight_of_def)
  show "forward_weight_of fac e \<noteq> 0 \<longrightarrow> forward_weight_of fac e \<in> set (interned_line_weights fac edges)"
    using f assms by (auto simp: interned_line_weights_def)
  show "reverse_weight_of fac e \<noteq> 0 \<longrightarrow> reverse_weight_of fac e \<in> set (interned_line_weights fac edges)"
    using r assms by (auto simp: interned_line_weights_def)
qed

lemma edge_datasources_observed:
  assumes "e \<in> set edges"
  shows "forward_datasource_of fac e \<in> set (observed_datasources fac edges)"
    and "reverse_datasource_of fac e \<in> set (observed_datasources fac edges)"
  using assms by (auto simp: observed_datasources_def)

lemma tally_pass_line_ready:
  assumes "tally_pass dbg mem fac ut edges initial_state = Inr st"
    and ok: "\<forall>e\<in>set edges. forward_arrays_ok fac e \<and> reverse_arrays_ok fac e"
  shows "\<forall>e\<in>set edges. line_ready fac st e"
proof
  fix e assume e: "e \<in> set edges"
  note T = tally_pass_initial [OF assms]
  have "forward_datasource_of fac e \<le> max_datasource_id st"
    "reverse_datasource_of fac e \<le> max_datasource_id st"
    using edge_datasources_observed [OF e, of fac] by (simp_all add: T(4))
  moreover have "forward_arrays_ok fac e" "reverse_arrays_ok fac e" using ok e by simp_all
  ultimately show "line_ready fac st e"
    using edge_weights_interned [OF e, of fac] by (simp add: line_ready_def T(3))
qed

lemma feature_view_point:
  "feature_view (encode_tile_point i pt td :: 'd pbf) = (point_tags td, encodePoint pt)"
  by (simp add: feature_view_def feature_tags_def feature_geometry_def encode_tile_point_def
        packed_field_def point_tags_def encodePoint_def
        FEATURE_ATTRIBUTES_TAG_def FEATURE_GEOMETRIES_TAG_def)

lemma is_msg_encode_tile_point: "is_msg FEATURE_TAG (encode_tile_point i pt td)"
  by (simp add: encode_tile_point_def)

lemma encode_turns_map:
  "map feature_view (fst (encode_turns pt tds i :: 'd pbf list \<times> 32 word))
     = map (\<lambda>turn. (point_tags turn, encodePoint pt)) tds"
proof (induction tds arbitrary: i)
  case Nil
  then show ?case by simp
next
  case (Cons td tds)
  obtain fs n where r: "encode_turns pt tds (i + 1) = (fs :: 'd pbf list, n)"
    by (cases "encode_turns pt tds (i + 1) :: 'd pbf list \<times> 32 word")
  with Cons [of "i + 1"] show ?case by (simp add: feature_view_point)
qed

lemma encode_turns_msgs:
  "(f :: 'd pbf) \<in> set (fst (encode_turns pt tds i)) \<Longrightarrow> is_msg FEATURE_TAG f"
proof (induction tds arbitrary: i)
  case Nil
  then show ?case by simp
next
  case (Cons td tds)
  obtain fs n where r: "encode_turns pt tds (i + 1) = (fs :: 'd pbf list, n)"
    by (cases "encode_turns pt tds (i + 1) :: 'd pbf list \<times> 32 word")
  with Cons.prems Cons.IH [of "i + 1"] show ?case
    by (auto simp: is_msg_encode_tile_point)
qed

lemma point_edge_view:
  "map feature_view (fst (point_edge fac ut box e tds i)) = point_view fac ut box (e, tds)"
  by (simp add: point_edge_def point_view_def ends_at_intersection_def turn_point_def Let_def
        encode_turns_map)

lemma point_edge_msgs: "f \<in> set (fst (point_edge fac ut box e tds i)) \<Longrightarrow> is_msg FEATURE_TAG f"
  by (auto simp: point_edge_def Let_def split: if_splits dest: encode_turns_msgs)

text \<open>The features of the point pass, edge by edge.\<close>

lemma point_features_view:
  assumes "i + length edges \<le> length atd"
  shows "\<exists>parts. point_features mem fac ut box atd edges i fid = Inr (concat parts)
     \<and> map (map feature_view) parts = map (point_view fac ut box) (zip edges (drop i atd))
     \<and> (\<forall>part\<in>set parts. \<forall>f\<in>set part. is_msg FEATURE_TAG f)"
  using assms
proof (induction edges arbitrary: i fid)
  case Nil
  have "point_features mem fac ut box atd [] i fid = Inr (concat [])" by simp
  then show ?case by fastforce
next
  case (Cons e edges)
  then have i: "i < length atd" by simp
  then have at: "vec_at (turn_data_past_end mem) atd i = Inr (atd ! i)" by (rule vec_at_in_range)
  obtain fs1 i1 where pe: "point_edge fac ut box e (atd ! i) fid = (fs1, i1)"
    by (cases "point_edge fac ut box e (atd ! i) fid")
  have v1: "map feature_view fs1 = point_view fac ut box (e, atd ! i)"
    and g1: "\<forall>f\<in>set fs1. is_msg FEATURE_TAG f"
    using point_edge_view [of fac ut box e "atd ! i" fid] point_edge_msgs [of _ fac ut box e "atd ! i" fid] pe
    by simp_all
  from Cons.IH [of "Suc i" i1] Cons.prems
  obtain parts where pf: "point_features mem fac ut box atd edges (Suc i) i1 = Inr (concat parts)"
    and v2: "map (map feature_view) parts = map (point_view fac ut box) (zip edges (drop (Suc i) atd))"
    and g2: "\<forall>part\<in>set parts. \<forall>f\<in>set part. is_msg FEATURE_TAG f"
    by auto
  have d: "drop i atd = atd ! i # drop (Suc i) atd"
    using i by (simp add: Cons_nth_drop_Suc)
  have "point_features mem fac ut box atd (e # edges) i fid = Inr (concat (fs1 # parts))"
    by (simp add: at pe pf)
  moreover have "map (map feature_view) (fs1 # parts)
      = map (point_view fac ut box) (zip (e # edges) (drop i atd))"
    using v1 v2 d by simp
  moreover have "\<forall>part\<in>set (fs1 # parts). \<forall>f\<in>set part. is_msg FEATURE_TAG f"
    using g1 g2 by simp
  ultimately show ?case by blast
qed

subsection \<open>The request and the written layers\<close>

lemma consistent_arrays:
  "request_consistent fac ut p \<Longrightarrow>
   \<forall>e\<in>set (request_edges fac ut p). forward_arrays_ok fac e \<and> reverse_arrays_ok fac e"
  by (auto simp: request_consistent_def list_all_iff)

lemma process_request_tally:
  assumes t: "tally_pass dbg mem fac ut (request_edges fac ut p) initial_state = Inr st"
    and ok: "\<forall>e\<in>set (request_edges fac ut p). forward_arrays_ok fac e \<and> reverse_arrays_ok fac e"
  shows "\<exists>lparts pparts. process_request dbg mem fac ut p
         = Inr (Ok, [speeds_layer fac ut st (concat (map (\<lambda>part. fst part @ snd part) lparts)),
                     turns_layer st (concat pparts)])
     \<and> map (\<lambda>part. (map feature_view (fst part), map feature_view (snd part))) lparts
         = map (\<lambda>e. (forward_view fac ut (request_bbox ut p) st e,
                      reverse_view fac ut (request_bbox ut p) st e)) (request_edges fac ut p)
     \<and> (\<forall>part\<in>set lparts. \<forall>f\<in>set (fst part @ snd part). is_msg FEATURE_TAG f)
     \<and> map (map feature_view) pparts
         = map (point_view fac ut (request_bbox ut p)) (zip (request_edges fac ut p) (all_turn_data st))
     \<and> (\<forall>part\<in>set pparts. \<forall>f\<in>set part. is_msg FEATURE_TAG f)"
proof -
  let ?edges = "request_edges fac ut p"
  let ?box = "request_bbox ut p"
  from line_features_ready [OF tally_pass_line_ready [OF t ok], of dbg mem ut ?box 1]
  obtain lparts i' where lf: "line_features dbg mem fac ut ?box ?edges (1, st)
         = Inr (concat (map (\<lambda>part. fst part @ snd part) lparts), i', st)"
    and lv: "map (\<lambda>part. (map feature_view (fst part), map feature_view (snd part))) lparts
         = map (\<lambda>e. (forward_view fac ut ?box st e, reverse_view fac ut ?box st e)) ?edges"
    and lg: "\<forall>part\<in>set lparts. \<forall>f\<in>set (fst part @ snd part). is_msg FEATURE_TAG f"
    by blast
  have len: "0 + length ?edges \<le> length (all_turn_data st)"
    using tally_pass_initial(5) [OF t ok] by simp
  from point_features_view [OF len, of mem fac ut ?box 1]
  obtain pparts where pf: "point_features mem fac ut ?box (all_turn_data st) ?edges 0 1 = Inr (concat pparts)"
    and pv: "map (map feature_view) pparts = map (point_view fac ut ?box) (zip ?edges (all_turn_data st))"
    and pg: "\<forall>part\<in>set pparts. \<forall>f\<in>set part. is_msg FEATURE_TAG f"
    by auto
  have ll: "line_layer dbg mem fac ut ?box ?edges st
      = Inr (speeds_layer fac ut st (concat (map (\<lambda>part. fst part @ snd part) lparts)), st)"
    by (simp add: line_layer_def lf speeds_layer_def)
  have pl: "point_layer mem fac ut ?box ?edges st = Inr (turns_layer st (concat pparts))"
    by (simp add: point_layer_def pf turns_layer_def)
  have "process_request dbg mem fac ut p
      = Inr (Ok, [speeds_layer fac ut st (concat (map (\<lambda>part. fst part @ snd part) lparts)),
                  turns_layer st (concat pparts)])"
    using t ll pl
    by (simp add: process_request_def request_edges_def request_bbox_def Let_def case_prod_beta)
  then show ?thesis using lv lg pv pg by blast
qed

lemma process_request_Inl:
  "tally_pass dbg mem fac ut (request_edges fac ut p) initial_state = Inl e \<Longrightarrow>
   process_request dbg mem fac ut p = Inl e"
  by (simp add: process_request_def request_edges_def Let_def case_prod_beta)

text \<open>What a request on a consistent facade has written when it returns.\<close>

lemma HandleRequest_Inr:
  assumes "HandleRequest dbg mem fac ut p = Inr (status, tile)" and "request_consistent fac ut p"
  obtains st lparts pparts where "dbg \<longrightarrow> IsValid p"
    and "tally_pass dbg mem fac ut (request_edges fac ut p) initial_state = Inr st"
    and "status = Ok"
    and "tile = [speeds_layer fac ut st (concat (map (\<lambda>part. fst part @ snd part) lparts)),
                 turns_layer st (concat pparts)]"
    and "map (\<lambda>part. (map feature_view (fst part), map feature_view (snd part))) lparts
         = map (\<lambda>e. (forward_view fac ut (request_bbox ut p) st e,
                      reverse_view fac ut (request_bbox ut p) st e)) (request_edges fac ut p)"
    and "\<forall>part\<in>set lparts. \<forall>f\<in>set (fst part @ snd part). is_msg FEATURE_TAG f"
    and "map (map feature_view) pparts
         = map (point_view fac ut (request_bbox ut p)) (zip (request_edges fac ut p) (all_turn_data st))"
    and "\<forall>part\<in>set pparts. \<forall>f\<in>set part. is_msg FEATURE_TAG f"
proof -
  from assms(1) have v: "dbg \<longrightarrow> IsValid p"
    and pr: "process_request dbg mem fac ut p = Inr (status, tile)"
    by (auto simp: HandleRequest_def split: if_splits)
  obtain st where t: "tally_pass dbg mem fac ut (request_edges fac ut p) initial_state = Inr st"
    using pr process_request_Inl [of dbg mem fac ut p]
    by (cases "tally_pass dbg mem fac ut (request_edges fac ut p) initial_state") auto
  from process_request_tally [OF t consistent_arrays [OF assms(2)]] pr that [OF v t]
  show thesis by auto
qed

lemma filter_all: "\<forall>x\<in>set xs. P x \<Longrightarrow> filter P xs = xs"
  by (induction xs) auto

lemma filter_none: "\<forall>x\<in>set xs. \<not> P x \<Longrightarrow> filter P xs = []"
  by (induction xs) auto

lemma msgs_no_strings: "\<forall>f\<in>set fs. is_msg t f \<Longrightarrow> concat (map (string_values tag) fs) = []"
proof (induction fs)
  case Nil
  then show ?case by simp
next
  case (Cons f fs)
  then show ?case by (cases f) auto
qed

lemma msgs_no_uint32s: "\<forall>f\<in>set fs. is_msg t f \<Longrightarrow> concat (map (uint32_values tag) fs) = []"
proof (induction fs)
  case Nil
  then show ?case by simp
next
  case (Cons f fs)
  then show ?case by (cases f) auto
qed

lemma line_values_msgs: "\<forall>f\<in>set (line_values fac ut st). is_msg VARIANT_TAG f"
  by (auto simp: line_values_def)

lemma point_values_msgs: "\<forall>f\<in>set (point_values st). is_msg VARIANT_TAG f"
  by (auto simp: point_values_def)

lemma not_feature_if_variant: "is_msg VARIANT_TAG f \<Longrightarrow> \<not> is_msg FEATURE_TAG f"
  by (cases f) (auto simp: VARIANT_TAG_def FEATURE_TAG_def)

lemma not_variant_if_feature: "is_msg FEATURE_TAG f \<Longrightarrow> \<not> is_msg VARIANT_TAG f"
  by (cases f) (auto simp: VARIANT_TAG_def FEATURE_TAG_def)

lemma speeds_layer_features:
  assumes "\<forall>f\<in>set fs. is_msg FEATURE_TAG f"
  shows "layer_features (speeds_layer fac ut st fs) = fs"
proof -
  have "filter (is_msg FEATURE_TAG) (line_values fac ut st) = []"
    using line_values_msgs [of fac ut st] by (intro filter_none) (auto dest: not_feature_if_variant)
  then show ?thesis
    using assms by (simp add: layer_features_def speeds_layer_def line_keys_def filter_all)
qed

lemma turns_layer_features:
  assumes "\<forall>f\<in>set fs. is_msg FEATURE_TAG f"
  shows "layer_features (turns_layer st fs) = fs"
proof -
  have "filter (is_msg FEATURE_TAG) (point_values st) = []"
    using point_values_msgs [of st] by (intro filter_none) (auto dest: not_feature_if_variant)
  then show ?thesis
    using assms by (simp add: layer_features_def turns_layer_def point_keys_def filter_all)
qed

lemma speeds_layer_values:
  assumes "\<forall>f\<in>set fs. is_msg FEATURE_TAG f"
  shows "layer_values (speeds_layer fac ut st fs) = line_values fac ut st"
proof -
  have "filter (is_msg VARIANT_TAG) fs = []"
    using assms by (intro filter_none) (auto dest: not_variant_if_feature)
  then show ?thesis
    using line_values_msgs [of fac ut st]
    by (simp add: layer_values_def speeds_layer_def line_keys_def filter_all)
qed

lemma speeds_layer_header:
  assumes "\<forall>f\<in>set fs. is_msg FEATURE_TAG f"
  shows "layer_names (speeds_layer fac ut st fs) = [''speeds'']"
    and "layer_versions (speeds_layer fac ut st fs) = [2]"
    and "layer_extents (speeds_layer fac ut st fs) = [4096]"
  by (simp_all add: layer_names_def layer_versions_def layer_extents_def speeds_layer_def
        line_keys_def msgs_no_strings [OF assms] msgs_no_uint32s [OF assms]
        msgs_no_strings [OF line_values_msgs] msgs_no_uint32s [OF line_values_msgs]
        NAME_TAG_def KEY_TAG_def VERSION_TAG_def EXTENT_TAG_def EXTENT_def)

lemma turns_layer_header:
  assumes "\<forall>f\<in>set fs. is_msg FEATURE_TAG f"
  shows "layer_names (turns_layer st fs) = [''turns'']"
    and "layer_versions (turns_layer st fs) = [2]"
    and "layer_extents (turns_layer st fs) = [4096]"
  by (simp_all add: layer_names_def layer_versions_def layer_extents_def turns_layer_def
        point_keys_def msgs_no_strings [OF assms] msgs_no_uint32s [OF assms]
        msgs_no_strings [OF point_values_msgs] msgs_no_uint32s [OF point_values_msgs]
        NAME_TAG_def KEY_TAG_def VERSION_TAG_def EXTENT_TAG_def EXTENT_def)

lemma encodeLinestring_two:
  "length line = 2 \<Longrightarrow> linestring_vertices (fst (snd (encodeLinestring line sx sy))) = Some 2"
proof -
  assume "length line = 2"
  then obtain p q where line: "line = [p, q]"
    by (metis (no_types, opaque_lifting) One_nat_def Suc_1 length_0_conv length_Suc_conv)
  have e: "encode_length 1 = 10"
    by (simp add: encode_length_def)
  have d: "(10 :: 32 word) AND 7 = 2" "unat (drop_bit 3 (10 :: 32 word)) = 1"
    by simp_all
  show ?thesis
    by (simp add: line encodeLinestring_def e d linestring_vertices_def Let_def)
qed

lemma direction_view_two:
  "v \<in> set (direction_view ut box st e p q len w en ds) \<Longrightarrow> linestring_vertices (snd v) = Some 2"
  using coordinatesToTileLine_length [of ut p q box]
  by (auto simp: direction_view_def encodeLinestring_two split: if_splits)

text \<open>The views of the features of the line layer, feature by feature.\<close>

lemma line_parts_view:
  assumes "map (\<lambda>part. (map feature_view (fst part), map feature_view (snd part))) lparts
         = map (\<lambda>e. (forward_view fac ut box st e, reverse_view fac ut box st e)) edges"
  shows "length lparts = length edges"
    and "k < length edges \<Longrightarrow> map feature_view (fst (lparts ! k)) = forward_view fac ut box st (edges ! k)"
    and "k < length edges \<Longrightarrow> map feature_view (snd (lparts ! k)) = reverse_view fac ut box st (edges ! k)"
proof -
  show len: "length lparts = length edges"
    using arg_cong [OF assms, of length] by simp
  assume k: "k < length edges"
  have "(map (\<lambda>part. (map feature_view (fst part), map feature_view (snd part))) lparts) ! k
      = (map (\<lambda>e. (forward_view fac ut box st e, reverse_view fac ut box st e)) edges) ! k"
    by (simp only: assms)
  then show "map feature_view (fst (lparts ! k)) = forward_view fac ut box st (edges ! k)"
    and "map feature_view (snd (lparts ! k)) = reverse_view fac ut box st (edges ! k)"
    using k len by simp_all
qed

lemma line_feature_cases:
  assumes "map (\<lambda>part. (map feature_view (fst part), map feature_view (snd part))) lparts
         = map (\<lambda>e. (forward_view fac ut box st e, reverse_view fac ut box st e)) edges"
    and "f \<in> set (concat (map (\<lambda>part. fst part @ snd part) lparts))"
  shows "\<exists>e\<in>set edges. feature_view f \<in> set (forward_view fac ut box st e)
                       \<or> feature_view f \<in> set (reverse_view fac ut box st e)"
proof -
  from assms(2) obtain part where part: "part \<in> set lparts" and f: "f \<in> set (fst part) \<or> f \<in> set (snd part)"
    by auto
  from part obtain k where k: "k < length lparts" "part = lparts ! k"
    by (auto simp: in_set_conv_nth)
  note V = line_parts_view [OF assms(1)]
  have ke: "k < length edges" using k V(1) by simp
  have "feature_view f \<in> set (map feature_view (fst part)) \<or> feature_view f \<in> set (map feature_view (snd part))"
    using f by auto
  then have "feature_view f \<in> set (forward_view fac ut box st (edges ! k))
      \<or> feature_view f \<in> set (reverse_view fac ut box st (edges ! k))"
    using V(2,3) [OF ke] k(2) by simp
  then show ?thesis using ke by (meson nth_mem)
qed

lemma direction_view_length:
  "length (direction_view ut box st e p q len w en ds)
     = (if w \<noteq> 0 \<and> en \<and> coordinatesToTileLine ut p q box \<noteq> [] then 1 else 0)"
  by (simp add: direction_view_def)

lemma direction_view_geometry:
  "v \<in> set (direction_view ut box st e p q len w en ds) \<Longrightarrow>
     snd v = fst (snd (encodeLinestring (coordinatesToTileLine ut p q box) 0 0))"
  by (auto simp: direction_view_def split: if_splits)

lemma point_parts_view:
  assumes "map (map feature_view) pparts = map (point_view fac ut box) (zip edges atd)"
    and "length atd = length edges"
  shows "length pparts = length edges"
    and "k < length edges \<Longrightarrow> map feature_view (pparts ! k) = point_view fac ut box (edges ! k, atd ! k)"
proof -
  show len: "length pparts = length edges"
    using arg_cong [OF assms(1), of length] assms(2) by simp
  assume k: "k < length edges"
  have "(map (map feature_view) pparts) ! k = (map (point_view fac ut box) (zip edges atd)) ! k"
    by (simp only: assms(1))
  then show "map feature_view (pparts ! k) = point_view fac ut box (edges ! k, atd ! k)"
    using k len assms(2) by simp
qed

lemma singleton_concat: "length parts = 1 \<Longrightarrow> concat parts = parts ! 0"
  by (cases parts) auto

text \<open>The offset of an interned weight is its place in the vector of the table.\<close>

lemma offset_of_nth:
  assumes "x \<in> set xs"
  shows "offset_of xs x < length xs" and "xs ! offset_of xs x = x"
proof -
  have "takeWhile (\<lambda>y. y \<noteq> x) xs \<noteq> xs"
    using assms by (auto simp: takeWhile_eq_all_conv)
  moreover have "length (takeWhile (\<lambda>y. y \<noteq> x) xs) \<le> length xs"
    by (rule length_takeWhile_le)
  ultimately show l: "offset_of xs x < length xs"
    unfolding offset_of_def
    by (metis le_neq_implies_less takeWhile_eq_take take_all_iff order_refl)
  from nth_length_takeWhile [of "\<lambda>y. y \<noteq> x" xs] l show "xs ! offset_of xs x = x"
    by (simp add: offset_of_def)
qed

lemma table_ok_offset_of:
  assumes "table_ok ints offs" and "offs w = Some i"
  shows "offset_of ints w = i"
proof -
  from assms have i: "i < length ints" "ints ! i = w" by (simp_all add: table_ok_def)
  then have "w \<in> set ints" by auto
  note O = offset_of_nth [OF this]
  have "ints ! offset_of ints w = ints ! i" using O(2) i(2) by simp
  with table_ok_distinct [OF assms(1)] O(1) i(1) show ?thesis
    by (simp add: nth_eq_iff_index_eq)
qed

lemma direction_view_tags_eq:
  assumes "table_ok (used_line_ints st) (line_int_offsets st)"
    and "w \<noteq> 0 \<longrightarrow> w \<in> dom (line_int_offsets st)"
  shows "map fst (direction_view ut box st e p q len w en ds) =
     (if w \<noteq> 0 \<and> en \<and> coordinatesToTileLine ut p q box \<noteq> []
      then [line_tags e (max_datasource_id st) (speed_kmh_of ut len w)
              (offset_of (used_line_ints st) w) ds]
      else [])"
proof (cases "w = 0")
  case True
  then show ?thesis by (simp add: direction_view_def)
next
  case False
  with assms(2) obtain i where i: "line_int_offsets st w = Some i" by auto
  from table_ok_offset_of [OF assms(1) i] i show ?thesis
    by (simp add: direction_view_def)
qed

lemma map_feature_tags: "map feature_tags fs = map fst (map feature_view fs)"
  by (simp add: feature_view_def)

subsection \<open>Requests that return\<close>

lemma collect_c_nodes_total:
  "list_all (shortcut_ok fac e) adjs \<Longrightarrow> \<exists>c. collect_c_nodes mem fac e sw adjs c0 = Inr c"
proof (induction adjs arbitrary: c0)
  case Nil
  then show ?case by simp
next
  case (Cons adj adjs)
  then have ok: "shortcut_ok fac e adj" and rest: "list_all (shortcut_ok fac e) adjs" by simp_all
  show ?case
    using ok Cons.IH [OF rest]
    by (auto simp: shortcut_ok_def vec_at_def Let_def)
qed

lemma reconstruct_turns_total:
  assumes "list_all (shortcut_ok fac e) (GetAdjacentEdgeRange fac (seg_id (forward_segment_id e)))"
  shows "\<exists>r. reconstruct_turns mem fac ut e fwv fnv st = Inr r"
proof -
  from collect_c_nodes_total [OF assms, of mem "foldl (+) 0 fwv" "[]"]
  obtain c where "collect_c_nodes mem fac e (foldl (+) 0 fwv)
      (GetAdjacentEdgeRange fac (seg_id (forward_segment_id e))) [] = Inr c" by blast
  then show ?thesis
    by (simp add: reconstruct_turns_def Let_def case_prod_beta)
qed

lemma tally_forward_total:
  assumes "forward_arrays_ok fac e" and "shortcuts_ok fac e"
  shows "\<exists>r. tally_forward mem fac ut e st = Inr r"
proof (cases "forward_packed_geometry_id e = SPECIAL_EDGEID")
  case True
  then show ?thesis by (simp add: tally_forward_def)
next
  case False
  with assms(1) have a: "unat (fwd_segment_position e)
           < length (GetUncompressedWeights fac (forward_packed_geometry_id e))"
        "unat (fwd_segment_position e)
           < length (GetUncompressedDatasources fac (forward_packed_geometry_id e))"
    by (simp_all add: forward_arrays_ok_def)
  show ?thesis
  proof (cases "ends_at_intersection fac e")
    case True
    with False assms(2)
    have "list_all (shortcut_ok fac e) (GetAdjacentEdgeRange fac (seg_id (forward_segment_id e)))"
      by (simp add: shortcuts_ok_def)
    from reconstruct_turns_total [OF this]
    obtain r where "reconstruct_turns mem fac ut e (GetUncompressedWeights fac (forward_packed_geometry_id e))
        (GetUncompressedGeometry fac (forward_packed_geometry_id e))
        (use_line_value (GetUncompressedWeights fac (forward_packed_geometry_id e)
                           ! unat (fwd_segment_position e)) st) = Inr r"
      by blast
    then show ?thesis
      using False a True
      by (simp add: tally_forward_def vec_at_def Let_def ends_at_intersection_def case_prod_beta)
  next
    case no: False
    then show ?thesis
      using False a
      by (simp add: tally_forward_def vec_at_def Let_def ends_at_intersection_def)
  qed
qed

lemma tally_edge_total:
  assumes "forward_arrays_ok fac e" and "reverse_arrays_ok fac e" and "shortcuts_ok fac e"
  shows "\<exists>st'. tally_edge dbg mem fac ut e st = Inr st'"
proof -
  from tally_forward_total [OF assms(1,3)]
  obtain ds tds st1 where f: "tally_forward mem fac ut e st = Inr (ds, tds, st1)"
    by (metis prod_cases3)
  have "\<exists>r. tally_reverse dbg mem fac e st1 = Inr r"
    using assms(2) by (simp add: tally_reverse_ok)
  then show ?thesis
    using f by (auto simp: tally_edge_def)
qed

lemma tally_pass_total:
  assumes "list_all (\<lambda>e. forward_arrays_ok fac e \<and> reverse_arrays_ok fac e \<and> shortcuts_ok fac e) edges"
  shows "\<exists>st'. tally_pass dbg mem fac ut edges st = Inr st'"
  using assms
proof (induction edges arbitrary: st)
  case Nil
  then show ?case by simp
next
  case (Cons e edges)
  then have "forward_arrays_ok fac e" "reverse_arrays_ok fac e" "shortcuts_ok fac e"
    and rest: "list_all (\<lambda>e. forward_arrays_ok fac e \<and> reverse_arrays_ok fac e \<and> shortcuts_ok fac e) edges"
    by simp_all
  from tally_edge_total [OF this(1,2,3), of dbg mem ut st]
  obtain st1 where "tally_edge dbg mem fac ut e st = Inr st1" by blast
  then show ?case using Cons.IH [OF rest, of st1] by simp
qed

text \<open>A valid request on a consistent facade returns.\<close>

lemma HandleRequest_returns:
  assumes "dbg \<longrightarrow> IsValid p" and "request_consistent fac ut p"
  shows "\<exists>tile. HandleRequest dbg mem fac ut p = Inr (Ok, tile)"
proof -
  from tally_pass_total [of fac "request_edges fac ut p" dbg mem ut initial_state] assms(2)
  obtain st where "tally_pass dbg mem fac ut (request_edges fac ut p) initial_state = Inr st"
    by (auto simp: request_consistent_def)
  from process_request_tally [OF this consistent_arrays [OF assms(2)]] assms(1) show ?thesis
    by (auto simp: HandleRequest_def)
qed

text \<open>The only status that a request returns is \<open>Ok\<close>.\<close>

lemma process_request_status:
  "process_request dbg mem fac ut p = Inr (status, tile) \<Longrightarrow> status = Ok \<and> length tile = 2"
  by (auto simp: process_request_def Let_def case_prod_beta split: sum.splits)

lemma HandleRequest_status:
  "HandleRequest dbg mem fac ut p = Inr (status, tile) \<Longrightarrow> status = Ok \<and> length tile = 2"
  by (auto simp: HandleRequest_def split: if_splits dest: process_request_status)

lemma HandleRequest_never_Error: "HandleRequest dbg mem fac ut p \<noteq> Inr (Error, tile)"
  using HandleRequest_status [of dbg mem fac ut p Error tile] by auto

subsection \<open>Reads after the end of an array\<close>

















subsection \<open>The table of next nodes\<close>

lemma collect_c_nodes_fold:
  assumes "list_all (shortcut_ok fac e) adjs"
  shows "collect_c_nodes mem fac e sw adjs c0
    = Inr (fold (\<lambda>entry. emplace (fst entry) (snd entry))
             (List.map_filter (shortcut_turn fac e sw) adjs) c0)"
  using assms
proof (induction adjs arbitrary: c0)
  case Nil
  then show ?case by (simp add: List.map_filter_simps)
next
  case (Cons adj adjs)
  then have ok: "shortcut_ok fac e adj" and rest: "list_all (shortcut_ok fac e) adjs" by simp_all
  note IH = Cons.IH [OF rest]
  let ?un = "UnpackEdgeToEdges fac (seg_id (forward_segment_id e)) (GetTarget fac adj)"
  show ?case
  proof (cases "forward (GetEdgeData fac adj) \<and> 2 \<le> length ?un")
    case False
    then have "shortcut_turn fac e sw adj = None" by (auto simp: shortcut_turn_def Let_def)
    then show ?thesis using False IH by (auto simp: List.map_filter_simps Let_def)
  next
    case True
    with ok obtain front others where g: "GetUncompressedGeometry fac
          (GetGeometryIndexForEdgeID fac (edge_id (?un ! 1))) = front # others"
      by (auto simp: shortcut_ok_def neq_Nil_conv)
    have "shortcut_turn fac e sw adj = Some (front, distance (?un ! 0) - sw)"
      using True g by (simp add: shortcut_turn_def Let_def)
    then show ?thesis using True g IH by (simp add: List.map_filter_simps vec_at_def Let_def)
  qed
qed

lemma emplace_eq:
  "emplace k val m = (if map_of m k = None then m @ [(k, val)] else m)"
  by (auto simp: emplace_def split: option.splits)

lemma fold_emplace_map_of:
  "map_of (fold (\<lambda>entry. emplace (fst entry) (snd entry)) ps c0) = map_of (c0 @ ps)"
proof (induction ps arbitrary: c0)
  case Nil
  then show ?case by simp
next
  case (Cons x ps)
  show ?case
  proof (cases "map_of c0 (fst x)")
    case None
    then show ?thesis using Cons [of "c0 @ [x]"] by (simp add: emplace_eq)
  next
    case (Some y)
    have "map_of (c0 @ x # ps) = map_of (c0 @ ps)"
    proof
      fix k show "map_of (c0 @ x # ps) k = map_of (c0 @ ps) k"
        using Some by (cases x) (auto simp: map_add_def split: option.splits)
    qed
    then show ?thesis using Some Cons [of c0] by (simp add: emplace_eq)
  qed
qed

lemma fold_emplace_distinct:
  "distinct (map fst c0) \<Longrightarrow> distinct (map fst (fold (\<lambda>entry. emplace (fst entry) (snd entry)) ps c0))"
proof (induction ps arbitrary: c0)
  case Nil
  then show ?case by simp
next
  case (Cons x ps)
  have "distinct (map fst (emplace (fst x) (snd x) c0))"
    using Cons.prems by (auto simp: emplace_eq map_of_eq_None_iff)
  from Cons.IH [OF this] show ?case by simp
qed

lemma distinct_key_filter:
  "distinct (map fst c) \<Longrightarrow> map_of c n = Some w \<Longrightarrow> filter (\<lambda>entry. fst entry = n) c = [(n, w)]"
proof (induction c)
  case Nil
  then show ?case by simp
next
  case (Cons x c)
  show ?case
  proof (cases "fst x = n")
    case True
    with Cons.prems have "x = (n, w)" by (cases x) simp
    moreover have "filter (\<lambda>entry. fst entry = n) c = []"
    proof -
      have "n \<notin> fst ` set c" using Cons.prems(1) True by simp
      then have "\<forall>entry\<in>set c. fst entry \<noteq> n" by auto
      then show ?thesis by (simp add: filter_empty_conv)
    qed
    ultimately show ?thesis by simp
  next
    case False
    with Cons show ?thesis by (cases x) auto
  qed
qed

lemma first_retained_map_of:
  assumes "n \<notin> fst ` set before"
  shows "map_of (before @ (n, w) # after) n = Some w"
proof -
  have "map_of before n = None" using assms by (simp add: map_of_eq_None_iff)
  then show ?thesis by (simp add: map_add_def)
qed

lemma c_nodes_iteration_perm: "mset (c_nodes_iteration ut c) = mset c"
  by (simp add: c_nodes_iteration_def)

lemma c_nodes_iteration_facts:
  shows "length (c_nodes_iteration ut c) = length c"
    and "set (c_nodes_iteration ut c) = set c"
    and "distinct (map fst c) \<Longrightarrow> distinct (map fst (c_nodes_iteration ut c))"
proof -
  show "length (c_nodes_iteration ut c) = length c"
    using arg_cong [OF c_nodes_iteration_perm [of ut c], of size] by simp
  show "set (c_nodes_iteration ut c) = set c"
    using arg_cong [OF c_nodes_iteration_perm [of ut c], of set_mset] by simp
  assume d: "distinct (map fst c)"
  have "mset (map fst (c_nodes_iteration ut c)) = mset (map fst c)"
    using arg_cong [OF c_nodes_iteration_perm [of ut c], of "image_mset fst"] by simp
  then show "distinct (map fst (c_nodes_iteration ut c))"
    using d by (metis mset_eq_imp_distinct_iff)
qed

lemma turn_records_stable:
  "turn_records fac ut cb ain c st = (tds, st') \<Longrightarrow> point_int_offsets st w = Some j \<Longrightarrow>
     point_int_offsets st' w = Some j"
proof (induction c arbitrary: st tds st')
  case Nil
  then show ?case by simp
next
  case (Cons x c)
  obtain o1 s1 where u1: "use_point_value (ucast (bearing ut cb (GetCoordinateOfNode fac (fst x)))) st = (o1, s1)"
    by (cases "use_point_value (ucast (bearing ut cb (GetCoordinateOfNode fac (fst x)))) st")
  obtain o2 s2 where u2: "use_point_value (snd x) s1 = (o2, s2)"
    by (cases "use_point_value (snd x) s1")
  obtain t3 s3 where u3: "turn_records fac ut cb ain c s2 = (t3, s3)"
    by (cases "turn_records fac ut cb ain c s2")
  from Cons.prems(1) u1 u2 u3 have eq: "st' = s3" by (simp add: Let_def)
  have "point_int_offsets s1 w = Some j"
    using use_point_value_stable [OF Cons.prems(2), of "ucast (bearing ut cb (GetCoordinateOfNode fac (fst x)))"] u1
    by simp
  then have "point_int_offsets s2 w = Some j"
    using use_point_value_stable [of s1 w j "snd x"] u2 by simp
  from Cons.IH [OF u3 this] eq show ?case by simp
qed

lemma turn_records_weights:
  assumes "turn_records fac ut cb ain c st = (tds, st')"
    and "table_ok (used_point_ints st) (point_int_offsets st)"
  shows "length tds = length c
    \<and> (\<forall>k<length c. weight_offset (tds ! k) < length (used_point_ints st')
          \<and> used_point_ints st' ! weight_offset (tds ! k) = snd (c ! k))"
  using assms
proof (induction c arbitrary: st tds st')
  case Nil
  then show ?case by simp
next
  case (Cons x c)
  obtain o1 s1 where u1: "use_point_value (ucast (bearing ut cb (GetCoordinateOfNode fac (fst x)))) st = (o1, s1)"
    by (cases "use_point_value (ucast (bearing ut cb (GetCoordinateOfNode fac (fst x)))) st")
  obtain o2 s2 where u2: "use_point_value (snd x) s1 = (o2, s2)"
    by (cases "use_point_value (snd x) s1")
  obtain t3 s3 where u3: "turn_records fac ut cb ain c s2 = (t3, s3)"
    by (cases "turn_records fac ut cb ain c s2")
  from Cons.prems(1) u1 u2 u3 have eq: "st' = s3"
    and tds: "tds = \<lparr>in_angle_offset = ain, out_angle_offset = o1, weight_offset = o2\<rparr> # t3"
    by (simp_all add: Let_def)
  have ok1: "table_ok (used_point_ints s1) (point_int_offsets s1)"
    using use_point_value_ok [OF Cons.prems(2), of "ucast (bearing ut cb (GetCoordinateOfNode fac (fst x)))"] u1
    by simp
  have ok2: "table_ok (used_point_ints s2) (point_int_offsets s2)"
    using use_point_value_ok [OF ok1, of "snd x"] u2 by simp
  have "point_int_offsets s2 (snd x) = Some o2"
    using use_point_value_offset [OF ok1, of "snd x"] u2 by simp
  from turn_records_stable [OF u3 this] have off: "point_int_offsets s3 (snd x) = Some o2" .
  have ok3: "table_ok (used_point_ints s3) (point_int_offsets s3)"
    using turn_records_ok [OF u3 ok2] .
  from off ok3 have head: "o2 < length (used_point_ints s3) \<and> used_point_ints s3 ! o2 = snd x"
    by (simp add: table_ok_def)
  from Cons.IH [OF u3 ok2] have IH: "length t3 = length c"
    "\<forall>k<length c. weight_offset (t3 ! k) < length (used_point_ints s3)
          \<and> used_point_ints s3 ! weight_offset (t3 ! k) = snd (c ! k)"
    by simp_all
  show ?case
    unfolding eq tds using head IH by (auto simp: nth_Cons split: nat.splits)
qed

subsection \<open>The small road network, evaluated\<close>

lemma demo_request_edges: "request_edges (demo_facade edges) ut p = edges"
  by (simp add: request_edges_def demo_facade_def)

lemma demo_valid: "IsValid demo_params"
  by (simp add: IsValid_def demo_params_def)

lemma demo_is_last: "ends_at_intersection (demo_facade edges) demo_edge"
  by (simp add: ends_at_intersection_def is_last_segment_def size_t_sub_def demo_facade_def demo_edge_def)

lemma demo_consistent: "request_consistent (demo_facade [demo_edge]) ut p"
  by (simp add: request_consistent_def demo_request_edges)
     (simp add: forward_arrays_ok_def reverse_arrays_ok_def shortcuts_ok_def shortcut_ok_def
        demo_facade_def demo_edge_def SPECIAL_EDGEID_def)

lemma demo_forward: "forward_weight_of (demo_facade edges) demo_edge = 100"
  "forward_datasource_of (demo_facade edges) demo_edge = 1"
  by (simp_all add: forward_weight_of_def forward_datasource_of_def demo_facade_def demo_edge_def
        SPECIAL_EDGEID_def)

lemma demo_reverse: "reverse_weight_of (demo_facade edges) demo_edge = 50"
  "reverse_datasource_of (demo_facade edges) demo_edge = 2"
  by (simp_all add: reverse_weight_of_def reverse_datasource_of_def demo_facade_def demo_edge_def
        SPECIAL_EDGEID_def reverse_index_def size_t_sub_def)

lemma demo_weights: "interned_line_weights (demo_facade edges) [demo_edge] = [100, 50]"
  by (simp add: interned_line_weights_def edge_line_weights_def demo_forward demo_reverse)
     (simp add: demo_edge_def SPECIAL_EDGEID_def)

lemma demo_datasources: "observed_datasources (demo_facade edges) [demo_edge] = [1, 2]"
  by (simp add: observed_datasources_def demo_forward demo_reverse)

lemma demo_line: "coordinatesToTileLine demo_util (0, 0) (1, 0) box = [(0, 0), (1, 0)]"
  "coordinatesToTileLine demo_util (1, 0) (0, 0) box = [(1, 0), (0, 0)]"
  by (simp_all add: coordinatesToTileLine_def demo_util_def)

lemma demo_coordinates: "GetCoordinateOfNode (demo_facade edges) n = (int n, 0)"
  by (simp add: demo_facade_def)

lemma demo_edge_fields: "edge_u demo_edge = 0" "edge_v demo_edge = 1"
  "enabled (forward_segment_id demo_edge)" "enabled (reverse_segment_id demo_edge)"
  "\<not> is_tiny demo_edge"
  by (simp_all add: demo_edge_def)

lemma outside_line: "coordinatesToTileLine demo_util_outside start target box = []"
  by (simp add: coordinatesToTileLine_def demo_util_outside_def)

lemma demo_speed:
  "d_to_uint32 demo_util (d_round demo_util (d_mul demo_util (d_mul demo_util
      (d_div demo_util (haversineDistance demo_util a b) (d_of_int demo_util 100))
      (d_of_int demo_util 10)) (d_3_6 demo_util))) = 36"
  "d_to_uint32 demo_util (d_round demo_util (d_mul demo_util (d_mul demo_util
      (d_div demo_util (haversineDistance demo_util a b) (d_of_int demo_util 50))
      (d_of_int demo_util 10)) (d_3_6 demo_util))) = 72"
  by (simp_all add: demo_util_def)

lemma demo_c_nodes:
  "collect_c_nodes mem (demo_facade edges) demo_edge 100 [20, 21] [] = Inr [(2, 7)]"
  by (simp add: demo_facade_def demo_edge_def emplace_def vec_at_def Let_def)

lemma demo_tally:
  "map_sum id (\<lambda>st. (used_point_ints st, all_turn_data st))
     (tally_pass dbg mem (demo_facade edges) demo_util [demo_edge] initial_state)
   = Inr ([90, 7], [[\<lparr>in_angle_offset = 0, out_angle_offset = 0, weight_offset = 1\<rparr>]])"
  by (simp add: tally_edge_def tally_forward_def tally_reverse_def vec_at_def
        is_last_segment_def reverse_index_def size_t_sub_def SPECIAL_EDGEID_def
        reconstruct_turns_def demo_facade_def demo_edge_def demo_util_def
        use_point_value_def use_line_value_def initial_state_def Let_def emplace_def
        c_nodes_iteration_def)

lemma demo_turn_point:
  "coordinatesToTilePoint demo_util (GetCoordinateOfNode (demo_facade edges) (edge_v demo_edge)) box = (1, 0)"
  by (simp add: coordinatesToTilePoint_def demo_util_def demo_facade_def demo_edge_def)

lemma demo_within: "within_clip_box demo_util (1, 0)"
  by (simp add: within_clip_box_def demo_util_def EXTENT_def)

lemma demo_encodePoint: "encodePoint (1, 0) = [9, 2, 0]"
  by (simp add: encodePoint_def encode_zigzag32_def)


lemma demo_invalid: "\<not> IsValid demo_invalid_params"
  by (simp add: IsValid_def demo_invalid_params_def)

lemma demo_retained: "retained_turns (demo_facade edges) demo_edge = [(2, 7), (2, 9)]"
  by (simp add: retained_turns_def List.map_filter_simps shortcut_turn_def demo_facade_def
        demo_edge_def Let_def)

lemma demo_shortcuts_ok:
  "list_all (shortcut_ok (demo_facade edges) demo_edge)
     (GetAdjacentEdgeRange (demo_facade edges) (seg_id (forward_segment_id demo_edge)))"
  by (simp add: shortcut_ok_def demo_facade_def demo_edge_def)



subsection \<open>Two shortcuts to the same next node\<close>

text \<open>
  Claim C1, amended. Where the adjacent shortcuts of an edge are in order, the turn table
  is in order, and the first retained shortcut that leads to the next node \<open>n\<close> gives
  the turn weight \<open>w\<close> (whatever weights later shortcuts to \<open>n\<close> give), the table
  \<^verbatim>\<open>c_nodes\<close> has exactly one entry for \<open>n\<close>, and it holds \<open>w\<close>: the first weight
  stays. One turn record is produced for each entry of the table, so exactly one for
  \<open>n\<close>, and its weight offset is the place of \<open>w\<close> among the interned turn values.
\<close>

theorem first_turn_weight_wins:
  assumes "list_all (shortcut_ok fac e) (GetAdjacentEdgeRange fac (seg_id (forward_segment_id e)))"
    and "table_ok (used_point_ints st) (point_int_offsets st)"
    and "retained_turns fac e = before @ (n, w) # after"
    and "n \<notin> fst ` set before"
  shows "\<exists>c_nodes tds st'.
      collect_c_nodes mem fac e
          (foldl (+) 0 (GetUncompressedWeights fac (forward_packed_geometry_id e)))
          (GetAdjacentEdgeRange fac (seg_id (forward_segment_id e))) [] = Inr c_nodes
    \<and> reconstruct_turns mem fac ut e (GetUncompressedWeights fac (forward_packed_geometry_id e))
          forward_node_vector st = Inr (tds, st')
    \<and> filter (\<lambda>entry. fst entry = n) c_nodes = [(n, w)]
    \<and> length tds = length c_nodes
    \<and> (\<exists>!k. k < length tds \<and> fst (c_nodes_iteration ut c_nodes ! k) = n)
    \<and> (\<forall>k<length tds. fst (c_nodes_iteration ut c_nodes ! k) = n \<longrightarrow>
          weight_offset (tds ! k) < length (used_point_ints st')
          \<and> used_point_ints st' ! weight_offset (tds ! k) = w)"
proof -
  let ?sw = "foldl (+) 0 (GetUncompressedWeights fac (forward_packed_geometry_id e))"
  let ?adjs = "GetAdjacentEdgeRange fac (seg_id (forward_segment_id e))"
  define c where "c = fold (\<lambda>entry. emplace (fst entry) (snd entry)) (retained_turns fac e) []"
  let ?it = "c_nodes_iteration ut c"
  have col: "collect_c_nodes mem fac e ?sw ?adjs [] = Inr c"
    using collect_c_nodes_fold [OF assms(1), of mem ?sw "[]"] by (simp add: c_def retained_turns_def)
  have mo: "map_of c n = Some w"
    unfolding c_def fold_emplace_map_of using first_retained_map_of [OF assms(4)] assms(3) by simp
  have dc: "distinct (map fst c)"
    unfolding c_def by (rule fold_emplace_distinct) simp
  have fil: "filter (\<lambda>entry. fst entry = n) c = [(n, w)]"
    using dc mo by (rule distinct_key_filter)
  then have ne: "c \<noteq> []" by auto
  define coord_a where "coord_a = GetCoordinateOfNode fac
            (if length forward_node_vector > 1
             then forward_node_vector ! (length forward_node_vector - 2)
             else edge_u e)"
  define coord_b where "coord_b = GetCoordinateOfNode fac (edge_v e)"
  obtain off1 st1 where u1: "use_point_value (ucast (bearing ut coord_a coord_b)) st = (off1, st1)"
    by (cases "use_point_value (ucast (bearing ut coord_a coord_b)) st")
  obtain tds st' where tr: "turn_records fac ut coord_b off1 ?it st1 = (tds, st')"
    by (cases "turn_records fac ut coord_b off1 ?it st1")
  have rec: "reconstruct_turns mem fac ut e (GetUncompressedWeights fac (forward_packed_geometry_id e))
          forward_node_vector st = Inr (tds, st')"
    using col ne u1 tr by (simp add: reconstruct_turns_def Let_def coord_a_def coord_b_def)
  have ok1: "table_ok (used_point_ints st1) (point_int_offsets st1)"
    using use_point_value_ok [OF assms(2), of "ucast (bearing ut coord_a coord_b)"] u1 by simp
  note I = c_nodes_iteration_facts [where ut = ut and c = c]
  from turn_records_weights [OF tr ok1]
  have len: "length tds = length c"
    and wts: "\<forall>k<length ?it. weight_offset (tds ! k) < length (used_point_ints st')
          \<and> used_point_ints st' ! weight_offset (tds ! k) = snd (?it ! k)"
    by (simp_all add: I(1))
  have key: "snd (?it ! k) = w" if "k < length tds" "fst (?it ! k) = n" for k
  proof -
    from that(1) have "?it ! k \<in> set c" using I(1,2) len by (metis nth_mem)
    with that(2) have "?it ! k \<in> set (filter (\<lambda>entry. fst entry = n) c)" by simp
    then show ?thesis by (simp add: fil)
  qed
  have ex: "\<exists>k. k < length tds \<and> fst (?it ! k) = n"
  proof -
    have "(n, w) \<in> set (filter (\<lambda>entry. fst entry = n) c)" by (simp add: fil)
    then have "(n, w) \<in> set ?it" using I(2) by simp
    then obtain k where "k < length ?it" "?it ! k = (n, w)" by (auto simp: in_set_conv_nth)
    then show ?thesis using I(1) len by auto
  qed
  have uniq: "k = k'" if "k < length tds" "fst (?it ! k) = n" "k' < length tds" "fst (?it ! k') = n" for k k'
  proof -
    have d: "distinct (map fst ?it)" using I(3) [OF dc] .
    have lk: "k < length (map fst ?it)" "k' < length (map fst ?it)" using that I(1) len by simp_all
    have eq: "map fst ?it ! k = map fst ?it ! k'" using that I(1) len by simp
    from iffD1 [OF nth_eq_iff_index_eq [OF d lk] eq] show ?thesis .
  qed
  have ex1: "\<exists>!k. k < length tds \<and> fst (?it ! k) = n"
    using ex uniq by blast
  have all: "\<forall>k<length tds. fst (?it ! k) = n \<longrightarrow>
          weight_offset (tds ! k) < length (used_point_ints st')
          \<and> used_point_ints st' ! weight_offset (tds ! k) = w"
    using wts key I(1) len by auto
  from col rec fil len ex1 all show ?thesis by blast
qed

theorem first_turn_weight_wins_witness:
  "list_all (shortcut_ok (demo_facade []) demo_edge)
     (GetAdjacentEdgeRange (demo_facade []) (seg_id (forward_segment_id demo_edge)))
   \<and> table_ok (used_point_ints initial_state) (point_int_offsets initial_state)
   \<and> retained_turns (demo_facade []) demo_edge = [] @ (2, 7) # [(2, 9)]
   \<and> 2 \<notin> fst ` set ([] :: (nat \<times> 32 word) list)
   \<and> (\<exists>(c_nodes :: (nat \<times> 32 word) list) tds st'.
        reconstruct_turns demo_memory (demo_facade []) demo_util demo_edge
          (GetUncompressedWeights (demo_facade []) (forward_packed_geometry_id demo_edge)) [1]
          initial_state = Inr (tds, st')
        \<and> filter (\<lambda>entry. fst entry = 2) c_nodes = [(2, 7)]
        \<and> length tds = length c_nodes)"
proof -
  have t: "table_ok (used_point_ints initial_state) (point_int_offsets initial_state)"
    by (simp add: initial_state_def table_ok_def)
  have r: "retained_turns (demo_facade []) demo_edge = [] @ (2, 7) # [(2, 9)]"
    by (simp add: demo_retained)
  have n: "2 \<notin> fst ` set ([] :: (nat \<times> 32 word) list)" by simp
  from first_turn_weight_wins [OF demo_shortcuts_ok t r n, of demo_memory demo_util "[1]"]
  obtain c_nodes :: "(nat \<times> 32 word) list" and tds st'
    where a: "reconstruct_turns demo_memory (demo_facade []) demo_util demo_edge
          (GetUncompressedWeights (demo_facade []) (forward_packed_geometry_id demo_edge)) [1]
          initial_state = Inr (tds, st')"
      and b: "filter (\<lambda>entry. fst entry = 2) c_nodes = [(2, 7)]"
      and c: "length tds = length c_nodes"
    by (elim exE conjE)
  from a b c have "\<exists>(c_nodes :: (nat \<times> 32 word) list) tds st'.
        reconstruct_turns demo_memory (demo_facade []) demo_util demo_edge
          (GetUncompressedWeights (demo_facade []) (forward_packed_geometry_id demo_edge)) [1]
          initial_state = Inr (tds, st')
        \<and> filter (\<lambda>entry. fst entry = 2) c_nodes = [(2, 7)]
        \<and> length tds = length c_nodes"
    by (intro exI [of _ c_nodes] exI [of _ tds] exI [of _ st'] conjI)
  with demo_shortcuts_ok [of "[]"] t r n show ?thesis by (intro conjI)
qed

text \<open>
  Claim C1 as stated fails: two retained shortcuts lead to node 2, the first with the
  turn weight 7 and the second with 9; the table keeps the entry with 7, and the one turn
  record carries the offset of 7, not that of the later weight 9.
\<close>

theorem later_turn_weight_counterexample:
  "retained_turns (demo_facade []) demo_edge = [(2, 7), (2, 9)]
   \<and> collect_c_nodes demo_memory (demo_facade []) demo_edge 100 [20, 21] [] = Inr [(2, 7)]
   \<and> map_sum id (\<lambda>r. map (\<lambda>turn. used_point_ints (snd r) ! weight_offset turn) (fst r))
        (reconstruct_turns demo_memory (demo_facade []) demo_util demo_edge [100] [1]
           (use_line_value 100 initial_state)) = Inr [7]"
proof -
  have "map_sum id (\<lambda>r. map (\<lambda>turn. used_point_ints (snd r) ! weight_offset turn) (fst r))
        (reconstruct_turns demo_memory (demo_facade []) demo_util demo_edge [100] [1]
           (use_line_value 100 initial_state)) = Inr [7]"
    by (simp add: reconstruct_turns_def demo_facade_def demo_edge_def demo_util_def
        use_point_value_def use_line_value_def initial_state_def Let_def emplace_def
        c_nodes_iteration_def vec_at_def)
  with demo_retained [of "[]"] demo_c_nodes [of demo_memory "[]"] show ?thesis by (intro conjI)
qed

subsection \<open>Which directions get a line feature\<close>

text \<open>
  Claim C2, amended. A valid request on a consistent facade returns, and the features of
  its "speeds" layer are, edge by edge in the order of the edges, the features of the
  forward and then of the reverse direction. A direction has one feature, with the
  geometry of its clipped line, if its weight is not 0, its segment is enabled and the
  clipped line from its start to its end is not empty; otherwise it has none.
\<close>

theorem line_feature_emitted_iff:
  assumes "dbg \<longrightarrow> IsValid p" and "request_consistent fac ut p"
  shows "\<exists>tile parts. HandleRequest dbg mem fac ut p = Inr (Ok, tile)
    \<and> layer_features (tile ! 0) = concat (map (\<lambda>part. fst part @ snd part) parts)
    \<and> length parts = length (request_edges fac ut p)
    \<and> (\<forall>k<length (request_edges fac ut p).
         length (fst (parts ! k)) =
           (if forward_weight_of fac (request_edges fac ut p ! k) \<noteq> 0
               \<and> enabled (forward_segment_id (request_edges fac ut p ! k))
               \<and> coordinatesToTileLine ut
                    (GetCoordinateOfNode fac (edge_u (request_edges fac ut p ! k)))
                    (GetCoordinateOfNode fac (edge_v (request_edges fac ut p ! k)))
                    (request_bbox ut p) \<noteq> []
            then 1 else 0)
         \<and> (\<forall>f\<in>set (fst (parts ! k)).
               feature_geometry f =
                 fst (snd (encodeLinestring
                   (coordinatesToTileLine ut
                      (GetCoordinateOfNode fac (edge_u (request_edges fac ut p ! k)))
                      (GetCoordinateOfNode fac (edge_v (request_edges fac ut p ! k)))
                      (request_bbox ut p)) 0 0)))
         \<and> length (snd (parts ! k)) =
           (if reverse_weight_of fac (request_edges fac ut p ! k) \<noteq> 0
               \<and> enabled (reverse_segment_id (request_edges fac ut p ! k))
               \<and> coordinatesToTileLine ut
                    (GetCoordinateOfNode fac (edge_v (request_edges fac ut p ! k)))
                    (GetCoordinateOfNode fac (edge_u (request_edges fac ut p ! k)))
                    (request_bbox ut p) \<noteq> []
            then 1 else 0)
         \<and> (\<forall>f\<in>set (snd (parts ! k)).
               feature_geometry f =
                 fst (snd (encodeLinestring
                   (coordinatesToTileLine ut
                      (GetCoordinateOfNode fac (edge_v (request_edges fac ut p ! k)))
                      (GetCoordinateOfNode fac (edge_u (request_edges fac ut p ! k)))
                      (request_bbox ut p)) 0 0))))"
proof -
  from HandleRequest_returns [OF assms] obtain tile
    where r: "HandleRequest dbg mem fac ut p = Inr (Ok, tile)" by blast
  from r obtain st lparts pparts
    where tile: "tile = [speeds_layer fac ut st (concat (map (\<lambda>part. fst part @ snd part) lparts)),
                 turns_layer st (concat pparts)]"
      and lv: "map (\<lambda>part. (map feature_view (fst part), map feature_view (snd part))) lparts
         = map (\<lambda>e. (forward_view fac ut (request_bbox ut p) st e,
                      reverse_view fac ut (request_bbox ut p) st e)) (request_edges fac ut p)"
      and lg: "\<forall>part\<in>set lparts. \<forall>f\<in>set (fst part @ snd part). is_msg FEATURE_TAG f"
    by (rule HandleRequest_Inr [OF _ assms(2)])
  have lf: "\<forall>f\<in>set (concat (map (\<lambda>part. fst part @ snd part) lparts)). is_msg FEATURE_TAG f"
    using lg by auto
  have feats: "layer_features (tile ! 0) = concat (map (\<lambda>part. fst part @ snd part) lparts)"
    using speeds_layer_features [OF lf] by (simp add: tile)
  note V = line_parts_view [OF lv]
  have each: "length (fst (lparts ! k)) =
           (if forward_weight_of fac (request_edges fac ut p ! k) \<noteq> 0
               \<and> enabled (forward_segment_id (request_edges fac ut p ! k))
               \<and> coordinatesToTileLine ut
                    (GetCoordinateOfNode fac (edge_u (request_edges fac ut p ! k)))
                    (GetCoordinateOfNode fac (edge_v (request_edges fac ut p ! k)))
                    (request_bbox ut p) \<noteq> []
            then 1 else 0)
         \<and> (\<forall>f\<in>set (fst (lparts ! k)).
               feature_geometry f =
                 fst (snd (encodeLinestring
                   (coordinatesToTileLine ut
                      (GetCoordinateOfNode fac (edge_u (request_edges fac ut p ! k)))
                      (GetCoordinateOfNode fac (edge_v (request_edges fac ut p ! k)))
                      (request_bbox ut p)) 0 0)))
         \<and> length (snd (lparts ! k)) =
           (if reverse_weight_of fac (request_edges fac ut p ! k) \<noteq> 0
               \<and> enabled (reverse_segment_id (request_edges fac ut p ! k))
               \<and> coordinatesToTileLine ut
                    (GetCoordinateOfNode fac (edge_v (request_edges fac ut p ! k)))
                    (GetCoordinateOfNode fac (edge_u (request_edges fac ut p ! k)))
                    (request_bbox ut p) \<noteq> []
            then 1 else 0)
         \<and> (\<forall>f\<in>set (snd (lparts ! k)).
               feature_geometry f =
                 fst (snd (encodeLinestring
                   (coordinatesToTileLine ut
                      (GetCoordinateOfNode fac (edge_v (request_edges fac ut p ! k)))
                      (GetCoordinateOfNode fac (edge_u (request_edges fac ut p ! k)))
                      (request_bbox ut p)) 0 0)))"
    if k: "k < length (request_edges fac ut p)" for k
  proof -
    let ?e = "request_edges fac ut p ! k"
    have f: "map feature_view (fst (lparts ! k)) = forward_view fac ut (request_bbox ut p) st ?e"
      and b: "map feature_view (snd (lparts ! k)) = reverse_view fac ut (request_bbox ut p) st ?e"
      using V(2,3) [OF k] by simp_all
    have lf: "length (fst (lparts ! k)) = length (forward_view fac ut (request_bbox ut p) st ?e)"
      using arg_cong [OF f, of length] by simp
    have lb: "length (snd (lparts ! k)) = length (reverse_view fac ut (request_bbox ut p) st ?e)"
      using arg_cong [OF b, of length] by simp
    have gf: "feature_geometry x = fst (snd (encodeLinestring
                   (coordinatesToTileLine ut (GetCoordinateOfNode fac (edge_u ?e))
                      (GetCoordinateOfNode fac (edge_v ?e)) (request_bbox ut p)) 0 0))"
      if "x \<in> set (fst (lparts ! k))" for x
    proof -
      from that have "feature_view x \<in> set (map feature_view (fst (lparts ! k)))" by simp
      then have "feature_view x \<in> set (forward_view fac ut (request_bbox ut p) st ?e)"
        by (simp only: f)
      then show ?thesis
        unfolding forward_view_def by (auto dest: direction_view_geometry simp: feature_view_def)
    qed
    have gb: "feature_geometry x = fst (snd (encodeLinestring
                   (coordinatesToTileLine ut (GetCoordinateOfNode fac (edge_v ?e))
                      (GetCoordinateOfNode fac (edge_u ?e)) (request_bbox ut p)) 0 0))"
      if "x \<in> set (snd (lparts ! k))" for x
    proof -
      from that have "feature_view x \<in> set (map feature_view (snd (lparts ! k)))" by simp
      then have "feature_view x \<in> set (reverse_view fac ut (request_bbox ut p) st ?e)"
        by (simp only: b)
      then show ?thesis
        unfolding reverse_view_def by (auto dest: direction_view_geometry simp: feature_view_def)
    qed
    show ?thesis
      using gf gb
      by (simp add: lf lb forward_view_def reverse_view_def direction_view_length)
  qed
  from r feats V(1) each show ?thesis by blast
qed

theorem line_feature_emitted_iff_witness:
  "IsValid demo_params
   \<and> request_consistent (demo_facade [demo_edge]) demo_util demo_params
   \<and> (\<exists>tile parts. HandleRequest True demo_memory (demo_facade [demo_edge]) demo_util demo_params = Inr (Ok, tile)
        \<and> layer_features (tile ! 0) = concat (map (\<lambda>part. fst part @ snd part) parts)
        \<and> length parts = 1 \<and> length (fst (parts ! 0)) = 1 \<and> length (snd (parts ! 0)) = 1)"
proof -
  have v: "True \<longrightarrow> IsValid demo_params" by (simp add: demo_valid)
  have c: "request_consistent (demo_facade [demo_edge]) demo_util demo_params"
    by (rule demo_consistent)
  from line_feature_emitted_iff [OF v c, where mem = demo_memory] demo_valid c show ?thesis
    by (simp add: demo_request_edges demo_forward demo_reverse demo_coordinates demo_edge_fields
          demo_line) blast
qed

text \<open>
  Claim C2 as stated fails where the clipped line is empty: the forward weight of the
  edge is 100 and its forward segment is enabled, and the "speeds" layer has no feature.
\<close>

theorem line_feature_emitted_counterexample:
  "forward_weight_of (demo_facade [demo_edge]) demo_edge \<noteq> 0
   \<and> enabled (forward_segment_id demo_edge)
   \<and> map_sum id (\<lambda>r. layer_features (snd r ! 0))
        (HandleRequest False demo_memory (demo_facade [demo_edge]) demo_util_outside demo_params) = Inr []"
proof -
  have v: "False \<longrightarrow> IsValid demo_params" by simp
  from HandleRequest_returns [OF v demo_consistent] obtain tile
    where r: "HandleRequest False demo_memory (demo_facade [demo_edge]) demo_util_outside demo_params = Inr (Ok, tile)"
    by blast
  from r obtain st lparts pparts
    where tile: "tile = [speeds_layer (demo_facade [demo_edge]) demo_util_outside st
                   (concat (map (\<lambda>part. fst part @ snd part) lparts)),
                 turns_layer st (concat pparts)]"
      and lv: "map (\<lambda>part. (map feature_view (fst part), map feature_view (snd part))) lparts
         = map (\<lambda>e. (forward_view (demo_facade [demo_edge]) demo_util_outside
                        (request_bbox demo_util_outside demo_params) st e,
                      reverse_view (demo_facade [demo_edge]) demo_util_outside
                        (request_bbox demo_util_outside demo_params) st e))
             (request_edges (demo_facade [demo_edge]) demo_util_outside demo_params)"
      and lg: "\<forall>part\<in>set lparts. \<forall>f\<in>set (fst part @ snd part). is_msg FEATURE_TAG f"
    by (rule HandleRequest_Inr [OF _ demo_consistent])
  have lf: "\<forall>f\<in>set (concat (map (\<lambda>part. fst part @ snd part) lparts)). is_msg FEATURE_TAG f"
    using lg by auto
  have feats: "layer_features (tile ! 0) = concat (map (\<lambda>part. fst part @ snd part) lparts)"
    using speeds_layer_features [OF lf] by (simp add: tile)
  have "map (\<lambda>part. (map feature_view (fst part), map feature_view (snd part))) lparts = [([], [])]"
    unfolding lv demo_request_edges
    by (simp add: forward_view_def reverse_view_def direction_view_def outside_line)
  then have "concat (map (\<lambda>part. fst part @ snd part) lparts) = []"
    by auto
  then show ?thesis
    using r feats by (simp add: demo_forward demo_edge_fields)
qed
subsection \<open>Arrays that are too short\<close>




subsection \<open>Requests that are not valid\<close>

text \<open>
  Claim C4, amended. For a request whose x or y is out of range for z,
  \<^verbatim>\<open>HandleRequest\<close> signals no error: with assertions compiled in, the run stops at the
  assertion on the parameters before any work; with assertions compiled out, the request
  is processed like any other, and on a consistent facade it returns \<open>Ok\<close> with a tile.
  It never returns the status \<open>Error\<close>.
\<close>

theorem invalid_request_not_rejected:
  assumes "\<not> IsValid p"
  shows "HandleRequest True mem fac ut p = Inl AssertionFailure
    \<and> HandleRequest False mem fac ut p = process_request False mem fac ut p
    \<and> (request_consistent fac ut p \<longrightarrow> (\<exists>tile. HandleRequest False mem fac ut p = Inr (Ok, tile)))
    \<and> (\<forall>tile. HandleRequest dbg mem fac ut p \<noteq> Inr (Error, tile))"
proof -
  have a: "HandleRequest True mem fac ut p = Inl AssertionFailure"
    using assms by (simp add: HandleRequest_def)
  have b: "HandleRequest False mem fac ut p = process_request False mem fac ut p"
    by (simp add: HandleRequest_def)
  have c: "request_consistent fac ut p \<longrightarrow> (\<exists>tile. HandleRequest False mem fac ut p = Inr (Ok, tile))"
    using HandleRequest_returns [of False p fac ut] by simp
  have d: "\<forall>tile. HandleRequest dbg mem fac ut p \<noteq> Inr (Error, tile)"
    by (simp add: HandleRequest_never_Error)
  from a b c d show ?thesis by (intro conjI)
qed

theorem invalid_request_not_rejected_witness:
  "\<not> IsValid demo_invalid_params
   \<and> HandleRequest True demo_memory (demo_facade [demo_edge]) demo_util demo_invalid_params = Inl AssertionFailure
   \<and> (\<exists>tile. HandleRequest False demo_memory (demo_facade [demo_edge]) demo_util demo_invalid_params
                = Inr (Ok, tile))"
  using invalid_request_not_rejected [OF demo_invalid, of demo_memory "demo_facade [demo_edge]" demo_util]
    demo_invalid demo_consistent [of demo_util demo_invalid_params]
  by blast

text \<open>
  Claim C4 as stated fails: x = 7 is out of range at zoom 0, and with assertions compiled
  out the request returns \<open>Ok\<close>.
\<close>

theorem invalid_request_counterexample:
  "\<not> tile_x demo_invalid_params < 2 ^ tile_z demo_invalid_params
   \<and> map_sum id fst (HandleRequest False demo_memory (demo_facade [demo_edge]) demo_util demo_invalid_params)
       = Inr Ok"
proof -
  have v: "False \<longrightarrow> IsValid demo_invalid_params" by simp
  from HandleRequest_returns [OF v demo_consistent] obtain tile
    where "HandleRequest False demo_memory (demo_facade [demo_edge]) demo_util demo_invalid_params = Inr (Ok, tile)"
    by blast
  then show ?thesis by (simp add: demo_invalid_params_def)
qed

subsection \<open>The values of the line layer\<close>

text \<open>
  Claim C5. A valid request on a consistent facade returns, and the values of its
  "speeds" layer are, in this order: the uint64 values 0 to 127, the boolean true, the
  boolean false, the names of the datasources 0 to m, where m is the largest datasource
  id of a direction of an edge of the box (0 for a direction without geometry), and one
  double, the weight divided by 10, for each distinct interned weight in the order of
  first interning; these doubles stand for pairwise distinct weights, and every interned
  weight has one. So the value at an index below 128 is the index, true is at 128 and
  false at 129.
\<close>

theorem speeds_values_array:
  assumes "dbg \<longrightarrow> IsValid p" and "request_consistent fac ut p"
  shows "\<exists>tile. HandleRequest dbg mem fac ut p = Inr (Ok, tile)
    \<and> layer_values (tile ! 0) =
        map (\<lambda>i. PMsg VARIANT_TAG [PUInt64 VARIANT_TYPE_UINT64 (word_of_nat i)]) [0..<128]
        @ [PMsg VARIANT_TAG [PBool VARIANT_TYPE_BOOL True],
           PMsg VARIANT_TAG [PBool VARIANT_TYPE_BOOL False]]
        @ map (\<lambda>i. PMsg VARIANT_TAG [PString VARIANT_TYPE_STRING (GetDatasourceName fac i)])
            [0..<unat (Max (insert 0 (set (observed_datasources fac (request_edges fac ut p))))) + 1]
        @ map (\<lambda>weight. PMsg VARIANT_TAG
                 [PDouble VARIANT_TYPE_DOUBLE (d_div ut (d_of_int ut weight) (d_of_int ut 10))])
            (first_seen_order (interned_line_weights fac (request_edges fac ut p)))
    \<and> (\<forall>i<128. layer_values (tile ! 0) ! i = PMsg VARIANT_TAG [PUInt64 VARIANT_TYPE_UINT64 (word_of_nat i)])
    \<and> layer_values (tile ! 0) ! 128 = PMsg VARIANT_TAG [PBool VARIANT_TYPE_BOOL True]
    \<and> layer_values (tile ! 0) ! 129 = PMsg VARIANT_TAG [PBool VARIANT_TYPE_BOOL False]
    \<and> distinct (first_seen_order (interned_line_weights fac (request_edges fac ut p)))
    \<and> set (first_seen_order (interned_line_weights fac (request_edges fac ut p)))
        = set (interned_line_weights fac (request_edges fac ut p))"
proof -
  from HandleRequest_returns [OF assms] obtain tile
    where r: "HandleRequest dbg mem fac ut p = Inr (Ok, tile)" by blast
  from r obtain st lparts pparts
    where t: "tally_pass dbg mem fac ut (request_edges fac ut p) initial_state = Inr st"
      and tile: "tile = [speeds_layer fac ut st (concat (map (\<lambda>part. fst part @ snd part) lparts)),
                 turns_layer st (concat pparts)]"
      and lg: "\<forall>part\<in>set lparts. \<forall>f\<in>set (fst part @ snd part). is_msg FEATURE_TAG f"
    by (rule HandleRequest_Inr [OF _ assms(2)])
  have lf: "\<forall>f\<in>set (concat (map (\<lambda>part. fst part @ snd part) lparts)). is_msg FEATURE_TAG f"
    using lg by auto
  have vals: "layer_values (tile ! 0) = line_values fac ut st"
    using speeds_layer_values [OF lf] by (simp add: tile)
  note T = tally_pass_initial [OF t consistent_arrays [OF assms(2)]]
  let ?first = "map (\<lambda>i. PMsg VARIANT_TAG [PUInt64 VARIANT_TYPE_UINT64 (word_of_nat i)]) [0..<128]
    :: 'a pbf list"
  have eq: "line_values fac ut st =
        ?first
        @ [PMsg VARIANT_TAG [PBool VARIANT_TYPE_BOOL True],
           PMsg VARIANT_TAG [PBool VARIANT_TYPE_BOOL False]]
        @ map (\<lambda>i. PMsg VARIANT_TAG [PString VARIANT_TYPE_STRING (GetDatasourceName fac i)])
            [0..<unat (Max (insert 0 (set (observed_datasources fac (request_edges fac ut p))))) + 1]
        @ map (\<lambda>weight. PMsg VARIANT_TAG
                 [PDouble VARIANT_TYPE_DOUBLE (d_div ut (d_of_int ut weight) (d_of_int ut 10))])
            (first_seen_order (interned_line_weights fac (request_edges fac ut p)))"
    unfolding line_values_def T(1) T(4) by simp
  have len: "length ?first = 128" by simp
  have n1: "\<forall>i<128. line_values fac ut st ! i = PMsg VARIANT_TAG [PUInt64 VARIANT_TYPE_UINT64 (word_of_nat i)]"
  proof (intro allI impI)
    fix i :: nat assume "i < 128"
    then have "line_values fac ut st ! i = ?first ! i"
      unfolding eq by (simp add: nth_append)
    also have "\<dots> = PMsg VARIANT_TAG [PUInt64 VARIANT_TYPE_UINT64 (word_of_nat i)]"
      using \<open>i < 128\<close> by (simp del: upt_Suc)
    finally show "line_values fac ut st ! i = PMsg VARIANT_TAG [PUInt64 VARIANT_TYPE_UINT64 (word_of_nat i)]" .
  qed
  have n2: "line_values fac ut st ! 128 = PMsg VARIANT_TAG [PBool VARIANT_TYPE_BOOL True]"
    unfolding eq using len by (simp add: nth_append del: upt_Suc map_append)
  have n3: "line_values fac ut st ! 129 = PMsg VARIANT_TAG [PBool VARIANT_TYPE_BOOL False]"
    unfolding eq using len by (simp add: nth_append del: upt_Suc map_append)
  show ?thesis
    using r vals eq n1 n2 n3 by (auto simp: first_seen_order_distinct first_seen_order_set)
qed

theorem speeds_values_array_witness:
  "IsValid demo_params
   \<and> request_consistent (demo_facade [demo_edge]) demo_util demo_params
   \<and> (\<exists>tile. HandleRequest True demo_memory (demo_facade [demo_edge]) demo_util demo_params = Inr (Ok, tile)
        \<and> layer_values (tile ! 0) ! 128 = PMsg VARIANT_TAG [PBool VARIANT_TYPE_BOOL True]
        \<and> drop 130 (layer_values (tile ! 0)) =
            [PMsg VARIANT_TAG [PString VARIANT_TYPE_STRING ''lua profile''],
             PMsg VARIANT_TAG [PString VARIANT_TYPE_STRING ''speed file''],
             PMsg VARIANT_TAG [PString VARIANT_TYPE_STRING ''speed file''],
             PMsg VARIANT_TAG [PDouble VARIANT_TYPE_DOUBLE 10],
             PMsg VARIANT_TAG [PDouble VARIANT_TYPE_DOUBLE 5]])"
proof -
  have v: "True \<longrightarrow> IsValid demo_params" by (simp add: demo_valid)
  have names: "map (\<lambda>i. PMsg VARIANT_TAG [PString VARIANT_TYPE_STRING
        (GetDatasourceName (demo_facade [demo_edge]) i)]) [0..<3]
    = [PMsg VARIANT_TAG [PString VARIANT_TYPE_STRING ''lua profile''],
       PMsg VARIANT_TAG [PString VARIANT_TYPE_STRING ''speed file''],
       PMsg VARIANT_TAG [PString VARIANT_TYPE_STRING ''speed file'' :: rat pbf]]"
    by (simp add: demo_facade_def upt_rec numeral_eq_Suc)
  have doubles: "d_div demo_util (d_of_int demo_util 100) (d_of_int demo_util 10) = 10"
    "d_div demo_util (d_of_int demo_util 50) (d_of_int demo_util 10) = 5"
    by (simp_all add: demo_util_def)
  have len: "length (map (\<lambda>i. PMsg VARIANT_TAG [PUInt64 VARIANT_TYPE_UINT64 (word_of_nat i)]) [0..<128]
    :: rat pbf list) = 128" by simp
  from speeds_values_array [OF v demo_consistent, where mem = demo_memory] obtain tile
    where r: "HandleRequest True demo_memory (demo_facade [demo_edge]) demo_util demo_params = Inr (Ok, tile)"
      and vals: "layer_values (tile ! 0) =
        map (\<lambda>i. PMsg VARIANT_TAG [PUInt64 VARIANT_TYPE_UINT64 (word_of_nat i)]) [0..<128]
        @ [PMsg VARIANT_TAG [PBool VARIANT_TYPE_BOOL True],
           PMsg VARIANT_TAG [PBool VARIANT_TYPE_BOOL False]]
        @ map (\<lambda>i. PMsg VARIANT_TAG [PString VARIANT_TYPE_STRING
                 (GetDatasourceName (demo_facade [demo_edge]) i)])
            [0..<unat (Max (insert 0 (set (observed_datasources (demo_facade [demo_edge])
                 (request_edges (demo_facade [demo_edge]) demo_util demo_params))))) + 1]
        @ map (\<lambda>weight. PMsg VARIANT_TAG
                 [PDouble VARIANT_TYPE_DOUBLE (d_div demo_util (d_of_int demo_util weight) (d_of_int demo_util 10))])
            (first_seen_order (interned_line_weights (demo_facade [demo_edge])
                 (request_edges (demo_facade [demo_edge]) demo_util demo_params)))"
      and t: "layer_values (tile ! 0) ! 128 = PMsg VARIANT_TAG [PBool VARIANT_TYPE_BOOL True]"
    by blast
  have m: "unat (Max (insert 0 (set [1, 2 :: 8 word]))) + 1 = 3" by simp
  have "drop 130 (layer_values (tile ! 0)) =
            [PMsg VARIANT_TAG [PString VARIANT_TYPE_STRING ''lua profile''],
             PMsg VARIANT_TAG [PString VARIANT_TYPE_STRING ''speed file''],
             PMsg VARIANT_TAG [PString VARIANT_TYPE_STRING ''speed file''],
             PMsg VARIANT_TAG [PDouble VARIANT_TYPE_DOUBLE 10],
             PMsg VARIANT_TAG [PDouble VARIANT_TYPE_DOUBLE 5]]"
    unfolding vals demo_request_edges demo_weights demo_datasources m names
    using len by (simp add: first_seen_order_def doubles del: upt_Suc map_append)
  with r t demo_valid demo_consistent show ?thesis by blast
qed
subsection \<open>The attribute pairs of a line feature\<close>

text \<open>
  Claim C6. A valid request on a consistent facade returns, and the features of its
  "speeds" layer are, edge by edge in the order of the edges, those of the forward and
  then of the reverse direction. A direction that has a feature (weight not 0, segment
  enabled, clipped line not empty) has exactly one, and it carries exactly the pairs key
  0 with the smaller of the speed and 127, key 1 with 128 for a tiny component and 129
  otherwise, key 2 with 130 + datasource id, and key 3 with 130 + largest datasource id
  + 1 + offset, as 32-bit values, for the weight and the datasource id of that direction.
  The speed is the rounded product (length / weight) * 10 * 3.6, converted to
  \<^verbatim>\<open>uint32_t\<close>, with the length the distance between the two end nodes of the edge, and
  the offset is the place of the weight among the interned weights in the order of first
  interning.
\<close>

theorem speeds_feature_tags:
  assumes "dbg \<longrightarrow> IsValid p" and "request_consistent fac ut p"
  shows "\<exists>tile parts. HandleRequest dbg mem fac ut p = Inr (Ok, tile)
    \<and> layer_features (tile ! 0) = concat (map (\<lambda>part. fst part @ snd part) parts)
    \<and> length parts = length (request_edges fac ut p)
    \<and> (\<forall>k<length (request_edges fac ut p).
         (let e = request_edges fac ut p ! k;
              a = GetCoordinateOfNode fac (edge_u e);
              b = GetCoordinateOfNode fac (edge_v e);
              used = first_seen_order (interned_line_weights fac (request_edges fac ut p));
              top = unat (Max (insert 0 (set (observed_datasources fac (request_edges fac ut p)))));
              tags = (\<lambda>weight datasource.
                [0, min (d_to_uint32 ut (d_round ut
                           (d_mul ut
                              (d_mul ut
                                 (d_div ut (haversineDistance ut a b) (d_of_int ut weight))
                                 (d_of_int ut 10))
                              (d_3_6 ut)))) 127,
                 1, 128 + (if is_tiny e then 0 else 1),
                 2, 130 + ucast datasource,
                 3, word_of_nat (130 + top + 1 + offset_of used weight)])
          in map feature_tags (fst (parts ! k)) =
               (if forward_weight_of fac e \<noteq> 0 \<and> enabled (forward_segment_id e)
                   \<and> coordinatesToTileLine ut a b (request_bbox ut p) \<noteq> []
                then [tags (forward_weight_of fac e) (forward_datasource_of fac e)]
                else [])
             \<and> map feature_tags (snd (parts ! k)) =
               (if reverse_weight_of fac e \<noteq> 0 \<and> enabled (reverse_segment_id e)
                   \<and> coordinatesToTileLine ut b a (request_bbox ut p) \<noteq> []
                then [tags (reverse_weight_of fac e) (reverse_datasource_of fac e)]
                else [])
             \<and> (forward_weight_of fac e \<noteq> 0 \<longrightarrow>
                  offset_of used (forward_weight_of fac e) < length used
                  \<and> used ! offset_of used (forward_weight_of fac e) = forward_weight_of fac e)
             \<and> (reverse_weight_of fac e \<noteq> 0 \<longrightarrow>
                  offset_of used (reverse_weight_of fac e) < length used
                  \<and> used ! offset_of used (reverse_weight_of fac e) = reverse_weight_of fac e)))"
proof -
  let ?edges = "request_edges fac ut p"
  let ?box = "request_bbox ut p"
  let ?used = "first_seen_order (interned_line_weights fac ?edges)"
  from HandleRequest_returns [OF assms] obtain tile
    where r: "HandleRequest dbg mem fac ut p = Inr (Ok, tile)" by blast
  from r obtain st lparts pparts
    where t: "tally_pass dbg mem fac ut ?edges initial_state = Inr st"
      and tile: "tile = [speeds_layer fac ut st (concat (map (\<lambda>part. fst part @ snd part) lparts)),
                 turns_layer st (concat pparts)]"
      and lv: "map (\<lambda>part. (map feature_view (fst part), map feature_view (snd part))) lparts
         = map (\<lambda>e. (forward_view fac ut ?box st e, reverse_view fac ut ?box st e)) ?edges"
      and lg: "\<forall>part\<in>set lparts. \<forall>f\<in>set (fst part @ snd part). is_msg FEATURE_TAG f"
    by (rule HandleRequest_Inr [OF _ assms(2)])
  have lf: "\<forall>f\<in>set (concat (map (\<lambda>part. fst part @ snd part) lparts)). is_msg FEATURE_TAG f"
    using lg by auto
  have feats: "layer_features (tile ! 0) = concat (map (\<lambda>part. fst part @ snd part) lparts)"
    using speeds_layer_features [OF lf] by (simp add: tile)
  note T = tally_pass_initial [OF t consistent_arrays [OF assms(2)]]
  note R = tally_pass_line_ready [OF t consistent_arrays [OF assms(2)]]
  note V = line_parts_view [OF lv]
  have each: "map feature_tags (fst (lparts ! k)) =
               (if forward_weight_of fac e \<noteq> 0 \<and> enabled (forward_segment_id e)
                   \<and> coordinatesToTileLine ut (GetCoordinateOfNode fac (edge_u e))
                        (GetCoordinateOfNode fac (edge_v e)) ?box \<noteq> []
                then [[0, min (d_to_uint32 ut (d_round ut
                           (d_mul ut
                              (d_mul ut
                                 (d_div ut (haversineDistance ut (GetCoordinateOfNode fac (edge_u e))
                                              (GetCoordinateOfNode fac (edge_v e)))
                                    (d_of_int ut (forward_weight_of fac e)))
                                 (d_of_int ut 10))
                              (d_3_6 ut)))) 127,
                 1, 128 + (if is_tiny e then 0 else 1),
                 2, 130 + ucast (forward_datasource_of fac e),
                 3, word_of_nat (130 + unat (Max (insert 0 (set (observed_datasources fac ?edges))))
                       + 1 + offset_of ?used (forward_weight_of fac e))]]
                else [])
             \<and> map feature_tags (snd (lparts ! k)) =
               (if reverse_weight_of fac e \<noteq> 0 \<and> enabled (reverse_segment_id e)
                   \<and> coordinatesToTileLine ut (GetCoordinateOfNode fac (edge_v e))
                        (GetCoordinateOfNode fac (edge_u e)) ?box \<noteq> []
                then [[0, min (d_to_uint32 ut (d_round ut
                           (d_mul ut
                              (d_mul ut
                                 (d_div ut (haversineDistance ut (GetCoordinateOfNode fac (edge_u e))
                                              (GetCoordinateOfNode fac (edge_v e)))
                                    (d_of_int ut (reverse_weight_of fac e)))
                                 (d_of_int ut 10))
                              (d_3_6 ut)))) 127,
                 1, 128 + (if is_tiny e then 0 else 1),
                 2, 130 + ucast (reverse_datasource_of fac e),
                 3, word_of_nat (130 + unat (Max (insert 0 (set (observed_datasources fac ?edges))))
                       + 1 + offset_of ?used (reverse_weight_of fac e))]]
                else [])
             \<and> (forward_weight_of fac e \<noteq> 0 \<longrightarrow>
                  offset_of ?used (forward_weight_of fac e) < length ?used
                  \<and> ?used ! offset_of ?used (forward_weight_of fac e) = forward_weight_of fac e)
             \<and> (reverse_weight_of fac e \<noteq> 0 \<longrightarrow>
                  offset_of ?used (reverse_weight_of fac e) < length ?used
                  \<and> ?used ! offset_of ?used (reverse_weight_of fac e) = reverse_weight_of fac e)"
    if k: "k < length ?edges" and e: "e = ?edges ! k" for k e
  proof -
    from k e have mem_e: "e \<in> set ?edges" by simp
    with R have ready: "line_ready fac st e" by simp
    then have df: "forward_weight_of fac e \<noteq> 0 \<longrightarrow> forward_weight_of fac e \<in> dom (line_int_offsets st)"
      and dr: "reverse_weight_of fac e \<noteq> 0 \<longrightarrow> reverse_weight_of fac e \<in> dom (line_int_offsets st)"
      by (simp_all add: line_ready_def)
    have f: "map feature_view (fst (lparts ! k)) = forward_view fac ut ?box st e"
      and b: "map feature_view (snd (lparts ! k)) = reverse_view fac ut ?box st e"
      using V(2,3) [OF k] e by simp_all
    have c1: "map feature_tags (fst (lparts ! k)) =
        map fst (direction_view ut ?box st e
          (GetCoordinateOfNode fac (edge_u e)) (GetCoordinateOfNode fac (edge_v e))
          (haversineDistance ut (GetCoordinateOfNode fac (edge_u e)) (GetCoordinateOfNode fac (edge_v e)))
          (forward_weight_of fac e) (enabled (forward_segment_id e)) (forward_datasource_of fac e))"
      unfolding map_feature_tags f forward_view_def ..
    have c2: "map feature_tags (snd (lparts ! k)) =
        map fst (direction_view ut ?box st e
          (GetCoordinateOfNode fac (edge_v e)) (GetCoordinateOfNode fac (edge_u e))
          (haversineDistance ut (GetCoordinateOfNode fac (edge_u e)) (GetCoordinateOfNode fac (edge_v e)))
          (reverse_weight_of fac e) (enabled (reverse_segment_id e)) (reverse_datasource_of fac e))"
      unfolding map_feature_tags b reverse_view_def ..
    have s1: "forward_weight_of fac e \<noteq> 0 \<longrightarrow> forward_weight_of fac e \<in> set ?used"
      using df by (simp add: T(3) first_seen_order_set)
    have s2: "reverse_weight_of fac e \<noteq> 0 \<longrightarrow> reverse_weight_of fac e \<in> set ?used"
      using dr by (simp add: T(3) first_seen_order_set)
    show ?thesis
      unfolding c1 c2 direction_view_tags_eq [OF T(2) df] direction_view_tags_eq [OF T(2) dr]
      using s1 s2
      by (simp add: line_tags_def speed_kmh_of_def T(1) T(4) offset_of_nth)
  qed
  have "\<forall>k<length ?edges.
         (let e = ?edges ! k;
              a = GetCoordinateOfNode fac (edge_u e);
              b = GetCoordinateOfNode fac (edge_v e);
              used = ?used;
              top = unat (Max (insert 0 (set (observed_datasources fac ?edges))));
              tags = (\<lambda>weight datasource.
                [0, min (d_to_uint32 ut (d_round ut
                           (d_mul ut
                              (d_mul ut
                                 (d_div ut (haversineDistance ut a b) (d_of_int ut weight))
                                 (d_of_int ut 10))
                              (d_3_6 ut)))) 127,
                 1, 128 + (if is_tiny e then 0 else 1),
                 2, 130 + ucast datasource,
                 3, word_of_nat (130 + top + 1 + offset_of used weight)])
          in map feature_tags (fst (lparts ! k)) =
               (if forward_weight_of fac e \<noteq> 0 \<and> enabled (forward_segment_id e)
                   \<and> coordinatesToTileLine ut a b ?box \<noteq> []
                then [tags (forward_weight_of fac e) (forward_datasource_of fac e)]
                else [])
             \<and> map feature_tags (snd (lparts ! k)) =
               (if reverse_weight_of fac e \<noteq> 0 \<and> enabled (reverse_segment_id e)
                   \<and> coordinatesToTileLine ut b a ?box \<noteq> []
                then [tags (reverse_weight_of fac e) (reverse_datasource_of fac e)]
                else [])
             \<and> (forward_weight_of fac e \<noteq> 0 \<longrightarrow>
                  offset_of used (forward_weight_of fac e) < length used
                  \<and> used ! offset_of used (forward_weight_of fac e) = forward_weight_of fac e)
             \<and> (reverse_weight_of fac e \<noteq> 0 \<longrightarrow>
                  offset_of used (reverse_weight_of fac e) < length used
                  \<and> used ! offset_of used (reverse_weight_of fac e) = reverse_weight_of fac e))"
    unfolding Let_def using each by blast
  with r feats V(1) show ?thesis by blast
qed

theorem speeds_feature_tags_witness:
  "IsValid demo_params
   \<and> request_consistent (demo_facade [demo_edge]) demo_util demo_params
   \<and> (\<exists>tile. HandleRequest True demo_memory (demo_facade [demo_edge]) demo_util demo_params = Inr (Ok, tile)
        \<and> map feature_tags (layer_features (tile ! 0))
            = [[0, 36, 1, 129, 2, 131, 3, 133], [0, 72, 1, 129, 2, 132, 3, 134]])"
proof -
  have v: "True \<longrightarrow> IsValid demo_params" by (simp add: demo_valid)
  have c: "request_consistent (demo_facade [demo_edge]) demo_util demo_params"
    by (rule demo_consistent)
  have m: "unat (Max (insert 0 (set [1, 2 :: 8 word]))) = 2" by simp
  have u: "first_seen_order [100, 50 :: 32 word] = [100, 50]"
    by (simp add: first_seen_order_def)
  have o: "offset_of [100, 50 :: 32 word] 100 = 0" "offset_of [100, 50 :: 32 word] 50 = 1"
    by (simp_all add: offset_of_def)
  from speeds_feature_tags [OF v c, where mem = demo_memory] obtain tile parts
    where r: "HandleRequest True demo_memory (demo_facade [demo_edge]) demo_util demo_params = Inr (Ok, tile)"
      and feats: "layer_features (tile ! 0) = concat (map (\<lambda>part. fst part @ snd part) parts)"
      and len: "length parts = length (request_edges (demo_facade [demo_edge]) demo_util demo_params)"
      and each: "\<forall>k<length (request_edges (demo_facade [demo_edge]) demo_util demo_params).
         (let e = request_edges (demo_facade [demo_edge]) demo_util demo_params ! k;
              a = GetCoordinateOfNode (demo_facade [demo_edge]) (edge_u e);
              b = GetCoordinateOfNode (demo_facade [demo_edge]) (edge_v e);
              used = first_seen_order (interned_line_weights (demo_facade [demo_edge])
                        (request_edges (demo_facade [demo_edge]) demo_util demo_params));
              top = unat (Max (insert 0 (set (observed_datasources (demo_facade [demo_edge])
                        (request_edges (demo_facade [demo_edge]) demo_util demo_params)))));
              tags = (\<lambda>weight datasource.
                [0, min (d_to_uint32 demo_util (d_round demo_util
                           (d_mul demo_util
                              (d_mul demo_util
                                 (d_div demo_util (haversineDistance demo_util a b) (d_of_int demo_util weight))
                                 (d_of_int demo_util 10))
                              (d_3_6 demo_util)))) 127,
                 1, 128 + (if is_tiny e then 0 else 1),
                 2, 130 + ucast datasource,
                 3, word_of_nat (130 + top + 1 + offset_of used weight)])
          in map feature_tags (fst (parts ! k)) =
               (if forward_weight_of (demo_facade [demo_edge]) e \<noteq> 0 \<and> enabled (forward_segment_id e)
                   \<and> coordinatesToTileLine demo_util a b (request_bbox demo_util demo_params) \<noteq> []
                then [tags (forward_weight_of (demo_facade [demo_edge]) e)
                        (forward_datasource_of (demo_facade [demo_edge]) e)]
                else [])
             \<and> map feature_tags (snd (parts ! k)) =
               (if reverse_weight_of (demo_facade [demo_edge]) e \<noteq> 0 \<and> enabled (reverse_segment_id e)
                   \<and> coordinatesToTileLine demo_util b a (request_bbox demo_util demo_params) \<noteq> []
                then [tags (reverse_weight_of (demo_facade [demo_edge]) e)
                        (reverse_datasource_of (demo_facade [demo_edge]) e)]
                else [])
             \<and> (forward_weight_of (demo_facade [demo_edge]) e \<noteq> 0 \<longrightarrow>
                  offset_of used (forward_weight_of (demo_facade [demo_edge]) e) < length used
                  \<and> used ! offset_of used (forward_weight_of (demo_facade [demo_edge]) e)
                      = forward_weight_of (demo_facade [demo_edge]) e)
             \<and> (reverse_weight_of (demo_facade [demo_edge]) e \<noteq> 0 \<longrightarrow>
                  offset_of used (reverse_weight_of (demo_facade [demo_edge]) e) < length used
                  \<and> used ! offset_of used (reverse_weight_of (demo_facade [demo_edge]) e)
                      = reverse_weight_of (demo_facade [demo_edge]) e))"
    by (elim exE conjE)
  from len have one: "length parts = 1" by (simp add: demo_request_edges)
  from each have f: "map feature_tags (fst (parts ! 0)) = [[0, 36, 1, 129, 2, 131, 3, 133]]"
    and b: "map feature_tags (snd (parts ! 0)) = [[0, 72, 1, 129, 2, 132, 3, 134]]"
    by (simp_all add: Let_def demo_request_edges demo_weights demo_datasources m u o
          demo_forward demo_reverse demo_coordinates demo_edge_fields demo_line demo_speed)
  from one have "concat (map (\<lambda>part. fst part @ snd part) parts) = fst (parts ! 0) @ snd (parts ! 0)"
    by (cases parts) auto
  then have "map feature_tags (layer_features (tile ! 0))
      = [[0, 36, 1, 129, 2, 131, 3, 133], [0, 72, 1, 129, 2, 132, 3, 134]]"
    using f b by (simp add: feats)
  with r have "\<exists>tile. HandleRequest True demo_memory (demo_facade [demo_edge]) demo_util demo_params
        = Inr (Ok, tile)
      \<and> map feature_tags (layer_features (tile ! 0))
          = [[0, 36, 1, 129, 2, 131, 3, 133], [0, 72, 1, 129, 2, 132, 3, 134]]"
    by (intro exI [of _ tile] conjI)
  with demo_valid c show ?thesis by (intro conjI)
qed

subsection \<open>The point features of an edge\<close>

text \<open>
  Claim C7. A valid request on a consistent facade returns, the tally pass has stored one
  list of turn records for each edge, and the features of the "turns" layer are, edge by
  edge in the order of the edges, the point features of each edge. An edge has point
  features only if its forward segment position is the last of its geometry, its list of
  turn records is not empty and the projected point of its end node is strictly inside
  the clip box; and if these three hold, it has one point feature for each turn record,
  in their order, with the attribute pairs of that record and the geometry of that one
  point.
\<close>

theorem turn_points_emitted:
  assumes "dbg \<longrightarrow> IsValid p" and "request_consistent fac ut p"
  shows "\<exists>tile st parts. HandleRequest dbg mem fac ut p = Inr (Ok, tile)
    \<and> tally_pass dbg mem fac ut (request_edges fac ut p) initial_state = Inr st
    \<and> length (all_turn_data st) = length (request_edges fac ut p)
    \<and> layer_features (tile ! 1) = concat parts
    \<and> length parts = length (request_edges fac ut p)
    \<and> (\<forall>k<length (request_edges fac ut p).
         (parts ! k \<noteq> [] \<longrightarrow>
            is_last_segment (fwd_segment_position (request_edges fac ut p ! k))
              (length (GetUncompressedGeometry fac
                 (forward_packed_geometry_id (request_edges fac ut p ! k))))
            \<and> all_turn_data st ! k \<noteq> []
            \<and> within_clip_box ut
                (coordinatesToTilePoint ut
                   (GetCoordinateOfNode fac (edge_v (request_edges fac ut p ! k)))
                   (request_bbox ut p)))
         \<and> (is_last_segment (fwd_segment_position (request_edges fac ut p ! k))
              (length (GetUncompressedGeometry fac
                 (forward_packed_geometry_id (request_edges fac ut p ! k))))
            \<and> all_turn_data st ! k \<noteq> []
            \<and> within_clip_box ut
                (coordinatesToTilePoint ut
                   (GetCoordinateOfNode fac (edge_v (request_edges fac ut p ! k)))
                   (request_bbox ut p))
            \<longrightarrow> length (parts ! k) = length (all_turn_data st ! k)
              \<and> map feature_view (parts ! k) =
                  map (\<lambda>turn. (point_tags turn,
                         encodePoint (coordinatesToTilePoint ut
                           (GetCoordinateOfNode fac (edge_v (request_edges fac ut p ! k)))
                           (request_bbox ut p))))
                    (all_turn_data st ! k)))"
proof -
  let ?edges = "request_edges fac ut p"
  let ?box = "request_bbox ut p"
  from HandleRequest_returns [OF assms] obtain tile
    where r: "HandleRequest dbg mem fac ut p = Inr (Ok, tile)" by blast
  from r obtain st lparts pparts
    where t: "tally_pass dbg mem fac ut ?edges initial_state = Inr st"
      and tile: "tile = [speeds_layer fac ut st (concat (map (\<lambda>part. fst part @ snd part) lparts)),
                 turns_layer st (concat pparts)]"
      and pv: "map (map feature_view) pparts
         = map (point_view fac ut ?box) (zip ?edges (all_turn_data st))"
      and pg: "\<forall>part\<in>set pparts. \<forall>f\<in>set part. is_msg FEATURE_TAG f"
    by (rule HandleRequest_Inr [OF _ assms(2)])
  have pf: "\<forall>f\<in>set (concat pparts). is_msg FEATURE_TAG f"
    using pg by auto
  have feats: "layer_features (tile ! 1) = concat pparts"
    using turns_layer_features [OF pf] by (simp add: tile)
  have len: "length (all_turn_data st) = length ?edges"
    by (rule tally_pass_initial(5) [OF t consistent_arrays [OF assms(2)]])
  note V = point_parts_view [OF pv len]
  have each: "(pparts ! k \<noteq> [] \<longrightarrow>
            is_last_segment (fwd_segment_position (?edges ! k))
              (length (GetUncompressedGeometry fac (forward_packed_geometry_id (?edges ! k))))
            \<and> all_turn_data st ! k \<noteq> []
            \<and> within_clip_box ut
                (coordinatesToTilePoint ut (GetCoordinateOfNode fac (edge_v (?edges ! k))) ?box))
         \<and> (is_last_segment (fwd_segment_position (?edges ! k))
              (length (GetUncompressedGeometry fac (forward_packed_geometry_id (?edges ! k))))
            \<and> all_turn_data st ! k \<noteq> []
            \<and> within_clip_box ut
                (coordinatesToTilePoint ut (GetCoordinateOfNode fac (edge_v (?edges ! k))) ?box)
            \<longrightarrow> length (pparts ! k) = length (all_turn_data st ! k)
              \<and> map feature_view (pparts ! k) =
                  map (\<lambda>turn. (point_tags turn,
                         encodePoint (coordinatesToTilePoint ut
                           (GetCoordinateOfNode fac (edge_v (?edges ! k))) ?box)))
                    (all_turn_data st ! k))"
    if k: "k < length ?edges" for k
  proof -
    have m: "map feature_view (pparts ! k) = point_view fac ut ?box (?edges ! k, all_turn_data st ! k)"
      by (rule V(2) [OF k])
    have l: "length (pparts ! k) = length (point_view fac ut ?box (?edges ! k, all_turn_data st ! k))"
      using arg_cong [OF m, of length] by simp
    have n: "pparts ! k \<noteq> [] \<longleftrightarrow> point_view fac ut ?box (?edges ! k, all_turn_data st ! k) \<noteq> []"
      using l by auto
    show ?thesis
      unfolding n m l
      by (simp add: point_view_def ends_at_intersection_def turn_point_def)
  qed
  from r t len feats V(1) each show ?thesis by blast
qed

theorem turn_points_emitted_witness:
  "IsValid demo_params
   \<and> request_consistent (demo_facade [demo_edge]) demo_util demo_params
   \<and> (\<exists>tile. HandleRequest True demo_memory (demo_facade [demo_edge]) demo_util demo_params = Inr (Ok, tile)
        \<and> map feature_view (layer_features (tile ! 1)) = [([0, 0, 1, 0, 2, 1], [9, 2, 0])])"
proof -
  have v: "True \<longrightarrow> IsValid demo_params" by (simp add: demo_valid)
  have c: "request_consistent (demo_facade [demo_edge]) demo_util demo_params"
    by (rule demo_consistent)
  note inst = turn_points_emitted [OF v c, where mem = demo_memory, unfolded demo_request_edges]
  from inst obtain tile st parts
    where r: "HandleRequest True demo_memory (demo_facade [demo_edge]) demo_util demo_params = Inr (Ok, tile)"
      and t: "tally_pass True demo_memory (demo_facade [demo_edge]) demo_util [demo_edge] initial_state = Inr st"
      and f: "layer_features (tile ! 1) = concat parts"
      and l: "length parts = length [demo_edge]"
      and e: "\<forall>k<length [demo_edge].
         (parts ! k \<noteq> [] \<longrightarrow>
            is_last_segment (fwd_segment_position ([demo_edge] ! k))
              (length (GetUncompressedGeometry (demo_facade [demo_edge])
                 (forward_packed_geometry_id ([demo_edge] ! k))))
            \<and> all_turn_data st ! k \<noteq> []
            \<and> within_clip_box demo_util
                (coordinatesToTilePoint demo_util
                   (GetCoordinateOfNode (demo_facade [demo_edge]) (edge_v ([demo_edge] ! k)))
                   (request_bbox demo_util demo_params)))
         \<and> (is_last_segment (fwd_segment_position ([demo_edge] ! k))
              (length (GetUncompressedGeometry (demo_facade [demo_edge])
                 (forward_packed_geometry_id ([demo_edge] ! k))))
            \<and> all_turn_data st ! k \<noteq> []
            \<and> within_clip_box demo_util
                (coordinatesToTilePoint demo_util
                   (GetCoordinateOfNode (demo_facade [demo_edge]) (edge_v ([demo_edge] ! k)))
                   (request_bbox demo_util demo_params))
            \<longrightarrow> length (parts ! k) = length (all_turn_data st ! k)
              \<and> map feature_view (parts ! k) =
                  map (\<lambda>turn. (point_tags turn,
                         encodePoint (coordinatesToTilePoint demo_util
                           (GetCoordinateOfNode (demo_facade [demo_edge]) (edge_v ([demo_edge] ! k)))
                           (request_bbox demo_util demo_params))))
                    (all_turn_data st ! k))"
    by (elim exE conjE)
  have atd: "all_turn_data st = [[\<lparr>in_angle_offset = 0, out_angle_offset = 0, weight_offset = 1\<rparr>]]"
    using demo_tally [of True demo_memory "[demo_edge]"] t by simp
  have last: "is_last_segment (fwd_segment_position demo_edge)
      (length (GetUncompressedGeometry (demo_facade [demo_edge]) (forward_packed_geometry_id demo_edge)))"
    using demo_is_last [of "[demo_edge]"] by (simp add: ends_at_intersection_def)
  from e have m: "map feature_view (parts ! 0) = [([0, 0, 1, 0, 2, 1], [9, 2, 0])]"
    by (simp add: atd last demo_turn_point demo_within demo_encodePoint point_tags_def)
  have "concat parts = parts ! 0" using l by (simp add: singleton_concat)
  then have "layer_features (tile ! 1) = parts ! 0" using f by simp
  then have "map feature_view (layer_features (tile ! 1)) = [([0, 0, 1, 0, 2, 1], [9, 2, 0])]"
    using m by (simp only:)
  with r have "\<exists>tile. HandleRequest True demo_memory (demo_facade [demo_edge]) demo_util demo_params = Inr (Ok, tile)
        \<and> map feature_view (layer_features (tile ! 1)) = [([0, 0, 1, 0, 2, 1], [9, 2, 0])]"
    by (intro exI [of _ tile] conjI)
  with demo_valid c show ?thesis by (intro conjI)
qed

subsection \<open>The two layers\<close>

text \<open>
  Claim C9. A valid request on a consistent facade returns \<open>Ok\<close> and its buffer holds
  exactly two layer messages: the first with the single name "speeds", the second with
  the single name "turns", each with the single version 2 and the single extent 4096,
  whatever features the layers hold.
\<close>

theorem two_layers_written:
  assumes "dbg \<longrightarrow> IsValid p" and "request_consistent fac ut p"
  shows "\<exists>tile. HandleRequest dbg mem fac ut p = Inr (Ok, tile)
    \<and> decoded_layers tile = tile \<and> length tile = 2
    \<and> layer_names (tile ! 0) = [''speeds''] \<and> layer_versions (tile ! 0) = [2]
    \<and> layer_extents (tile ! 0) = [4096]
    \<and> layer_names (tile ! 1) = [''turns''] \<and> layer_versions (tile ! 1) = [2]
    \<and> layer_extents (tile ! 1) = [4096]"
proof -
  from HandleRequest_returns [OF assms] obtain tile
    where r: "HandleRequest dbg mem fac ut p = Inr (Ok, tile)" by blast
  from r obtain st lparts pparts
    where tile: "tile = [speeds_layer fac ut st (concat (map (\<lambda>part. fst part @ snd part) lparts)),
                 turns_layer st (concat pparts)]"
      and lg: "\<forall>part\<in>set lparts. \<forall>f\<in>set (fst part @ snd part). is_msg FEATURE_TAG f"
      and pg: "\<forall>part\<in>set pparts. \<forall>f\<in>set part. is_msg FEATURE_TAG f"
    by (rule HandleRequest_Inr [OF _ assms(2)])
  have lf: "\<forall>f\<in>set (concat (map (\<lambda>part. fst part @ snd part) lparts)). is_msg FEATURE_TAG f"
    using lg by auto
  have pf: "\<forall>f\<in>set (concat pparts). is_msg FEATURE_TAG f"
    using pg by auto
  have "decoded_layers tile = tile"
    by (simp add: tile decoded_layers_def speeds_layer_def turns_layer_def)
  then show ?thesis
    using r speeds_layer_header [OF lf] turns_layer_header [OF pf]
    by (simp add: tile)
qed

theorem two_layers_written_witness:
  "IsValid demo_params
   \<and> request_consistent (demo_facade [demo_edge]) demo_util demo_params
   \<and> (\<exists>tile. HandleRequest True demo_memory (demo_facade [demo_edge]) demo_util demo_params = Inr (Ok, tile)
        \<and> length tile = 2
        \<and> layer_names (tile ! 0) = [''speeds''] \<and> layer_names (tile ! 1) = [''turns''])"
proof -
  have v: "True \<longrightarrow> IsValid demo_params" by (simp add: demo_valid)
  from two_layers_written [OF v demo_consistent, where mem = demo_memory] demo_valid demo_consistent show ?thesis by blast
qed

subsection \<open>Lines of two points\<close>

text \<open>
  Claim C10. \<^verbatim>\<open>coordinatesToTileLine\<close> returns the empty line or a line of two points: it
  is not empty exactly if the clipping gave at least one part and the first part has two
  points, and then it is these two points, converted. A valid request on a consistent
  facade returns, and the geometry of each feature of its "speeds" layer is a MoveTo
  and a LineTo command that encode exactly two vertices.
\<close>

theorem line_geometry_two_points:
  assumes "dbg \<longrightarrow> IsValid p" and "request_consistent fac ut p"
  shows "(length (coordinatesToTileLine ut start target box) = 0
          \<or> length (coordinatesToTileLine ut start target box) = 2)
    \<and> (coordinatesToTileLine ut start target box \<noteq> [] \<longleftrightarrow>
          clip_projected ut start target box \<noteq> []
          \<and> length (hd (clip_projected ut start target box)) = 2)
    \<and> (coordinatesToTileLine ut start target box \<noteq> [] \<longrightarrow>
          coordinatesToTileLine ut start target box
            = map (\<lambda>pt. (d_to_int32 ut (fst pt), d_to_int32 ut (snd pt)))
                (hd (clip_projected ut start target box)))
    \<and> (\<exists>tile. HandleRequest dbg mem fac ut p = Inr (Ok, tile)
          \<and> (\<forall>f\<in>set (layer_features (tile ! 0)).
                linestring_vertices (feature_geometry f) = Some 2))"
proof -
  have a: "length (coordinatesToTileLine ut start target box) = 0
          \<or> length (coordinatesToTileLine ut start target box) = 2"
    using coordinatesToTileLine_length [of ut start target box] by simp
  have b: "coordinatesToTileLine ut start target box \<noteq> [] \<longleftrightarrow>
          clip_projected ut start target box \<noteq> []
          \<and> length (hd (clip_projected ut start target box)) = 2"
    by (cases "clip_projected ut start target box") (auto simp: coordinatesToTileLine_def)
  have c: "coordinatesToTileLine ut start target box \<noteq> [] \<longrightarrow>
          coordinatesToTileLine ut start target box
            = map (\<lambda>pt. (d_to_int32 ut (fst pt), d_to_int32 ut (snd pt)))
                (hd (clip_projected ut start target box))"
    by (cases "clip_projected ut start target box") (auto simp: coordinatesToTileLine_def)
  from HandleRequest_returns [OF assms] obtain tile
    where r: "HandleRequest dbg mem fac ut p = Inr (Ok, tile)" by blast
  from r obtain st lparts pparts
    where tile: "tile = [speeds_layer fac ut st (concat (map (\<lambda>part. fst part @ snd part) lparts)),
                 turns_layer st (concat pparts)]"
      and lv: "map (\<lambda>part. (map feature_view (fst part), map feature_view (snd part))) lparts
         = map (\<lambda>e. (forward_view fac ut (request_bbox ut p) st e,
                      reverse_view fac ut (request_bbox ut p) st e)) (request_edges fac ut p)"
      and lg: "\<forall>part\<in>set lparts. \<forall>f\<in>set (fst part @ snd part). is_msg FEATURE_TAG f"
    by (rule HandleRequest_Inr [OF _ assms(2)])
  have lf: "\<forall>f\<in>set (concat (map (\<lambda>part. fst part @ snd part) lparts)). is_msg FEATURE_TAG f"
    using lg by auto
  have feats: "layer_features (tile ! 0) = concat (map (\<lambda>part. fst part @ snd part) lparts)"
    using speeds_layer_features [OF lf] by (simp add: tile)
  have d: "\<forall>f\<in>set (layer_features (tile ! 0)). linestring_vertices (feature_geometry f) = Some 2"
  proof
    fix f assume "f \<in> set (layer_features (tile ! 0))"
    then have "f \<in> set (concat (map (\<lambda>part. fst part @ snd part) lparts))" by (simp only: feats)
    from line_feature_cases [OF lv this]
    have "linestring_vertices (snd (feature_view f)) = Some 2"
      by (auto simp: forward_view_def reverse_view_def dest: direction_view_two)
    then show "linestring_vertices (feature_geometry f) = Some 2"
      by (simp add: feature_view_def)
  qed
  from a b c r d show ?thesis by blast
qed

theorem line_geometry_two_points_witness:
  "IsValid demo_params
   \<and> request_consistent (demo_facade [demo_edge]) demo_util demo_params
   \<and> coordinatesToTileLine demo_util (0, 0) (1, 0) (request_bbox demo_util demo_params) = [(0, 0), (1, 0)]
   \<and> (\<exists>tile. HandleRequest True demo_memory (demo_facade [demo_edge]) demo_util demo_params = Inr (Ok, tile)
        \<and> (\<forall>f\<in>set (layer_features (tile ! 0)). linestring_vertices (feature_geometry f) = Some 2))"
proof -
  have v: "True \<longrightarrow> IsValid demo_params" by (simp add: demo_valid)
  have l: "coordinatesToTileLine demo_util (0, 0) (1, 0) (request_bbox demo_util demo_params) = [(0, 0), (1, 0)]"
    by (simp add: coordinatesToTileLine_def demo_util_def)
  from line_geometry_two_points [OF v demo_consistent, where mem = demo_memory] demo_valid demo_consistent l show ?thesis by blast
qed

end
